(* ===== verification/Prelude.thy ===== *)
theory Prelude
  imports Main "HOL-Library.Char_ord" "HOL-Library.List_Lexorder" "HOL-Library.Multiset"
    "HOL-Library.Sublist"
begin

text \<open>
  Shared vocabulary of the development: the model of Rust strings, the list and option lemmas
  the components use, the generic transition-system locale for invariants, and the collections
  of rewrite rules that the component proofs unfold with.

  A Rust \<^verbatim>\<open>String\<close> is its sequence of UTF-8 bytes, so \<^verbatim>\<open>len()\<close> is \<open>length\<close>, literals are
  Isabelle strings, and byte-wise order is the order SQLite's BINARY collation uses. What Rust
  does per Unicode scalar value (\<^verbatim>\<open>chars()\<close>, \<^verbatim>\<open>trim()\<close>) works on \<open>uchars\<close>, the list of the encoded
  scalar values: a leading byte with the continuation bytes that follow it.
\<close>

section \<open>Collections of rewrite rules\<close>

named_theorems op_defs \<open>definitions of the model's operations\<close>
named_theorems inv_defs \<open>definitions of invariants and well-formedness predicates\<close>

section \<open>Rust strings\<close>

type_synonym rstring = string

definition is_cont :: "char \<Rightarrow> bool" where
  "is_cont c = (128 \<le> (of_char c :: nat) \<and> (of_char c :: nat) < 192)"

function uchars :: "rstring \<Rightarrow> rstring list" where
  "uchars [] = []"
| "uchars (c # cs) = (c # takeWhile is_cont cs) # uchars (dropWhile is_cont cs)"
  by pat_completeness auto
termination
  by (relation "measure length") (auto simp: le_imp_less_Suc length_dropWhile_le)

definition char_count :: "rstring \<Rightarrow> nat" where
  "char_count s = length (uchars s)"

definition take_chars :: "nat \<Rightarrow> rstring \<Rightarrow> rstring" where
  "take_chars n s = concat (take n (uchars s))"

text \<open>The encoded form of the scalar values with the property \<^verbatim>\<open>White_Space\<close>, the ones
  \<^verbatim>\<open>char::is_whitespace\<close> accepts.\<close>

definition is_ws :: "rstring \<Rightarrow> bool" where
  "is_ws u = (case map of_char u :: nat list of
      [b] \<Rightarrow> (9 \<le> b \<and> b \<le> 13) \<or> b = 32
    | [b, c] \<Rightarrow> b = 194 \<and> (c = 133 \<or> c = 160)
    | [b, c, d] \<Rightarrow> (b = 225 \<and> c = 154 \<and> d = 128)
        \<or> (b = 226 \<and> c = 128 \<and> ((128 \<le> d \<and> d \<le> 138) \<or> d = 168 \<or> d = 169 \<or> d = 175))
        \<or> (b = 226 \<and> c = 129 \<and> d = 159)
        \<or> (b = 227 \<and> c = 128 \<and> d = 128)
    | _ \<Rightarrow> False)"

definition trim_start :: "rstring \<Rightarrow> rstring" where
  "trim_start s = concat (dropWhile is_ws (uchars s))"

definition trim_end :: "rstring \<Rightarrow> rstring" where
  "trim_end s = concat (rev (dropWhile is_ws (rev (uchars s))))"

definition trim :: "rstring \<Rightarrow> rstring" where
  "trim s = trim_end (trim_start s)"

definition to_ascii_lowercase :: "rstring \<Rightarrow> rstring" where
  "to_ascii_lowercase s =
     map (\<lambda>c. if (65::nat) \<le> of_char c \<and> (of_char c :: nat) \<le> 90
              then char_of ((of_char c :: nat) + 32) else c) s"

text \<open>\<^verbatim>\<open>str::contains\<close>, \<^verbatim>\<open>str::rfind\<close> (the byte index of the last match) and \<^verbatim>\<open>str::replace\<close> with a
  non-empty pattern.\<close>

fun contains :: "rstring \<Rightarrow> rstring \<Rightarrow> bool" where
  "contains [] p = (p = [])"
| "contains (c # cs) p = (prefix p (c # cs) \<or> contains cs p)"

fun rfind :: "rstring \<Rightarrow> rstring \<Rightarrow> nat option" where
  "rfind [] p = (if p = [] then Some 0 else None)"
| "rfind (c # cs) p =
     (case rfind cs p of Some i \<Rightarrow> Some (Suc i)
      | None \<Rightarrow> if prefix p (c # cs) then Some 0 else None)"

definition insert_str :: "rstring \<Rightarrow> nat \<Rightarrow> rstring \<Rightarrow> rstring" where
  "insert_str s i t = take i s @ t @ drop i s"

function replace :: "rstring \<Rightarrow> rstring \<Rightarrow> rstring \<Rightarrow> rstring" where
  "replace p r [] = []"
| "replace p r (c # cs) =
     (if p \<noteq> [] \<and> prefix p (c # cs) then r @ replace p r (drop (length p) (c # cs))
      else c # replace p r cs)"
  by pat_completeness auto
termination
  by (relation "measure (\<lambda>(p, r, s). length s)") auto

fun join :: "rstring \<Rightarrow> rstring list \<Rightarrow> rstring" where
  "join sep [] = []"
| "join sep [x] = x"
| "join sep (x # y # xs) = x @ sep @ join sep (y # xs)"

definition trim_start_matches :: "char \<Rightarrow> rstring \<Rightarrow> rstring" where
  "trim_start_matches c s = dropWhile (\<lambda>d. d = c) s"

text \<open>Non-ASCII scalar values that occur in the source's literals, as UTF-8.\<close>

definition nl :: rstring where "nl = [CHR 0x0A]"
definition ellipsis :: rstring where "ellipsis = [CHR 0xE2, CHR 0x80, CHR 0xA6]"
definition bullet :: rstring where "bullet = [CHR 0xE2, CHR 0x80, CHR 0xA2]"
definition emdash :: rstring where "emdash = [CHR 0xE2, CHR 0x80, CHR 0x94]"
definition middot :: rstring where "middot = [CHR 0xC2, CHR 0xB7]"

subsection \<open>Lemmas on strings\<close>

lemma concat_uchars [simp]: "concat (uchars s) = s"
  by (induction s rule: uchars.induct) auto

lemma uchars_eq_Nil [simp]: "uchars s = [] \<longleftrightarrow> s = []"
  by (cases s) auto

lemma uchars_nonempty: "u \<in> set (uchars s) \<Longrightarrow> u \<noteq> []"
  by (induction s rule: uchars.induct) auto

text \<open>A chunk as \<open>uchars\<close> makes it: non-empty, continuation bytes from its second byte on.\<close>

definition chunk :: "rstring \<Rightarrow> bool" where
  "chunk u = (u \<noteq> [] \<and> (\<forall>b \<in> set (tl u). is_cont b))"

definition starts_char :: "rstring \<Rightarrow> bool" where
  "starts_char u = (u \<noteq> [] \<and> \<not> is_cont (hd u))"

lemma chunk_uchars: "u \<in> set (uchars s) \<Longrightarrow> chunk u"
  by (induction s rule: uchars.induct) (auto simp: chunk_def dest: set_takeWhileD)

lemma starts_char_tl_uchars: "u \<in> set (tl (uchars s)) \<Longrightarrow> starts_char u"
proof (induction s rule: uchars.induct)
  case (2 c cs)
  show ?case
  proof (cases "dropWhile is_cont cs")
    case Nil
    with 2 show ?thesis by simp
  next
    case (Cons d ds)
    then have "\<not> is_cont d" by (metis hd_dropWhile list.sel(1) list.simps(3))
    with 2 Cons show ?thesis by (auto simp: starts_char_def)
  qed
qed simp

lemma uchars_chunk_append:
  assumes "chunk u" and "t = [] \<or> \<not> is_cont (hd t)"
  shows "uchars (u @ t) = u # uchars t"
proof -
  from assms(1) obtain c cs where u: "u = c # cs" and cs: "\<forall>b \<in> set cs. is_cont b"
    by (cases u) (auto simp: chunk_def)
  have "takeWhile is_cont (cs @ t) = cs" and "dropWhile is_cont (cs @ t) = t"
    using cs assms(2) by (cases t; auto simp: takeWhile_append dropWhile_append)+
  with u show ?thesis by simp
qed

lemma uchars_concat:
  assumes "\<forall>u \<in> set us. chunk u" and "\<forall>u \<in> set (tl us). starts_char u"
  shows "uchars (concat us) = us"
  using assms
proof (induction us)
  case (Cons u us)
  have st: "concat us = [] \<or> \<not> is_cont (hd (concat us))"
  proof (cases us)
    case (Cons v vs)
    with Cons.prems show ?thesis by (auto simp: starts_char_def)
  qed simp
  have "\<forall>u \<in> set (tl us). starts_char u"
    using Cons.prems(2) by (cases us) auto
  with Cons.IH Cons.prems(1) have "uchars (concat us) = us" by simp
  with uchars_chunk_append [OF _ st, of u] Cons.prems(1) show ?case by simp
qed simp

lemma uchars_take [simp]: "uchars (concat (take n (uchars s))) = take n (uchars s)"
proof (rule uchars_concat)
  show "\<forall>u \<in> set (take n (uchars s)). chunk u"
    by (meson chunk_uchars in_set_takeD)
  have "set (tl (take n (uchars s))) \<subseteq> set (tl (uchars s))"
    by (cases "uchars s"; cases n) (auto dest: in_set_takeD)
  then show "\<forall>u \<in> set (tl (take n (uchars s))). starts_char u"
    using starts_char_tl_uchars by blast
qed

lemma uchars_drop [simp]: "uchars (concat (drop n (uchars s))) = drop n (uchars s)"
proof (rule uchars_concat)
  show "\<forall>u \<in> set (drop n (uchars s)). chunk u"
    by (meson chunk_uchars in_set_dropD)
  have "set (tl (drop n (uchars s))) \<subseteq> set (tl (uchars s))"
    by (metis drop_Suc set_drop_subset tl_drop)
  then show "\<forall>u \<in> set (tl (drop n (uchars s))). starts_char u"
    using starts_char_tl_uchars by blast
qed

lemma char_count_take_chars: "char_count (take_chars n s) = min n (char_count s)"
  by (simp add: char_count_def take_chars_def min.commute)

lemma prefix_take_chars: "prefix (take_chars n s) s"
proof -
  have "s = concat (take n (uchars s)) @ concat (drop n (uchars s))"
    by (metis append_take_drop_id concat_append concat_uchars)
  then show ?thesis unfolding take_chars_def by (rule prefixI)
qed

lemma char_count_le_length: "char_count s \<le> length s"
proof -
  have "length (uchars s) \<le> length (concat (uchars s))"
  proof -
    have "\<forall>u \<in> set us. u \<noteq> [] \<Longrightarrow> length us \<le> length (concat us)" for us :: "rstring list"
    proof (induction us)
      case (Cons u us)
      then have "0 < length u" and "length us \<le> length (concat us)" by simp_all
      then have "Suc (length us) \<le> length u + length (concat us)" by linarith
      then show ?case by simp
    qed simp
    then show ?thesis using uchars_nonempty by blast
  qed
  then show ?thesis by (simp add: char_count_def)
qed

lemma uchars_append:
  assumes "t = [] \<or> \<not> is_cont (hd t)"
  shows "uchars (s @ t) = uchars s @ uchars t"
proof (induction s rule: uchars.induct)
  case (2 c cs)
  show ?case
  proof (cases "\<forall>b \<in> set cs. is_cont b")
    case True
    then have "takeWhile is_cont (cs @ t) = cs" "dropWhile is_cont (cs @ t) = t"
      using assms by (cases t; auto simp: takeWhile_append dropWhile_append)+
    with True show ?thesis by (simp add: takeWhile_eq_all_conv [THEN iffD2] dropWhile_eq_Nil_conv [THEN iffD2])
  next
    case False
    then have "takeWhile is_cont (cs @ t) = takeWhile is_cont cs"
      "dropWhile is_cont (cs @ t) = dropWhile is_cont cs @ t"
      by (auto simp: takeWhile_append dropWhile_append)
    with 2 show ?thesis by simp
  qed
qed simp

lemma char_count_append:
  "t = [] \<or> \<not> is_cont (hd t) \<Longrightarrow> char_count (s @ t) = char_count s + char_count t"
  by (simp add: char_count_def uchars_append)

lemma take_chars_append:
  "\<not> is_cont (hd t) \<Longrightarrow> n \<le> char_count s \<Longrightarrow> take_chars n (take_chars n s @ t) = take_chars n s"
  by (simp add: take_chars_def uchars_append char_count_def)

section \<open>Lists\<close>

lemma set_map_filter: "set (List.map_filter f xs) = {y. \<exists>x \<in> set xs. f x = Some y}"
  by (induction xs) (auto simp: List.map_filter_simps split: option.splits)

section \<open>Transition systems\<close>

text \<open>
  Every stateful component is a set of steps from an initial state. An invariant is established
  once, here, for any step relation: it holds initially, every step keeps it, so it holds in
  every state the component can reach.
\<close>

inductive steps :: "('s \<Rightarrow> 's \<Rightarrow> bool) \<Rightarrow> 's \<Rightarrow> 's \<Rightarrow> bool" for step where
  steps_refl: "steps step s s"
| steps_step: "steps step s t \<Longrightarrow> step t u \<Longrightarrow> steps step s u"

lemma steps_trans: "steps step s t \<Longrightarrow> steps step t u \<Longrightarrow> steps step s u"
  by (rotate_tac, induction rule: steps.induct) (auto intro: steps.intros)

locale transition_invariant =
  fixes init :: "'s \<Rightarrow> bool"
    and step :: "'s \<Rightarrow> 's \<Rightarrow> bool"
    and inv :: "'s \<Rightarrow> bool"
  assumes inv_init: "init s \<Longrightarrow> inv s"
    and inv_step: "inv s \<Longrightarrow> step s t \<Longrightarrow> inv t"
begin

lemma inv_steps: "steps step s t \<Longrightarrow> inv s \<Longrightarrow> inv t"
  by (induction rule: steps.induct) (auto intro: inv_step)

lemma inv_reachable: "init s \<Longrightarrow> steps step s t \<Longrightarrow> inv t"
  by (blast intro: inv_init inv_steps)

end

text \<open>A quantity that no step decreases is monotone along every run.\<close>

locale transition_monotone =
  fixes step :: "'s \<Rightarrow> 's \<Rightarrow> bool"
    and rel :: "'s \<Rightarrow> 's \<Rightarrow> bool"
  assumes rel_refl: "rel s s"
    and rel_trans: "rel s t \<Longrightarrow> rel t u \<Longrightarrow> rel s u"
    and rel_step: "step s t \<Longrightarrow> rel s t"
begin

lemma rel_steps: "steps step s t \<Longrightarrow> rel s t"
  by (induction rule: steps.induct) (auto intro: rel_refl rel_trans rel_step)

end

end
