(* ===== verification/Json.thy ===== *)
theory Json
  imports Prelude
begin

text \<open>
  The JSON values of \<^verbatim>\<open>serde_json::Value\<close> and the accessors the sources use on them
  (\<^verbatim>\<open>Value::get\<close>, \<^verbatim>\<open>as_str\<close>, \<^verbatim>\<open>as_bool\<close>, \<^verbatim>\<open>as_array\<close>). An object is an association list; a lookup reads
  the first entry of a key, and \<open>json_insert\<close> keeps one entry per key. A number is opaque: no
  modelled code computes with it, so it is kept as its literal.

  Printing and parsing JSON text is \<^verbatim>\<open>serde_json\<close>'s own code, so it is a parameter: a value of
  the record \<open>serde\<close> holds the two functions, and \<open>serde_faithful\<close> is the documented round trip.
\<close>

datatype json =
    JNull
  | JBool bool
  | JNumber rstring
  | JString rstring
  | JArray "json list"
  | JObject "(rstring \<times> json) list"

fun json_get :: "rstring \<Rightarrow> json \<Rightarrow> json option" where
  "json_get k (JObject kvs) = map_of kvs k"
| "json_get k _ = None"

fun as_str :: "json \<Rightarrow> rstring option" where
  "as_str (JString s) = Some s"
| "as_str _ = None"

fun as_bool :: "json \<Rightarrow> bool option" where
  "as_bool (JBool b) = Some b"
| "as_bool _ = None"

fun as_array :: "json \<Rightarrow> json list option" where
  "as_array (JArray xs) = Some xs"
| "as_array _ = None"

fun is_object :: "json \<Rightarrow> bool" where
  "is_object (JObject _) = True"
| "is_object _ = False"

definition get_str :: "rstring \<Rightarrow> json \<Rightarrow> rstring option" where
  "get_str k v = Option.bind (json_get k v) as_str"

definition get_bool :: "rstring \<Rightarrow> json \<Rightarrow> bool option" where
  "get_bool k v = Option.bind (json_get k v) as_bool"

definition get_array :: "rstring \<Rightarrow> json \<Rightarrow> json list option" where
  "get_array k v = Option.bind (json_get k v) as_array"

definition unwrap_or :: "'a \<Rightarrow> 'a option \<Rightarrow> 'a" where
  "unwrap_or d x = (case x of None \<Rightarrow> d | Some y \<Rightarrow> y)"

lemma unwrap_or_simps [simp]: "unwrap_or d None = d" "unwrap_or d (Some x) = x"
  by (simp_all add: unwrap_or_def)

definition str_list :: "json list \<Rightarrow> rstring list" where
  "str_list vs = List.map_filter as_str vs"

record serde =
  to_text :: "json \<Rightarrow> rstring option"
  from_text :: "rstring \<Rightarrow> json option"

definition serde_faithful :: "serde \<Rightarrow> bool" where
  "serde_faithful J = (\<forall>v s. to_text J v = Some s \<longrightarrow> from_text J s = Some v)"

lemma serde_faithfulD: "serde_faithful J \<Longrightarrow> to_text J v = Some s \<Longrightarrow> from_text J s = Some v"
  by (simp add: serde_faithful_def)

text \<open>
  \<^verbatim>\<open>chrono\<close>'s conversion between instants and RFC 3339 text is a parameter too. An instant is the
  number of nanoseconds since the epoch in UTC; \<open>chrono_faithful\<close> is the documented round trip.
\<close>

record chrono =
  parse_rfc3339 :: "rstring \<Rightarrow> int option"
  to_rfc3339 :: "int \<Rightarrow> rstring"

definition chrono_faithful :: "chrono \<Rightarrow> bool" where
  "chrono_faithful C = (\<forall>t. parse_rfc3339 C (to_rfc3339 C t) = Some t)"

abbreviation seconds :: "int \<Rightarrow> int" where "seconds n \<equiv> n * 1000000000"

text \<open>A clock text in unary, which shows that the contract can be met.\<close>

definition unary_clock :: chrono where
  "unary_clock = \<lparr>parse_rfc3339 = (\<lambda>s. case s of [] \<Rightarrow> Some 0
       | c # cs \<Rightarrow> Some (if c = CHR ''+'' then int (length cs) else - int (length cs))),
     to_rfc3339 = (\<lambda>n. if 0 \<le> n then CHR ''+'' # replicate (nat n) CHR ''1''
       else CHR ''-'' # replicate (nat (- n)) CHR ''1'')\<rparr>"

lemma unary_clock_faithful: "chrono_faithful unary_clock"
  by (simp add: chrono_faithful_def unary_clock_def)

end
