(* ===== verification/Db_Tables.thy ===== *)
theory Db_Tables
  imports Json
begin

text \<open>
  The SQLite tables of \<^verbatim>\<open>src-tauri/src/db/schema.sql\<close> that the modelled components read and write,
  as lists of rows in rowid order, and the error type of \<^verbatim>\<open>db/mod.rs\<close>. Every statement of the
  sources is a function on these lists. A declared constraint (primary key, unique index,
  foreign key) that a statement breaks makes it fail with \<open>Sqlite\<close> and leaves the tables as they
  were, as the rolled-back transaction does. Timestamps are the RFC 3339 text the code stores;
  SQL compares them byte by byte, and so does the model. \<open>ORDER BY\<close> is a stable sort.

  \<open>fk_ok\<close> is the declared schema as a predicate: keys are unique and references resolve.
\<close>

datatype DbError = Sqlite rstring | Io rstring | NoAppDir | Other rstring

fun db_error_text :: "DbError \<Rightarrow> rstring" where
  "db_error_text (Sqlite m) = ''database error: '' @ m"
| "db_error_text (Io m) = ''io error: '' @ m"
| "db_error_text NoAppDir = ''could not resolve app data directory''"
| "db_error_text (Other m) = m"

definition unique_failed :: DbError where
  "unique_failed = Sqlite ''UNIQUE constraint failed''"

definition fk_failed :: DbError where
  "fk_failed = Sqlite ''FOREIGN KEY constraint failed''"

datatype run_status = Pending | Running | Completed | Failed | Cancelled

record workflow_row =
  wf_id :: rstring
  wf_name :: rstring
  wf_description :: rstring
  wf_working_directory :: rstring
  wf_folder :: "rstring option"
  wf_sort_order :: int
  wf_retrieval :: bool
  wf_graph_json :: rstring
  wf_created :: rstring
  wf_updated :: rstring

record run_row =
  run_id :: rstring
  run_workflow :: rstring
  run_trigger_kind :: rstring
  run_status :: run_status
  run_payload :: "rstring option"
  run_error :: "rstring option"
  run_started :: "rstring option"
  run_finished :: "rstring option"
  run_created :: rstring

record step_row =
  step_id :: rstring
  step_run :: rstring
  step_node :: rstring
  step_provider :: "rstring option"
  step_skill :: "rstring option"
  step_status :: rstring
  step_input :: rstring
  step_output :: rstring
  step_error :: "rstring option"
  step_created :: rstring

text \<open>A row of the full-text index \<^verbatim>\<open>run_step_fts\<close>, which has no declared key.\<close>

record fts_row =
  fts_step :: rstring
  fts_run :: rstring
  fts_workflow :: rstring
  fts_node :: rstring
  fts_input :: rstring
  fts_output :: rstring
  fts_error :: rstring

record schedule_row =
  sc_id :: rstring
  sc_workflow :: rstring
  sc_cron :: rstring
  sc_enabled :: bool
  sc_next_run :: "rstring option"
  sc_created :: rstring
  sc_updated :: rstring

record trigger_row =
  tr_id :: rstring
  tr_workflow :: rstring
  tr_source :: rstring
  tr_label :: rstring
  tr_config_json :: rstring
  tr_secret :: "rstring option"
  tr_enabled :: bool
  tr_last_fired :: "rstring option"
  tr_created :: rstring
  tr_updated :: rstring

record tstate_row =
  ts_trigger :: rstring
  ts_cursor :: "rstring option"
  ts_subscription :: "rstring option"
  ts_expires :: "rstring option"
  ts_last_polled :: "rstring option"
  ts_last_success :: "rstring option"
  ts_last_error :: "rstring option"
  ts_next_attempt :: "rstring option"
  ts_retry :: int
  ts_overrun :: int
  ts_updated :: rstring

datatype disposition = Queued | Enqueued | DroppedOverrunD | RejectedInvalid

record receipt_row =
  rc_trigger :: rstring
  rc_event :: rstring
  rc_received :: rstring
  rc_disposition :: disposition
  rc_run :: "rstring option"
  rc_reason :: "rstring option"

record queue_row =
  q_id :: rstring
  q_trigger :: rstring
  q_event :: rstring
  q_json :: rstring
  q_enqueued :: rstring

datatype ConnectionStatus = Connected | Expired | Error | Revoked

record connection_row =
  co_id :: rstring
  co_provider :: rstring
  co_display_name :: "rstring option"
  co_account :: "rstring option"
  co_tenant :: "rstring option"
  co_mode :: rstring
  co_identity :: rstring
  co_scopes_json :: rstring
  co_metadata_json :: rstring
  co_status :: ConnectionStatus
  co_expires :: "rstring option"
  co_last_checked :: "rstring option"
  co_last_error :: "rstring option"
  co_credential :: rstring
  co_created :: rstring
  co_updated :: rstring

record db =
  folders :: "rstring list"
  workflows :: "workflow_row list"
  runs :: "run_row list"
  run_steps :: "step_row list"
  run_step_fts :: "fts_row list"
  schedules :: "schedule_row list"
  triggers :: "trigger_row list"
  app_trigger_state :: "tstate_row list"
  app_event_receipts :: "receipt_row list"
  app_event_queue :: "queue_row list"
  app_connections :: "connection_row list"

definition empty_db :: db where
  "empty_db = \<lparr>folders = [], workflows = [], runs = [], run_steps = [], run_step_fts = [], schedules = [],
     triggers = [], app_trigger_state = [], app_event_receipts = [], app_event_queue = [],
     app_connections = []\<rparr>"

type_synonym 'a dbres = "(DbError + 'a) \<times> db"

section \<open>Keys and references\<close>

abbreviation rc_key :: "receipt_row \<Rightarrow> rstring \<times> rstring" where
  "rc_key r \<equiv> (rc_trigger r, rc_event r)"

abbreviation co_key :: "connection_row \<Rightarrow> rstring \<times> rstring \<times> rstring" where
  "co_key c \<equiv> (co_provider c, co_mode c, co_identity c)"

abbreviation q_key :: "queue_row \<Rightarrow> rstring \<times> rstring" where
  "q_key q \<equiv> (q_trigger q, q_event q)"

definition workflow_exists :: "rstring \<Rightarrow> db \<Rightarrow> bool" where
  "workflow_exists w d = (w \<in> set (map wf_id (workflows d)))"

definition trigger_exists :: "rstring \<Rightarrow> db \<Rightarrow> bool" where
  "trigger_exists t d = (t \<in> set (map tr_id (triggers d)))"

definition keys_ok :: "db \<Rightarrow> bool" where
  "keys_ok d = (distinct (map wf_id (workflows d)) \<and> distinct (map run_id (runs d))
     \<and> distinct (map tr_id (triggers d)) \<and> distinct (map sc_workflow (schedules d))
     \<and> distinct (map sc_id (schedules d)) \<and> distinct (map step_id (run_steps d))
     \<and> distinct (map ts_trigger (app_trigger_state d))
     \<and> distinct (map co_id (app_connections d)) \<and> distinct (map co_key (app_connections d))
     \<and> distinct (map co_credential (app_connections d))
     \<and> distinct (map rc_key (app_event_receipts d))
     \<and> distinct (map q_id (app_event_queue d)) \<and> distinct (map q_key (app_event_queue d)))"

definition refs_ok :: "db \<Rightarrow> bool" where
  "refs_ok d = ((\<forall>w \<in> set (map run_workflow (runs d)). workflow_exists w d)
     \<and> (\<forall>i \<in> set (map step_run (run_steps d)). i \<in> set (map run_id (runs d)))
     \<and> (\<forall>w \<in> set (map sc_workflow (schedules d)). workflow_exists w d)
     \<and> (\<forall>w \<in> set (map tr_workflow (triggers d)). workflow_exists w d)
     \<and> (\<forall>t \<in> set (map ts_trigger (app_trigger_state d)). trigger_exists t d)
     \<and> (\<forall>t \<in> set (map rc_trigger (app_event_receipts d)). trigger_exists t d)
     \<and> (\<forall>t \<in> set (map q_trigger (app_event_queue d)). trigger_exists t d))"

definition fk_ok :: "db \<Rightarrow> bool" where
  "fk_ok d = (keys_ok d \<and> refs_ok d)"

lemma workflow_exists_cong [simp]:
  "workflow_exists w (d\<lparr>runs := rs\<rparr>) = workflow_exists w d"
  "workflow_exists w (d\<lparr>run_steps := ss\<rparr>) = workflow_exists w d"
  "workflow_exists w (d\<lparr>run_step_fts := fs\<rparr>) = workflow_exists w d"
  "workflow_exists w (d\<lparr>schedules := sc\<rparr>) = workflow_exists w d"
  "workflow_exists w (d\<lparr>triggers := ts\<rparr>) = workflow_exists w d"
  "workflow_exists w (d\<lparr>app_trigger_state := a\<rparr>) = workflow_exists w d"
  "workflow_exists w (d\<lparr>app_event_receipts := b\<rparr>) = workflow_exists w d"
  "workflow_exists w (d\<lparr>app_event_queue := c\<rparr>) = workflow_exists w d"
  "workflow_exists w (d\<lparr>app_connections := cs\<rparr>) = workflow_exists w d"
  by (simp_all add: workflow_exists_def)

lemma trigger_exists_cong [simp]:
  "trigger_exists w (d\<lparr>runs := rs\<rparr>) = trigger_exists w d"
  "trigger_exists w (d\<lparr>run_steps := ss\<rparr>) = trigger_exists w d"
  "trigger_exists w (d\<lparr>run_step_fts := fs\<rparr>) = trigger_exists w d"
  "trigger_exists w (d\<lparr>schedules := sc\<rparr>) = trigger_exists w d"
  "trigger_exists w (d\<lparr>workflows := wfs\<rparr>) = trigger_exists w d"
  "trigger_exists w (d\<lparr>app_trigger_state := a\<rparr>) = trigger_exists w d"
  "trigger_exists w (d\<lparr>app_event_receipts := b\<rparr>) = trigger_exists w d"
  "trigger_exists w (d\<lparr>app_event_queue := c\<rparr>) = trigger_exists w d"
  "trigger_exists w (d\<lparr>app_connections := cs\<rparr>) = trigger_exists w d"
  by (simp_all add: trigger_exists_def)

section \<open>Updating and removing rows\<close>

definition update_where :: "('r \<Rightarrow> bool) \<Rightarrow> ('r \<Rightarrow> 'r) \<Rightarrow> 'r list \<Rightarrow> 'r list" where
  "update_where p f rows = map (\<lambda>r. if p r then f r else r) rows"

lemma map_update_where [simp]:
  "(\<And>r. k (f r) = k r) \<Longrightarrow> map k (update_where p f rows) = map k rows"
  by (simp add: update_where_def)

lemma set_update_where:
  "set (update_where p f rows) = f ` {r \<in> set rows. p r} \<union> {r \<in> set rows. \<not> p r}"
  by (auto simp: update_where_def)

lemma length_update_where [simp]: "length (update_where p f rows) = length rows"
  by (simp add: update_where_def)

lemma filter_update_where:
  "(\<And>r. p r \<Longrightarrow> \<not> Q r \<and> \<not> Q (f r)) \<Longrightarrow> filter Q (update_where p f rows) = filter Q rows"
  by (induction rows) (auto simp: update_where_def)

lemma distinct_map_filter_rows: "distinct (map k rows) \<Longrightarrow> distinct (map k (filter p rows))"
  by (induction rows) auto

lemma distinct_map_eq:
  "distinct (map k rows) \<Longrightarrow> x \<in> set rows \<Longrightarrow> y \<in> set rows \<Longrightarrow> k x = k y \<Longrightarrow> x = y"
  by (simp add: distinct_map inj_on_def)

lemma find_distinct:
  "distinct (map k rows) \<Longrightarrow> x \<in> set rows \<Longrightarrow> find (\<lambda>r. k r = k x) rows = Some x"
  by (induction rows) auto

end
