(* ===== verification/App_Events.thy ===== *)
theory App_Events
  imports Db_Tables "HOL-Library.Product_Lexorder" "HOL-Library.Word"
begin

text \<open>
  The durable event queue of \<^verbatim>\<open>db/app_events.rs\<close>: receipts that deduplicate provider events, a
  bounded queue per trigger, promotion of the oldest queued event into a pending run, recovery
  after a crash and pruning of old receipts. Each operation takes the clock reading (\<^verbatim>\<open>now()\<close>)
  and the fresh identifiers (\<^verbatim>\<open>Uuid::new_v4()\<close>) the source draws as arguments, and returns the
  result with the new database; an error leaves the database unchanged.
\<close>

datatype RecordAppEventOutcome = OQueued | ODuplicate | OBackpressure | ODroppedOverrun

definition DEFAULT_APP_EVENT_PENDING_CAP :: nat where "DEFAULT_APP_EVENT_PENDING_CAP = 100"
definition RECEIPT_CAP_PER_TRIGGER :: nat where "RECEIPT_CAP_PER_TRIGGER = 10000"

record AppTriggerState =
  st_trigger_id :: rstring
  st_cursor :: "rstring option"
  st_subscription_id :: "rstring option"
  st_expires_at :: "rstring option"
  st_last_polled_at :: "rstring option"
  st_last_success_at :: "rstring option"
  st_last_error_code :: "rstring option"
  st_next_attempt_at :: "rstring option"
  st_retry_count :: "32 word"
  st_overrun_count :: "64 word"
  st_updated_at :: rstring

record AppTriggerStatus =
  as_trigger_id :: rstring
  as_cursor_present :: bool
  as_subscription_active :: bool
  as_expires_at :: "rstring option"
  as_last_polled_at :: "rstring option"
  as_last_success_at :: "rstring option"
  as_last_error_code :: "rstring option"
  as_next_attempt_at :: "rstring option"
  as_overrun_count :: "64 word"
  as_pending_count :: nat

record AppTriggerCheckpointUpdate =
  cu_cursor :: "rstring option"
  cu_subscription_id :: "rstring option"
  cu_expires_at :: "rstring option"
  cu_polled_at :: rstring

record PromotedAppEventRun =
  pr_run_id :: rstring
  pr_workflow_id :: rstring
  pr_created_at :: rstring

section \<open>Trigger state\<close>

definition map_state :: "tstate_row \<Rightarrow> AppTriggerState" where
  "map_state r = \<lparr>st_trigger_id = ts_trigger r, st_cursor = ts_cursor r,
     st_subscription_id = ts_subscription r, st_expires_at = ts_expires r,
     st_last_polled_at = ts_last_polled r, st_last_success_at = ts_last_success r,
     st_last_error_code = ts_last_error r, st_next_attempt_at = ts_next_attempt r,
     st_retry_count = word_of_int (max 0 (ts_retry r)),
     st_overrun_count = word_of_int (max 0 (ts_overrun r)),
     st_updated_at = ts_updated r\<rparr>"

definition get_app_trigger_state :: "rstring \<Rightarrow> db \<Rightarrow> AppTriggerState option" where
  "get_app_trigger_state t d =
     map_option map_state (find (\<lambda>r. ts_trigger r = t) (app_trigger_state d))"

definition trigger_status :: "db \<Rightarrow> trigger_row \<Rightarrow> AppTriggerStatus" where
  "trigger_status d t =
     (let s = find (\<lambda>r. ts_trigger r = tr_id t) (app_trigger_state d) in
      \<lparr>as_trigger_id = tr_id t,
       as_cursor_present = (Option.bind s ts_cursor \<noteq> None),
       as_subscription_active = (Option.bind s ts_subscription \<noteq> None),
       as_expires_at = Option.bind s ts_expires,
       as_last_polled_at = Option.bind s ts_last_polled,
       as_last_success_at = Option.bind s ts_last_success,
       as_last_error_code = Option.bind s ts_last_error,
       as_next_attempt_at = Option.bind s ts_next_attempt,
       as_overrun_count = word_of_int (max 0 (case s of None \<Rightarrow> 0 | Some r \<Rightarrow> ts_overrun r)),
       as_pending_count = length (filter (\<lambda>q. q_trigger q = tr_id t) (app_event_queue d))\<rparr>)"

definition list_app_trigger_statuses :: "rstring \<Rightarrow> db \<Rightarrow> AppTriggerStatus list" where
  "list_app_trigger_statuses w d =
     map (trigger_status d) (sort_key tr_created
       (filter (\<lambda>t. tr_workflow t = w \<and> tr_source t = ''app'') (triggers d)))"

definition new_state :: "rstring \<Rightarrow> rstring \<Rightarrow> tstate_row" where
  "new_state t now = \<lparr>ts_trigger = t, ts_cursor = None, ts_subscription = None,
     ts_expires = None, ts_last_polled = None, ts_last_success = None, ts_last_error = None,
     ts_next_attempt = None, ts_retry = 0, ts_overrun = 0, ts_updated = now\<rparr>"

text \<open>\<^verbatim>\<open>INSERT \<dots> ON CONFLICT(trigger_id) DO UPDATE\<close> on \<open>app_trigger_state\<close>.\<close>

definition upsert_state ::
  "tstate_row \<Rightarrow> (tstate_row \<Rightarrow> tstate_row) \<Rightarrow> db \<Rightarrow> DbError + db" where
  "upsert_state ins upd d =
     (if ts_trigger ins \<in> set (map ts_trigger (app_trigger_state d))
      then Inr (d\<lparr>app_trigger_state :=
             update_where (\<lambda>r. ts_trigger r = ts_trigger ins) upd (app_trigger_state d)\<rparr>)
      else if trigger_exists (ts_trigger ins) d
      then Inr (d\<lparr>app_trigger_state := app_trigger_state d @ [ins]\<rparr>)
      else Inl fk_failed)"

definition coalesce :: "'a option \<Rightarrow> 'a option \<Rightarrow> 'a option" where
  "coalesce a b = (case a of None \<Rightarrow> b | Some x \<Rightarrow> Some x)"

definition lift_db :: "db \<Rightarrow> DbError + db \<Rightarrow> unit dbres" where
  "lift_db d r = (case r of Inl e \<Rightarrow> (Inl e, d) | Inr d' \<Rightarrow> (Inr (), d'))"

definition save_app_trigger_checkpoint ::
  "rstring \<Rightarrow> AppTriggerCheckpointUpdate \<Rightarrow> rstring \<Rightarrow> db \<Rightarrow> unit dbres" where
  "save_app_trigger_checkpoint t u now d = lift_db d (upsert_state
     ((new_state t now)\<lparr>ts_cursor := cu_cursor u, ts_subscription := cu_subscription_id u,
        ts_expires := cu_expires_at u, ts_last_polled := Some (cu_polled_at u),
        ts_last_success := Some (cu_polled_at u)\<rparr>)
     (\<lambda>r. r\<lparr>ts_cursor := cu_cursor u,
        ts_subscription := coalesce (cu_subscription_id u) (ts_subscription r),
        ts_expires := coalesce (cu_expires_at u) (ts_expires r),
        ts_last_polled := Some (cu_polled_at u), ts_last_success := Some (cu_polled_at u),
        ts_last_error := None, ts_next_attempt := None, ts_retry := 0, ts_updated := now\<rparr>) d)"

definition mark_app_trigger_error ::
  "rstring \<Rightarrow> rstring \<Rightarrow> rstring option \<Rightarrow> rstring \<Rightarrow> db \<Rightarrow> unit dbres" where
  "mark_app_trigger_error t code next now d = lift_db d (upsert_state
     ((new_state t now)\<lparr>ts_last_error := Some code, ts_next_attempt := next, ts_retry := 1\<rparr>)
     (\<lambda>r. r\<lparr>ts_last_error := Some code, ts_next_attempt := next,
        ts_retry := ts_retry r + 1, ts_updated := now\<rparr>) d)"

section \<open>Receipts and the queue\<close>

definition insert_receipt :: "receipt_row \<Rightarrow> db \<Rightarrow> DbError + db" where
  "insert_receipt r d =
     (if rc_key r \<in> set (map rc_key (app_event_receipts d)) then Inl unique_failed
      else if trigger_exists (rc_trigger r) d
      then Inr (d\<lparr>app_event_receipts := app_event_receipts d @ [r]\<rparr>)
      else Inl fk_failed)"

definition insert_queue :: "queue_row \<Rightarrow> db \<Rightarrow> DbError + db" where
  "insert_queue q d =
     (if q_id q \<in> set (map q_id (app_event_queue d))
         \<or> q_key q \<in> set (map q_key (app_event_queue d)) then Inl unique_failed
      else if trigger_exists (q_trigger q) d
      then Inr (d\<lparr>app_event_queue := app_event_queue d @ [q]\<rparr>)
      else Inl fk_failed)"

definition mk_receipt ::
  "rstring \<Rightarrow> rstring \<Rightarrow> rstring \<Rightarrow> disposition \<Rightarrow> rstring option \<Rightarrow> receipt_row" where
  "mk_receipt t e now disp reason = \<lparr>rc_trigger = t, rc_event = e, rc_received = now,
     rc_disposition = disp, rc_run = None, rc_reason = reason\<rparr>"

text \<open>\<^verbatim>\<open>INSERT OR IGNORE\<close>: a second receipt of the event is ignored and reported as \<open>False\<close>.\<close>

definition record_rejected_app_event ::
  "rstring \<Rightarrow> rstring \<Rightarrow> rstring \<Rightarrow> rstring \<Rightarrow> db \<Rightarrow> bool dbres" where
  "record_rejected_app_event t e reason now d =
     (if (t, e) \<in> set (map rc_key (app_event_receipts d)) then (Inr False, d)
      else case insert_receipt (mk_receipt t e now RejectedInvalid (Some reason)) d of
        Inl err \<Rightarrow> (Inl err, d) | Inr d' \<Rightarrow> (Inr True, d'))"

definition pending_count :: "rstring \<Rightarrow> db \<Rightarrow> nat" where
  "pending_count t d = length (filter (\<lambda>q. q_trigger q = t) (app_event_queue d))"

definition record_app_event ::
  "rstring \<Rightarrow> rstring \<Rightarrow> rstring \<Rightarrow> bool \<Rightarrow> nat \<Rightarrow> rstring \<Rightarrow> rstring \<Rightarrow> db
    \<Rightarrow> RecordAppEventOutcome dbres" where
  "record_app_event t e payload replayable cap now queue_id d =
     (if (t, e) \<in> set (map rc_key (app_event_receipts d)) then (Inr ODuplicate, d)
      else if max cap 1 \<le> pending_count t d then
        (if replayable then (Inr OBackpressure, d)
         else case insert_receipt (mk_receipt t e now DroppedOverrunD (Some ''pending_cap'')) d of
             Inl err \<Rightarrow> (Inl err, d)
           | Inr d1 \<Rightarrow>
             (case upsert_state ((new_state t now)\<lparr>ts_overrun := 1\<rparr>)
                     (\<lambda>r. r\<lparr>ts_overrun := ts_overrun r + 1, ts_updated := now\<rparr>) d1 of
                Inl err \<Rightarrow> (Inl err, d)
              | Inr d2 \<Rightarrow> (Inr ODroppedOverrun, d2)))
      else case insert_receipt (mk_receipt t e now Queued None) d of
          Inl err \<Rightarrow> (Inl err, d)
        | Inr d1 \<Rightarrow>
          (case insert_queue \<lparr>q_id = queue_id, q_trigger = t, q_event = e, q_json = payload,
                             q_enqueued = now\<rparr> d1 of
             Inl err \<Rightarrow> (Inl err, d)
           | Inr d2 \<Rightarrow> (Inr OQueued, d2)))"

section \<open>Promotion, recovery, pruning\<close>

definition q_of_workflow :: "rstring \<Rightarrow> db \<Rightarrow> queue_row \<Rightarrow> bool" where
  "q_of_workflow w d q =
     list_ex (\<lambda>t. tr_id t = q_trigger q \<and> tr_workflow t = w \<and> tr_enabled t) (triggers d)"

definition next_queued :: "rstring \<Rightarrow> db \<Rightarrow> queue_row option" where
  "next_queued w d =
     (case sort_key (\<lambda>q. (q_enqueued q, q_id q)) (filter (q_of_workflow w d) (app_event_queue d)) of
        [] \<Rightarrow> None | q # _ \<Rightarrow> Some q)"

definition insert_run :: "run_row \<Rightarrow> db \<Rightarrow> DbError + db" where
  "insert_run r d =
     (if run_id r \<in> set (map run_id (runs d)) then Inl unique_failed
      else if workflow_exists (run_workflow r) d then Inr (d\<lparr>runs := runs d @ [r]\<rparr>)
      else Inl fk_failed)"

definition pending_run ::
  "rstring \<Rightarrow> rstring \<Rightarrow> rstring \<Rightarrow> rstring option \<Rightarrow> rstring \<Rightarrow> run_row" where
  "pending_run i w kind payload now = \<lparr>run_id = i, run_workflow = w, run_trigger_kind = kind,
     run_status = Pending, run_payload = payload, run_error = None, run_started = None,
     run_finished = None, run_created = now\<rparr>"

definition promote_next_app_event ::
  "rstring \<Rightarrow> rstring \<Rightarrow> rstring \<Rightarrow> db \<Rightarrow> PromotedAppEventRun option dbres" where
  "promote_next_app_event w rid now d =
     (case next_queued w d of
        None \<Rightarrow> (Inr None, d)
      | Some q \<Rightarrow>
        (case insert_run (pending_run rid w ''app'' (Some (q_json q)) now) d of
           Inl err \<Rightarrow> (Inl err, d)
         | Inr d1 \<Rightarrow>
           (Inr (Some \<lparr>pr_run_id = rid, pr_workflow_id = w, pr_created_at = now\<rparr>),
            d1\<lparr>app_event_receipts :=
                  update_where (\<lambda>r. rc_trigger r = q_trigger q \<and> rc_event r = q_event q)
                    (\<lambda>r. r\<lparr>rc_disposition := Enqueued, rc_run := Some rid\<rparr>)
                    (app_event_receipts d1),
                app_event_queue := filter (\<lambda>x. q_id x \<noteq> q_id q) (app_event_queue d1)\<rparr>)))"

definition has_receipt :: "db \<Rightarrow> run_row \<Rightarrow> bool" where
  "has_receipt d r = list_ex (\<lambda>c. rc_run c = Some (run_id r)) (app_event_receipts d)"

definition list_pending_app_event_runs :: "db \<Rightarrow> PromotedAppEventRun list" where
  "list_pending_app_event_runs d =
     map (\<lambda>r. \<lparr>pr_run_id = run_id r, pr_workflow_id = run_workflow r,
               pr_created_at = run_created r\<rparr>)
       (sort_key run_created (filter (\<lambda>r. has_receipt d r \<and> run_trigger_kind r = ''app''
          \<and> run_status r = Pending) (runs d)))"

definition interrupted :: "db \<Rightarrow> run_row \<Rightarrow> bool" where
  "interrupted d r = (run_trigger_kind r = ''app'' \<and> run_status r = Running \<and> has_receipt d r)"

definition fail_interrupted_app_event_runs :: "rstring \<Rightarrow> db \<Rightarrow> nat \<times> db" where
  "fail_interrupted_app_event_runs now d =
     (length (filter (interrupted d) (runs d)),
      d\<lparr>runs := update_where (interrupted d)
         (\<lambda>r. r\<lparr>run_status := Failed, run_finished := Some now,
                run_error := Some ''Interrupted when Alfred exited''\<rparr>) (runs d)\<rparr>)"

text \<open>The workflows with queued events of an enabled trigger, oldest event first
  (\<^verbatim>\<open>GROUP BY t.workflow_id ORDER BY MIN(q.enqueued_at)\<close>).\<close>

definition app_event_queue_workflow_ids :: "db \<Rightarrow> rstring list" where
  "app_event_queue_workflow_ids d =
     (let joined = [(tr_workflow t, q_enqueued q). q \<leftarrow> app_event_queue d, t \<leftarrow> triggers d,
                      tr_id t = q_trigger q \<and> tr_enabled t]
      in map fst (sort_key snd (map (\<lambda>w. (w, Min (set (map snd (filter (\<lambda>p. fst p = w) joined)))))
           (remdups (map fst joined)))))"

definition in_queue :: "db \<Rightarrow> receipt_row \<Rightarrow> bool" where
  "in_queue d r = list_ex (\<lambda>q. q_trigger q = rc_trigger r \<and> q_event q = rc_event r)
     (app_event_queue d)"

definition prunable :: "db \<Rightarrow> receipt_row \<Rightarrow> bool" where
  "prunable d r = (rc_disposition r \<noteq> Queued \<and> \<not> in_queue d r)"

definition prune_expired :: "rstring \<Rightarrow> db \<Rightarrow> receipt_row list \<Rightarrow> receipt_row list" where
  "prune_expired cutoff d rows = filter (\<lambda>r. \<not> (rc_received r < cutoff \<and> prunable d r)) rows"

definition overflow_receipts :: "nat \<Rightarrow> rstring \<Rightarrow> receipt_row list \<Rightarrow> receipt_row list" where
  "overflow_receipts cap t rows =
     drop cap (rev (sort_key rc_received
       (filter (\<lambda>r. rc_trigger r = t \<and> rc_disposition r \<noteq> Queued) rows)))"

definition prune_overflow :: "nat \<Rightarrow> db \<Rightarrow> rstring \<Rightarrow> receipt_row list \<Rightarrow> receipt_row list" where
  "prune_overflow cap d t rows =
     filter (\<lambda>r. \<not> (rc_trigger r = t \<and> prunable d r
                    \<and> rc_key r \<in> set (map rc_key (overflow_receipts cap t rows)))) rows"

definition over_cap_triggers :: "nat \<Rightarrow> receipt_row list \<Rightarrow> rstring list" where
  "over_cap_triggers cap rows =
     filter (\<lambda>t. cap < length (filter (\<lambda>r. rc_trigger r = t) rows)) (remdups (map rc_trigger rows))"

definition prune_app_event_receipts :: "rstring \<Rightarrow> db \<Rightarrow> nat \<times> db" where
  "prune_app_event_receipts cutoff d =
     (let rows1 = prune_expired cutoff d (app_event_receipts d);
          rows2 = fold (prune_overflow RECEIPT_CAP_PER_TRIGGER d)
                    (over_cap_triggers RECEIPT_CAP_PER_TRIGGER rows1) rows1
      in (length (app_event_receipts d) - length rows2, d\<lparr>app_event_receipts := rows2\<rparr>))"

section \<open>The delivery invariant\<close>

text \<open>
  Beside the schema's own constraints: the queue holds exactly the events whose receipt is
  \<open>Queued\<close>; a receipt carries a run exactly when it is \<open>Enqueued\<close>; no two receipts share a run;
  and the run of a receipt is an \<^verbatim>\<open>app\<close> run of the workflow of the receipt's trigger.
\<close>

definition queue_matches :: "receipt_row list \<Rightarrow> queue_row list \<Rightarrow> bool" where
  "queue_matches rs qs = (q_key ` set qs = rc_key ` {r \<in> set rs. rc_disposition r = Queued})"

definition app_run_of :: "db \<Rightarrow> rstring \<Rightarrow> rstring \<Rightarrow> bool" where
  "app_run_of d t i = (\<exists>x \<in> set (runs d). run_id x = i \<and> run_trigger_kind x = ''app''
     \<and> (\<exists>y \<in> set (triggers d). tr_id y = t \<and> tr_workflow y = run_workflow x))"

definition run_iff_enqueued :: "receipt_row list \<Rightarrow> bool" where
  "run_iff_enqueued rs = (\<forall>r \<in> set rs. (rc_disposition r = Enqueued) = (rc_run r \<noteq> None))"

definition runs_unshared :: "receipt_row list \<Rightarrow> bool" where
  "runs_unshared rs = (\<forall>r \<in> set rs. \<forall>s \<in> set rs. \<forall>i.
     rc_run r = Some i \<longrightarrow> rc_run s = Some i \<longrightarrow> rc_key r = rc_key s)"

definition runs_resolve :: "db \<Rightarrow> receipt_row list \<Rightarrow> bool" where
  "runs_resolve d rs = (\<forall>r \<in> set rs. case rc_run r of None \<Rightarrow> True
     | Some i \<Rightarrow> app_run_of d (rc_trigger r) i)"

definition receipts_linked :: "db \<Rightarrow> bool" where
  "receipts_linked d = (run_iff_enqueued (app_event_receipts d)
     \<and> runs_unshared (app_event_receipts d) \<and> runs_resolve d (app_event_receipts d))"

definition ev_inv :: "db \<Rightarrow> bool" where
  "ev_inv d = (fk_ok d \<and> queue_matches (app_event_receipts d) (app_event_queue d)
     \<and> receipts_linked d)"

lemmas schema_defs = fk_ok_def keys_ok_def refs_ok_def

lemma fk_okE_receipts: "fk_ok d \<Longrightarrow> distinct (map rc_key (app_event_receipts d))"
  and fk_okE_queue: "fk_ok d \<Longrightarrow> distinct (map q_key (app_event_queue d))"
  and fk_okE_qids: "fk_ok d \<Longrightarrow> distinct (map q_id (app_event_queue d))"
  by (simp_all add: schema_defs)

text \<open>Only the receipts, the queue, the runs and the triggers matter to \<open>ev_inv\<close>.\<close>

lemma app_run_of_cong [simp]:
  "app_run_of (d\<lparr>app_event_receipts := a\<rparr>) t i = app_run_of d t i"
  "app_run_of (d\<lparr>app_event_queue := b\<rparr>) t i = app_run_of d t i"
  "app_run_of (d\<lparr>app_trigger_state := c\<rparr>) t i = app_run_of d t i"
  by (simp_all add: app_run_of_def)

lemma runs_resolve_cong [simp]:
  "runs_resolve (d\<lparr>app_event_receipts := a\<rparr>) rs = runs_resolve d rs"
  "runs_resolve (d\<lparr>app_event_queue := b\<rparr>) rs = runs_resolve d rs"
  "runs_resolve (d\<lparr>app_trigger_state := c\<rparr>) rs = runs_resolve d rs"
  by (simp_all add: runs_resolve_def cong: option.case_cong)

lemma linked_append_None:
  assumes "rc_run r = None" and "rc_disposition r \<noteq> Enqueued"
  shows "run_iff_enqueued (rs @ [r]) = run_iff_enqueued rs"
    and "runs_unshared (rs @ [r]) = runs_unshared rs"
    and "runs_resolve d (rs @ [r]) = runs_resolve d rs"
proof -
  show "run_iff_enqueued (rs @ [r]) = run_iff_enqueued rs"
    using assms by (simp add: run_iff_enqueued_def)
  show "runs_unshared (rs @ [r]) = runs_unshared rs"
    using assms by (simp add: runs_unshared_def ball_Un)
  show "runs_resolve d (rs @ [r]) = runs_resolve d rs"
    using assms by (simp add: runs_resolve_def)
qed

lemma linked_subset:
  assumes "set rs' \<subseteq> set rs"
  shows "run_iff_enqueued rs \<Longrightarrow> run_iff_enqueued rs'"
    and "runs_unshared rs \<Longrightarrow> runs_unshared rs'"
    and "runs_resolve d rs \<Longrightarrow> runs_resolve d rs'"
  using assms unfolding run_iff_enqueued_def runs_unshared_def runs_resolve_def by blast+

lemma runs_resolve_mono:
  assumes "\<And>t i. app_run_of d t i \<Longrightarrow> app_run_of d' t i" and "runs_resolve d rs"
  shows "runs_resolve d' rs"
  unfolding runs_resolve_def
proof
  fix r assume "r \<in> set rs"
  with assms(2) have "case rc_run r of None \<Rightarrow> True | Some i \<Rightarrow> app_run_of d (rc_trigger r) i"
    by (simp add: runs_resolve_def)
  with assms(1) show "case rc_run r of None \<Rightarrow> True | Some i \<Rightarrow> app_run_of d' (rc_trigger r) i"
    by (cases "rc_run r") simp_all
qed

lemma app_run_of_more_runs: "app_run_of d t i \<Longrightarrow> app_run_of (d\<lparr>runs := runs d @ rs\<rparr>) t i"
  by (auto simp: app_run_of_def)

subsection \<open>Trigger state\<close>

lemma upsert_state_fk:
  assumes "upsert_state ins upd d = Inr d'" and "fk_ok d" and "\<And>r. ts_trigger (upd r) = ts_trigger r"
  shows "fk_ok d'"
proof (cases "ts_trigger ins \<in> set (map ts_trigger (app_trigger_state d))")
  case True
  then have "d' = d\<lparr>app_trigger_state :=
      update_where (\<lambda>r. ts_trigger r = ts_trigger ins) upd (app_trigger_state d)\<rparr>"
    using assms(1) by (simp add: upsert_state_def)
  with assms(2,3) show ?thesis by (simp add: schema_defs del: set_map)
next
  case False
  then have "d' = d\<lparr>app_trigger_state := app_trigger_state d @ [ins]\<rparr>"
    and "trigger_exists (ts_trigger ins) d"
    using assms(1) by (simp_all add: upsert_state_def split: if_splits)
  with False assms(2) show ?thesis by (simp add: schema_defs)
qed

lemma upsert_state_frame:
  assumes "upsert_state ins upd d = Inr d'"
  shows "d' = d\<lparr>app_trigger_state := app_trigger_state d'\<rparr>"
  using assms by (auto simp: upsert_state_def split: if_splits)

lemma ev_inv_state:
  assumes "ev_inv d" and "upsert_state ins upd d = Inr d'"
    and "\<And>r. ts_trigger (upd r) = ts_trigger r"
  shows "ev_inv d'"
proof -
  have "fk_ok d'" using assms upsert_state_fk by (auto simp: ev_inv_def)
  moreover obtain S where "d' = d\<lparr>app_trigger_state := S\<rparr>"
    using upsert_state_frame [OF assms(2)] by blast
  ultimately show ?thesis
    using assms(1) by (simp add: ev_inv_def receipts_linked_def)
qed

lemma ev_inv_lift_db:
  assumes "ev_inv d" and "\<And>r. ts_trigger (upd r) = ts_trigger r"
  shows "ev_inv (snd (lift_db d (upsert_state ins upd d)))"
  using assms ev_inv_state by (auto simp: lift_db_def split: sum.splits)

lemma save_app_trigger_checkpoint_inv:
  "ev_inv d \<Longrightarrow> ev_inv (snd (save_app_trigger_checkpoint t u now d))"
  unfolding save_app_trigger_checkpoint_def by (rule ev_inv_lift_db) simp_all

lemma mark_app_trigger_error_inv:
  "ev_inv d \<Longrightarrow> ev_inv (snd (mark_app_trigger_error t code next now d))"
  unfolding mark_app_trigger_error_def by (rule ev_inv_lift_db) simp_all

subsection \<open>Receipts\<close>

lemma insert_receipt_Inr:
  "insert_receipt r d = Inr d' \<longleftrightarrow> rc_key r \<notin> rc_key ` set (app_event_receipts d)
     \<and> trigger_exists (rc_trigger r) d \<and> d' = d\<lparr>app_event_receipts := app_event_receipts d @ [r]\<rparr>"
  by (auto simp: insert_receipt_def)

lemma insert_queue_Inr:
  "insert_queue q d = Inr d' \<longleftrightarrow> q_id q \<notin> q_id ` set (app_event_queue d)
     \<and> q_key q \<notin> q_key ` set (app_event_queue d)
     \<and> trigger_exists (q_trigger q) d \<and> d' = d\<lparr>app_event_queue := app_event_queue d @ [q]\<rparr>"
  by (auto simp: insert_queue_def)

text \<open>A receipt that starts neither queued nor with a run keeps the invariant on its own.\<close>

lemma ev_inv_insert_receipt:
  assumes "ev_inv d" and "insert_receipt r d = Inr d'"
    and "rc_disposition r = DroppedOverrunD \<or> rc_disposition r = RejectedInvalid" and "rc_run r = None"
  shows "ev_inv d'"
proof -
  from assms(2) have d': "d' = d\<lparr>app_event_receipts := app_event_receipts d @ [r]\<rparr>"
    and new: "rc_key r \<notin> rc_key ` set (app_event_receipts d)"
    and ex: "trigger_exists (rc_trigger r) d" by (simp_all add: insert_receipt_Inr)
  have "fk_ok d'" using assms(1) new ex d' by (simp add: ev_inv_def schema_defs)
  moreover have "queue_matches (app_event_receipts d') (app_event_queue d')"
    using assms(1,3) d' by (auto simp: ev_inv_def queue_matches_def)
  moreover have "receipts_linked d'"
    using assms d' by (auto simp: ev_inv_def receipts_linked_def linked_append_None)
  ultimately show ?thesis by (simp add: ev_inv_def)
qed

lemma record_rejected_app_event_inv:
  assumes "ev_inv d"
  shows "ev_inv (snd (record_rejected_app_event t e reason now d))"
proof (cases "insert_receipt (mk_receipt t e now RejectedInvalid (Some reason)) d")
  case (Inr d')
  with assms have "ev_inv d'" by (rule ev_inv_insert_receipt) (simp_all add: mk_receipt_def)
  with assms Inr show ?thesis by (simp add: record_rejected_app_event_def)
qed (use assms in \<open>simp add: record_rejected_app_event_def\<close>)

lemma ev_inv_insert_queued:
  assumes inv: "ev_inv d"
    and "insert_receipt r d = Inr d1" and "insert_queue q d1 = Inr d2"
    and r: "rc_disposition r = Queued" "rc_run r = None" and key: "q_key q = rc_key r"
  shows "ev_inv d2"
proof -
  have d2: "d2 = d\<lparr>app_event_receipts := app_event_receipts d @ [r],
                   app_event_queue := app_event_queue d @ [q]\<rparr>"
    and new: "rc_key r \<notin> rc_key ` set (app_event_receipts d)"
      "q_id q \<notin> q_id ` set (app_event_queue d)" "q_key q \<notin> q_key ` set (app_event_queue d)"
    and ex: "trigger_exists (rc_trigger r) d" "trigger_exists (q_trigger q) d"
    using assms(2,3) by (auto simp: insert_receipt_Inr insert_queue_Inr)
  have "fk_ok d2" using inv new ex d2 by (simp add: ev_inv_def schema_defs)
  moreover have "queue_matches (app_event_receipts d2) (app_event_queue d2)"
    using inv r key d2 by (auto simp: ev_inv_def queue_matches_def)
  moreover have "receipts_linked d2"
    using inv r d2 by (simp add: ev_inv_def receipts_linked_def linked_append_None)
  ultimately show ?thesis by (simp add: ev_inv_def)
qed

lemma record_app_event_inv:
  assumes "ev_inv d"
  shows "ev_inv (snd (record_app_event t e payload replayable cap now qid d))"
proof -
  let ?dropped = "mk_receipt t e now DroppedOverrunD (Some ''pending_cap'')"
  let ?queued = "mk_receipt t e now Queued None"
  let ?upd = "\<lambda>r. r\<lparr>ts_overrun := ts_overrun r + 1, ts_updated := now\<rparr>"
  have dropped: "ev_inv d2" if "insert_receipt ?dropped d = Inr d1"
      "upsert_state ((new_state t now)\<lparr>ts_overrun := 1\<rparr>) ?upd d1 = Inr d2" for d1 d2
  proof -
    have "ev_inv d1"
      using assms that(1) by (rule ev_inv_insert_receipt) (simp_all add: mk_receipt_def)
    then show ?thesis using that(2) by (rule ev_inv_state) simp
  qed
  have queued: "ev_inv d2" if "insert_receipt ?queued d = Inr d1"
      "insert_queue \<lparr>q_id = qid, q_trigger = t, q_event = e, q_json = payload,
         q_enqueued = now\<rparr> d1 = Inr d2" for d1 d2
    using assms that by (rule ev_inv_insert_queued) (simp_all add: mk_receipt_def)
  show ?thesis
    using assms dropped queued by (auto simp: record_app_event_def split: sum.splits)
qed

subsection \<open>Promotion\<close>

lemma insert_run_Inr:
  "insert_run r d = Inr d' \<longleftrightarrow> run_id r \<notin> run_id ` set (runs d)
     \<and> workflow_exists (run_workflow r) d \<and> d' = d\<lparr>runs := runs d @ [r]\<rparr>"
  by (auto simp: insert_run_def)

lemma next_queued_mem:
  assumes "next_queued w d = Some q"
  shows "q \<in> set (app_event_queue d)" and "q_of_workflow w d q"
proof -
  let ?xs = "sort_key (\<lambda>q. (q_enqueued q, q_id q)) (filter (q_of_workflow w d) (app_event_queue d))"
  obtain ys where "?xs = q # ys"
    using assms by (auto simp: next_queued_def split: list.splits)
  then have "q \<in> set ?xs" by (metis list.set_intros(1))
  then show "q \<in> set (app_event_queue d)" and "q_of_workflow w d q" by auto
qed

lemma next_queued_oldest:
  assumes "next_queued w d = Some q" and "x \<in> set (app_event_queue d)" and "q_of_workflow w d x"
  shows "(q_enqueued q, q_id q) \<le> (q_enqueued x, q_id x)"
proof -
  let ?k = "\<lambda>q. (q_enqueued q, q_id q)"
  let ?xs = "sort_key ?k (filter (q_of_workflow w d) (app_event_queue d))"
  obtain ys where ys: "?xs = q # ys"
    using assms(1) by (auto simp: next_queued_def split: list.splits)
  have "x \<in> set ?xs" using assms(2,3) by simp
  moreover have "sorted (map ?k ?xs)" by (rule sorted_sort_key)
  ultimately show ?thesis unfolding ys by auto
qed

text \<open>What a successful promotion does: one queued row leaves, its receipt takes the new run.\<close>

definition promoted_receipt :: "queue_row \<Rightarrow> rstring \<Rightarrow> receipt_row list \<Rightarrow> receipt_row list" where
  "promoted_receipt q rid = update_where (\<lambda>r. rc_trigger r = q_trigger q \<and> rc_event r = q_event q)
     (\<lambda>r. r\<lparr>rc_disposition := Enqueued, rc_run := Some rid\<rparr>)"

lemma promote_Some:
  assumes "promote_next_app_event w rid now d = (Inr (Some p), d')"
  obtains q where "next_queued w d = Some q" "rid \<notin> run_id ` set (runs d)" "workflow_exists w d"
    "p = \<lparr>pr_run_id = rid, pr_workflow_id = w, pr_created_at = now\<rparr>"
    "d' = d\<lparr>runs := runs d @ [pending_run rid w ''app'' (Some (q_json q)) now],
       app_event_receipts := promoted_receipt q rid (app_event_receipts d),
       app_event_queue := filter (\<lambda>x. q_id x \<noteq> q_id q) (app_event_queue d)\<rparr>"
  using assms
  by (auto simp: promote_next_app_event_def insert_run_Inr promoted_receipt_def pending_run_def
      split: option.splits sum.splits)

lemma promote_other:
  assumes "promote_next_app_event w rid now d = (res, d')" and "\<nexists>p. res = Inr (Some p)"
  shows "d' = d"
  using assms by (auto simp: promote_next_app_event_def split: option.splits sum.splits)

lemma remaining_queue_keys:
  assumes "distinct (map q_id qs)" and "distinct (map q_key qs)" and "q \<in> set qs"
  shows "q_key ` set (filter (\<lambda>x. q_id x \<noteq> q_id q) qs) = q_key ` set qs - {q_key q}"
proof -
  have "x = q" if "x \<in> set qs" "q_id x = q_id q \<or> q_key x = q_key q" for x
    using distinct_map_eq [OF assms(1) that(1) assms(3)]
      distinct_map_eq [OF assms(2) that(1) assms(3)] that(2) by blast
  then show ?thesis using assms(3) by auto
qed

lemma promoted_queue_matches:
  assumes "queue_matches rs qs" and "distinct (map q_id qs)" and "distinct (map q_key qs)"
    and "q \<in> set qs"
  shows "queue_matches (promoted_receipt q rid rs) (filter (\<lambda>x. q_id x \<noteq> q_id q) qs)"
proof -
  have "rc_key ` {r \<in> set (promoted_receipt q rid rs). rc_disposition r = Queued}
      = rc_key ` {r \<in> set rs. rc_disposition r = Queued} - {q_key q}"
    by (auto simp: promoted_receipt_def set_update_where)
  then show ?thesis
    using assms(1) remaining_queue_keys [OF assms(2,3,4)] by (simp add: queue_matches_def)
qed

lemma promoted_linked:
  assumes "receipts_linked d" and "rid \<notin> run_id ` set (runs d)"
    and q: "q_of_workflow w d q"
    and d1: "d1 = d\<lparr>runs := runs d @ [pending_run rid w ''app'' pl now]\<rparr>"
  shows "run_iff_enqueued (promoted_receipt q rid (app_event_receipts d))"
    and "runs_unshared (promoted_receipt q rid (app_event_receipts d))"
    and "runs_resolve d1 (promoted_receipt q rid (app_event_receipts d))"
proof -
  let ?rs = "app_event_receipts d"
  show "run_iff_enqueued (promoted_receipt q rid ?rs)"
    using assms(1) by (auto simp: receipts_linked_def run_iff_enqueued_def promoted_receipt_def
        update_where_def)
  have fresh: "rc_run r \<noteq> Some rid" if "r \<in> set ?rs" for r
    using assms(1,2) that
    by (auto simp: receipts_linked_def runs_resolve_def app_run_of_def split: option.splits)
  have char: "(rc_key a = q_key q \<and> i = rid)
      \<or> (i \<noteq> rid \<and> (\<exists>a' \<in> set ?rs. rc_run a' = Some i \<and> rc_key a' = rc_key a))"
    if "a \<in> set (promoted_receipt q rid ?rs)" "rc_run a = Some i" for a i
    using that fresh by (auto simp: promoted_receipt_def set_update_where)
  show "runs_unshared (promoted_receipt q rid ?rs)"
    unfolding runs_unshared_def
  proof (intro ballI allI impI)
    fix a b i
    assume "a \<in> set (promoted_receipt q rid ?rs)" "b \<in> set (promoted_receipt q rid ?rs)"
      "rc_run a = Some i" "rc_run b = Some i"
    with char [of a i] char [of b i] assms(1) show "rc_key a = rc_key b"
      unfolding receipts_linked_def runs_unshared_def by metis
  qed
  have new: "app_run_of d1 (q_trigger q) rid"
    using q d1 by (fastforce simp: app_run_of_def q_of_workflow_def list_ex_iff pending_run_def)
  have "app_run_of d t i \<Longrightarrow> app_run_of d1 t i" for t i
    unfolding d1 by (rule app_run_of_more_runs)
  with new show "runs_resolve d1 (promoted_receipt q rid ?rs)"
    using assms(1) by (auto simp: receipts_linked_def runs_resolve_def promoted_receipt_def
        update_where_def split: option.splits)
qed

lemma promote_next_app_event_inv:
  assumes inv: "ev_inv d"
  shows "ev_inv (snd (promote_next_app_event w rid now d))"
proof (cases "\<exists>p. fst (promote_next_app_event w rid now d) = Inr (Some p)")
  case True
  then obtain p d' where pr: "promote_next_app_event w rid now d = (Inr (Some p), d')"
    by (metis prod.collapse)
  from pr obtain q where q: "next_queued w d = Some q" and new: "rid \<notin> run_id ` set (runs d)"
    and w: "workflow_exists w d"
    and d': "d' = d\<lparr>runs := runs d @ [pending_run rid w ''app'' (Some (q_json q)) now],
       app_event_receipts := promoted_receipt q rid (app_event_receipts d),
       app_event_queue := filter (\<lambda>x. q_id x \<noteq> q_id q) (app_event_queue d)\<rparr>"
    by (rule promote_Some)
  have keys: "map rc_key (promoted_receipt q rid rs) = map rc_key rs"
    "map rc_trigger (promoted_receipt q rid rs) = map rc_trigger rs" for rs
    by (simp_all add: promoted_receipt_def)
  have "keys_ok d'"
    using inv new keys unfolding d' ev_inv_def fk_ok_def keys_ok_def
    by (simp add: pending_run_def distinct_map_filter_rows)
  moreover have "refs_ok d'"
    using inv w keys unfolding d' ev_inv_def fk_ok_def refs_ok_def
    by (simp add: pending_run_def)
  ultimately have "fk_ok d'" by (simp add: fk_ok_def)
  moreover have "queue_matches (app_event_receipts d') (app_event_queue d')"
    using inv next_queued_mem(1) [OF q] promoted_queue_matches
    unfolding d' ev_inv_def by (simp add: fk_okE_queue fk_okE_qids)
  moreover have "receipts_linked d'"
    using promoted_linked [OF _ new next_queued_mem(2) [OF q] refl] inv
    unfolding d' ev_inv_def receipts_linked_def by simp
  ultimately show ?thesis using pr by (simp add: ev_inv_def)
next
  case False
  then have "snd (promote_next_app_event w rid now d) = d"
    using promote_other [of w rid now d] by (metis prod.collapse)
  with inv show ?thesis by simp
qed

subsection \<open>Recovery and pruning\<close>

lemma ev_inv_update_runs:
  assumes "ev_inv d" and "\<And>r. run_id (f r) = run_id r" and "\<And>r. run_workflow (f r) = run_workflow r"
    and "\<And>r. run_trigger_kind (f r) = run_trigger_kind r"
  shows "ev_inv (d\<lparr>runs := update_where p f (runs d)\<rparr>)"
proof -
  let ?d = "d\<lparr>runs := update_where p f (runs d)\<rparr>"
  have "fk_ok ?d"
    using assms by (simp add: ev_inv_def schema_defs del: set_map)
  moreover have "app_run_of ?d t i" if "app_run_of d t i" for t i
  proof -
    from that obtain x y where x: "x \<in> set (runs d)" "run_id x = i" "run_trigger_kind x = ''app''"
      and y: "y \<in> set (triggers d)" "tr_id y = t" "tr_workflow y = run_workflow x"
      unfolding app_run_of_def by blast
    define x' where "x' = (if p x then f x else x)"
    have "x' \<in> set (runs ?d)" using x(1) by (simp add: update_where_def x'_def)
    moreover have "run_id x' = i" "run_trigger_kind x' = ''app''" "tr_workflow y = run_workflow x'"
      using x y assms(2-4) by (simp_all add: x'_def)
    moreover have "y \<in> set (triggers ?d)" using y(1) by simp
    ultimately show ?thesis using y(2) unfolding app_run_of_def by blast
  qed
  then have "runs_resolve ?d (app_event_receipts d)"
    using assms(1) by (intro runs_resolve_mono [of d ?d]) (simp_all add: ev_inv_def receipts_linked_def)
  then have "receipts_linked ?d"
    using assms(1) by (simp add: ev_inv_def receipts_linked_def)
  ultimately show ?thesis using assms(1) by (simp add: ev_inv_def)
qed

lemma fail_interrupted_app_event_runs_inv:
  "ev_inv d \<Longrightarrow> ev_inv (snd (fail_interrupted_app_event_runs now d))"
  unfolding fail_interrupted_app_event_runs_def snd_conv by (rule ev_inv_update_runs) simp_all

text \<open>Dropping receipts is safe when no queued event loses its receipt.\<close>

lemma ev_inv_drop_receipts:
  assumes "ev_inv d" and "\<And>r. r \<in> set (app_event_receipts d) \<Longrightarrow> rc_disposition r = Queued \<Longrightarrow> P r"
  shows "ev_inv (d\<lparr>app_event_receipts := filter P (app_event_receipts d)\<rparr>)"
proof -
  let ?d = "d\<lparr>app_event_receipts := filter P (app_event_receipts d)\<rparr>"
  have "fk_ok ?d"
    using assms(1) by (simp add: ev_inv_def schema_defs distinct_map_filter_rows)
  moreover have "{r \<in> set (filter P (app_event_receipts d)). rc_disposition r = Queued}
      = {r \<in> set (app_event_receipts d). rc_disposition r = Queued}"
    using assms(2) by auto
  then have "queue_matches (app_event_receipts ?d) (app_event_queue ?d)"
    using assms(1) unfolding ev_inv_def queue_matches_def by simp
  moreover have "receipts_linked ?d"
    using assms(1) linked_subset [of "filter P (app_event_receipts d)" "app_event_receipts d"]
    by (simp add: ev_inv_def receipts_linked_def)
  ultimately show ?thesis by (simp add: ev_inv_def)
qed

lemma prune_overflow_filter:
  "\<exists>P. prune_overflow cap d t rows = filter P rows
     \<and> (\<forall>r. rc_disposition r = Queued \<longrightarrow> P r) \<and> (\<forall>r. in_queue d r \<longrightarrow> P r)"
  unfolding prune_overflow_def
  by (rule exI [where x = "\<lambda>r. \<not> (rc_trigger r = t \<and> prunable d r
        \<and> rc_key r \<in> set (map rc_key (overflow_receipts cap t rows)))"])
     (auto simp: prunable_def)

lemma fold_prune_filter:
  "\<exists>P. fold (prune_overflow cap d) ts rows = filter P rows
     \<and> (\<forall>r. rc_disposition r = Queued \<longrightarrow> P r) \<and> (\<forall>r. in_queue d r \<longrightarrow> P r)"
proof (induction ts arbitrary: rows)
  case Nil
  show ?case by (rule exI [where x = "\<lambda>_. True"]) simp
next
  case (Cons t ts)
  obtain P where P: "prune_overflow cap d t rows = filter P rows"
    "\<forall>r. rc_disposition r = Queued \<longrightarrow> P r" "\<forall>r. in_queue d r \<longrightarrow> P r"
    using prune_overflow_filter by blast
  obtain Q where Q: "fold (prune_overflow cap d) ts (filter P rows) = filter Q (filter P rows)"
    "\<forall>r. rc_disposition r = Queued \<longrightarrow> Q r" "\<forall>r. in_queue d r \<longrightarrow> Q r"
    using Cons.IH by blast
  show ?case
    by (rule exI [where x = "\<lambda>r. Q r \<and> P r"]) (use P Q in \<open>simp add: conj_commute\<close>)
qed

lemma prune_app_event_receipts_filter:
  "\<exists>P. snd (prune_app_event_receipts cutoff d)
       = d\<lparr>app_event_receipts := filter P (app_event_receipts d)\<rparr>
     \<and> (\<forall>r. rc_disposition r = Queued \<longrightarrow> P r) \<and> (\<forall>r. in_queue d r \<longrightarrow> P r)"
proof -
  let ?E = "\<lambda>r. \<not> (rc_received r < cutoff \<and> prunable d r)"
  let ?rows1 = "prune_expired cutoff d (app_event_receipts d)"
  obtain Q where "fold (prune_overflow RECEIPT_CAP_PER_TRIGGER d)
        (over_cap_triggers RECEIPT_CAP_PER_TRIGGER ?rows1) ?rows1 = filter Q ?rows1"
    and Q: "\<forall>r. rc_disposition r = Queued \<longrightarrow> Q r" "\<forall>r. in_queue d r \<longrightarrow> Q r"
    using fold_prune_filter by blast
  then have "snd (prune_app_event_receipts cutoff d)
      = d\<lparr>app_event_receipts := filter (\<lambda>r. Q r \<and> ?E r) (app_event_receipts d)\<rparr>"
    by (simp add: prune_app_event_receipts_def prune_expired_def Let_def conj_commute)
  with Q show ?thesis by (intro exI [where x = "\<lambda>r. Q r \<and> ?E r"]) (simp add: prunable_def)
qed

lemma prune_app_event_receipts_inv:
  assumes "ev_inv d"
  shows "ev_inv (snd (prune_app_event_receipts cutoff d))"
proof -
  obtain P where "snd (prune_app_event_receipts cutoff d)
       = d\<lparr>app_event_receipts := filter P (app_event_receipts d)\<rparr>"
    and "\<forall>r. rc_disposition r = Queued \<longrightarrow> P r"
    using prune_app_event_receipts_filter by blast
  then show ?thesis using ev_inv_drop_receipts [OF assms] by simp
qed

section \<open>What recording an event does\<close>

definition receipt_keys :: "db \<Rightarrow> (rstring \<times> rstring) set" where
  "receipt_keys d = rc_key ` set (app_event_receipts d)"

lemma sum_pair_cases:
  obtains e where "x = Inl e" | y e where "x = Inr y" "f y = Inl e" | y z where "x = Inr y" "f y = Inr z"
proof (cases x)
  case (Inr y)
  then show thesis using that by (cases "f y") blast+
qed (use that in blast)

lemma record_app_event_cases [consumes 0, case_names duplicate backpressure dropped queued failed]:
  obtains
    "record_app_event t e payload replayable cap now qid d = (Inr ODuplicate, d)"
      "(t, e) \<in> receipt_keys d"
  | "record_app_event t e payload replayable cap now qid d = (Inr OBackpressure, d)"
      "replayable" "(t, e) \<notin> receipt_keys d" "max cap 1 \<le> pending_count t d"
  | S where "\<not> replayable" "(t, e) \<notin> receipt_keys d" "max cap 1 \<le> pending_count t d"
      "record_app_event t e payload replayable cap now qid d = (Inr ODroppedOverrun,
         d\<lparr>app_event_receipts := app_event_receipts d
              @ [mk_receipt t e now DroppedOverrunD (Some ''pending_cap'')],
            app_trigger_state := S\<rparr>)"
  | "(t, e) \<notin> receipt_keys d" "pending_count t d < max cap 1"
      "record_app_event t e payload replayable cap now qid d = (Inr OQueued,
         d\<lparr>app_event_receipts := app_event_receipts d @ [mk_receipt t e now Queued None],
            app_event_queue := app_event_queue d @
              [\<lparr>q_id = qid, q_trigger = t, q_event = e, q_json = payload, q_enqueued = now\<rparr>]\<rparr>)"
  | err where "record_app_event t e payload replayable cap now qid d = (Inl err, d)"
proof -
  let ?r = "record_app_event t e payload replayable cap now qid d"
  let ?c = "mk_receipt t e now DroppedOverrunD (Some ''pending_cap'')"
  let ?s = "mk_receipt t e now Queued None"
  let ?q = "\<lparr>q_id = qid, q_trigger = t, q_event = e, q_json = payload, q_enqueued = now\<rparr>"
  let ?up = "upsert_state ((new_state t now)\<lparr>ts_overrun := 1\<rparr>)
      (\<lambda>r. r\<lparr>ts_overrun := ts_overrun r + 1, ts_updated := now\<rparr>)"
  have keys: "(t, e) \<in> set (map rc_key (app_event_receipts d)) \<longleftrightarrow> (t, e) \<in> receipt_keys d"
    by (simp add: receipt_keys_def)
  note unf = record_app_event_def [of t e payload replayable cap now qid d, unfolded keys]
  consider (known) "(t, e) \<in> receipt_keys d"
    | (full) "(t, e) \<notin> receipt_keys d" "max cap 1 \<le> pending_count t d"
    | (room) "(t, e) \<notin> receipt_keys d" "\<not> max cap 1 \<le> pending_count t d" by blast
  then show thesis
  proof cases
    case known
    then have "?r = (Inr ODuplicate, d)" unfolding unf by (simp only: if_True)
    then show thesis using that(1) known by blast
  next
    case full
    then have r: "?r = (if replayable then (Inr OBackpressure, d)
        else case insert_receipt ?c d of Inl err \<Rightarrow> (Inl err, d)
        | Inr d1 \<Rightarrow> (case ?up d1 of Inl err \<Rightarrow> (Inl err, d) | Inr d2 \<Rightarrow> (Inr ODroppedOverrun, d2)))"
      unfolding unf by (simp only: if_True if_False)
    consider (re) replayable | (f1) err where "\<not> replayable" "insert_receipt ?c d = Inl err"
      | (f2) d1 err where "\<not> replayable" "insert_receipt ?c d = Inr d1" "?up d1 = Inl err"
      | (ok) d1 d2 where "\<not> replayable" "insert_receipt ?c d = Inr d1" "?up d1 = Inr d2"
      by (cases replayable, blast) (rule sum_pair_cases [where x = "insert_receipt ?c d" and f = ?up], blast+)
    then show thesis
    proof cases
      case re
      with r have "?r = (Inr OBackpressure, d)" by (simp only: if_True)
      then show thesis using that(2) full re by blast
    next
      case f1
      with r have "?r = (Inl err, d)" by (simp only: if_False sum.case)
      then show thesis using that(5) by blast
    next
      case f2
      with r have "?r = (Inl err, d)" by (simp only: if_False sum.case)
      then show thesis using that(5) by blast
    next
      case ok
      obtain S where d2: "d2 = d1\<lparr>app_trigger_state := S\<rparr>" using upsert_state_frame [OF ok(3)] ..
      from ok(2) have "d1 = d\<lparr>app_event_receipts := app_event_receipts d @ [?c]\<rparr>"
        by (simp add: insert_receipt_Inr)
      with ok r d2 have "?r = (Inr ODroppedOverrun,
          d\<lparr>app_event_receipts := app_event_receipts d @ [?c], app_trigger_state := S\<rparr>)"
        by (simp only: if_False sum.case)
      then show thesis using that(3) full ok(1) by blast
    qed
  next
    case room
    then have r: "?r = (case insert_receipt ?s d of Inl err \<Rightarrow> (Inl err, d)
        | Inr d1 \<Rightarrow> (case insert_queue ?q d1 of Inl err \<Rightarrow> (Inl err, d) | Inr d2 \<Rightarrow> (Inr OQueued, d2)))"
      unfolding unf by (simp only: if_False)
    consider (f1) err where "insert_receipt ?s d = Inl err"
      | (f2) d1 err where "insert_receipt ?s d = Inr d1" "insert_queue ?q d1 = Inl err"
      | (ok) d1 d2 where "insert_receipt ?s d = Inr d1" "insert_queue ?q d1 = Inr d2"
      by (rule sum_pair_cases [where x = "insert_receipt ?s d" and f = "insert_queue ?q"], blast+)
    then show thesis
    proof cases
      case f1
      with r have "?r = (Inl err, d)" by (simp only: sum.case)
      then show thesis using that(5) by blast
    next
      case f2
      with r have "?r = (Inl err, d)" by (simp only: sum.case)
      then show thesis using that(5) by blast
    next
      case ok
      then have "d2 = d\<lparr>app_event_receipts := app_event_receipts d @ [?s],
          app_event_queue := app_event_queue d @ [?q]\<rparr>"
        by (simp add: insert_receipt_Inr insert_queue_Inr)
      with ok r have "?r = (Inr OQueued, d\<lparr>app_event_receipts := app_event_receipts d @ [?s],
          app_event_queue := app_event_queue d @ [?q]\<rparr>)" by (simp only: sum.case)
      then show thesis using that(4) room by (meson not_le)
    qed
  qed
qed

end
