(* ===== verification/Workflow_Store.thy ===== *)
theory Workflow_Store
  imports App_Events "HOL-Library.Option_ord"
begin

text \<open>
  The tables a workflow owns: \<^verbatim>\<open>db/workflows.rs\<close>, \<^verbatim>\<open>db/schedules.rs\<close> and \<^verbatim>\<open>db/triggers.rs\<close>, with the
  cascades the schema declares. Every operation keeps the delivery invariant \<open>ev_inv\<close> of
  \<^verbatim>\<open>App_Events\<close>. The memory tables that \<^verbatim>\<open>delete_workflow\<close> also cleans are not part of \<open>db\<close>.
\<close>

definition serde_failed :: rstring where "serde_failed = ''serde_json error''"

text \<open>A stable descending sort, \<open>ORDER BY k DESC\<close>.\<close>

definition sort_desc :: "('a \<Rightarrow> 'k::linorder) \<Rightarrow> 'a list \<Rightarrow> 'a list" where
  "sort_desc k xs = rev (sort_key k (rev xs))"

section \<open>Workflows\<close>

record Workflow =
  w_id :: rstring
  w_name :: rstring
  w_description :: rstring
  w_working_directory :: rstring
  w_folder_id :: "rstring option"
  w_memory_retrieval_enabled :: bool
  w_graph :: json
  w_created_at :: rstring
  w_updated_at :: rstring

record CreateWorkflowInput =
  cw_name :: rstring
  cw_description :: rstring
  cw_working_directory :: rstring
  cw_folder_id :: "rstring option"
  cw_graph :: json

record UpdateWorkflowInput =
  uw_id :: rstring
  uw_name :: "rstring option"
  uw_description :: "rstring option"
  uw_working_directory :: "rstring option"
  uw_memory_retrieval_enabled :: "bool option"
  uw_graph :: "json option"

definition empty_graph :: json where
  "empty_graph = JObject [(''nodes'', JArray []), (''edges'', JArray [])]"

definition row_to_workflow :: "serde \<Rightarrow> workflow_row \<Rightarrow> Workflow" where
  "row_to_workflow J r = \<lparr>w_id = wf_id r, w_name = wf_name r, w_description = wf_description r,
     w_working_directory = wf_working_directory r, w_folder_id = wf_folder r,
     w_memory_retrieval_enabled = wf_retrieval r,
     w_graph = unwrap_or empty_graph (from_text J (wf_graph_json r)),
     w_created_at = wf_created r, w_updated_at = wf_updated r\<rparr>"

definition list_workflows :: "serde \<Rightarrow> db \<Rightarrow> Workflow list" where
  "list_workflows J d =
     map (row_to_workflow J) (sort_key wf_sort_order (sort_desc wf_updated (workflows d)))"

definition get_workflow :: "serde \<Rightarrow> rstring \<Rightarrow> db \<Rightarrow> Workflow option" where
  "get_workflow J i d = map_option (row_to_workflow J) (find (\<lambda>r. wf_id r = i) (workflows d))"

definition next_sort_order :: "db \<Rightarrow> int" where
  "next_sort_order d = (case workflows d of [] \<Rightarrow> 0
     | ws \<Rightarrow> Min (set (map wf_sort_order ws))) - 1"

definition missing_folder :: "CreateWorkflowInput \<Rightarrow> db \<Rightarrow> rstring option" where
  "missing_folder inp d = (case cw_folder_id inp of None \<Rightarrow> None
     | Some f \<Rightarrow> if f \<in> set (folders d) then None else Some f)"

definition create_workflow ::
  "serde \<Rightarrow> CreateWorkflowInput \<Rightarrow> rstring \<Rightarrow> rstring \<Rightarrow> db \<Rightarrow> Workflow dbres" where
  "create_workflow J inp i now d =
     (case to_text J (cw_graph inp) of
        None \<Rightarrow> (Inl (Other serde_failed), d)
      | Some g \<Rightarrow>
        (case missing_folder inp d of
           Some f \<Rightarrow> (Inl (Other (''folder not found: '' @ f)), d)
         | None \<Rightarrow>
           if i \<in> set (map wf_id (workflows d)) then (Inl unique_failed, d)
           else let d' = d\<lparr>workflows := workflows d @
                  [\<lparr>wf_id = i, wf_name = cw_name inp, wf_description = cw_description inp,
                    wf_working_directory = cw_working_directory inp, wf_folder = cw_folder_id inp,
                    wf_sort_order = next_sort_order d, wf_retrieval = True, wf_graph_json = g,
                    wf_created = now, wf_updated = now\<rparr>]\<rparr>
                in case get_workflow J i d' of
                     None \<Rightarrow> (Inl (Other ''failed to load created workflow''), d')
                   | Some w \<Rightarrow> (Inr w, d')))"

definition reorder_workflows :: "rstring list \<Rightarrow> db \<Rightarrow> db" where
  "reorder_workflows ids d = fold (\<lambda>(n, i) d. d\<lparr>workflows :=
       update_where (\<lambda>r. wf_id r = i) (\<lambda>r. r\<lparr>wf_sort_order := int n\<rparr>) (workflows d)\<rparr>)
     (enumerate 0 ids) d"

definition update_workflow ::
  "serde \<Rightarrow> UpdateWorkflowInput \<Rightarrow> rstring \<Rightarrow> db \<Rightarrow> Workflow dbres" where
  "update_workflow J inp now d =
     (case get_workflow J (uw_id inp) d of
        None \<Rightarrow> (Inl (Other (''workflow not found: '' @ uw_id inp)), d)
      | Some ex \<Rightarrow>
        (case to_text J (unwrap_or (w_graph ex) (uw_graph inp)) of
           None \<Rightarrow> (Inl (Other serde_failed), d)
         | Some g \<Rightarrow>
           let d' = d\<lparr>workflows := update_where (\<lambda>r. wf_id r = uw_id inp)
                 (\<lambda>r. r\<lparr>wf_name := unwrap_or (w_name ex) (uw_name inp),
                    wf_description := unwrap_or (w_description ex) (uw_description inp),
                    wf_working_directory :=
                      unwrap_or (w_working_directory ex) (uw_working_directory inp),
                    wf_retrieval :=
                      unwrap_or (w_memory_retrieval_enabled ex) (uw_memory_retrieval_enabled inp),
                    wf_graph_json := g, wf_updated := now\<rparr>) (workflows d)\<rparr>
           in case get_workflow J (uw_id inp) d' of
                None \<Rightarrow> (Inl (Other ''failed to load updated workflow''), d')
              | Some w \<Rightarrow> (Inr w, d')))"

section \<open>Cascades\<close>

text \<open>\<open>keep_triggers P\<close> removes the triggers outside \<open>P\<close> with their dependent rows, as
  \<^verbatim>\<open>ON DELETE CASCADE\<close> does.\<close>

definition keep_triggers :: "(rstring \<Rightarrow> bool) \<Rightarrow> db \<Rightarrow> db" where
  "keep_triggers P d = d\<lparr>triggers := filter (\<lambda>t. P (tr_id t)) (triggers d),
     app_trigger_state := filter (\<lambda>s. P (ts_trigger s)) (app_trigger_state d),
     app_event_receipts := filter (\<lambda>r. P (rc_trigger r)) (app_event_receipts d),
     app_event_queue := filter (\<lambda>q. P (q_trigger q)) (app_event_queue d)\<rparr>"

definition trigger_ids_of :: "rstring \<Rightarrow> db \<Rightarrow> rstring list" where
  "trigger_ids_of w d = map tr_id (filter (\<lambda>t. tr_workflow t = w) (triggers d))"

definition run_ids_of :: "rstring \<Rightarrow> db \<Rightarrow> rstring list" where
  "run_ids_of w d = map run_id (filter (\<lambda>r. run_workflow r = w) (runs d))"

definition remove_workflow :: "rstring \<Rightarrow> db \<Rightarrow> db" where
  "remove_workflow w d =
     (keep_triggers (\<lambda>t. t \<notin> set (trigger_ids_of w d)) d)\<lparr>
        run_step_fts := filter (\<lambda>f. fts_workflow f \<noteq> w) (run_step_fts d),
        schedules := filter (\<lambda>s. sc_workflow s \<noteq> w) (schedules d),
        run_steps := filter (\<lambda>s. step_run s \<notin> set (run_ids_of w d)) (run_steps d),
        runs := filter (\<lambda>r. run_workflow r \<noteq> w) (runs d),
        workflows := filter (\<lambda>r. wf_id r \<noteq> w) (workflows d)\<rparr>"

definition delete_workflow :: "rstring \<Rightarrow> db \<Rightarrow> unit dbres" where
  "delete_workflow w d =
     (if workflow_exists w d then (Inr (), remove_workflow w d)
      else (Inl (Other (''workflow not found: '' @ w)), remove_workflow w d))"

section \<open>Schedules\<close>

definition get_schedule_for_workflow :: "rstring \<Rightarrow> db \<Rightarrow> schedule_row option" where
  "get_schedule_for_workflow w d = find (\<lambda>s. sc_workflow s = w) (schedules d)"

definition list_enabled_schedules :: "db \<Rightarrow> schedule_row list" where
  "list_enabled_schedules d = sort_key sc_next_run (filter sc_enabled (schedules d))"

record ScheduleListItem =
  si_schedule :: schedule_row
  si_workflow_name :: rstring

definition list_all_schedules :: "db \<Rightarrow> ScheduleListItem list" where
  "list_all_schedules d =
     sort_key (\<lambda>i. (\<not> sc_enabled (si_schedule i), sc_next_run (si_schedule i) = None,
                    sc_next_run (si_schedule i), si_workflow_name i))
       [\<lparr>si_schedule = s, si_workflow_name = wf_name w\<rparr>.
          s \<leftarrow> schedules d, w \<leftarrow> workflows d, wf_id w = sc_workflow s]"

definition upsert_schedule_row ::
  "serde \<Rightarrow> rstring \<Rightarrow> rstring \<Rightarrow> bool \<Rightarrow> rstring option \<Rightarrow> rstring \<Rightarrow> rstring \<Rightarrow> db
    \<Rightarrow> schedule_row dbres" where
  "upsert_schedule_row J w cron enabled next i now d =
     (case get_workflow J w d of
        None \<Rightarrow> (Inl (Other (''workflow not found: '' @ w)), d)
      | Some _ \<Rightarrow>
        (case get_schedule_for_workflow w d of
           Some ex \<Rightarrow>
             (let d' = d\<lparr>schedules := update_where (\<lambda>s. sc_id s = sc_id ex)
                    (\<lambda>s. s\<lparr>sc_cron := cron, sc_enabled := enabled, sc_next_run := next,
                           sc_updated := now\<rparr>) (schedules d)\<rparr>
              in case get_schedule_for_workflow w d' of
                   None \<Rightarrow> (Inl (Other ''failed to load updated schedule''), d')
                 | Some s \<Rightarrow> (Inr s, d'))
         | None \<Rightarrow>
             if i \<in> set (map sc_id (schedules d)) then (Inl unique_failed, d)
             else (let d' = d\<lparr>schedules := schedules d @
                      [\<lparr>sc_id = i, sc_workflow = w, sc_cron = cron, sc_enabled = enabled,
                        sc_next_run = next, sc_created = now, sc_updated = now\<rparr>]\<rparr>
                   in case get_schedule_for_workflow w d' of
                        None \<Rightarrow> (Inl (Other ''failed to load created schedule''), d')
                      | Some s \<Rightarrow> (Inr s, d'))))"

definition set_schedule_next_run :: "rstring \<Rightarrow> rstring option \<Rightarrow> rstring \<Rightarrow> db \<Rightarrow> db" where
  "set_schedule_next_run i next now d = d\<lparr>schedules :=
     update_where (\<lambda>s. sc_id s = i) (\<lambda>s. s\<lparr>sc_next_run := next, sc_updated := now\<rparr>) (schedules d)\<rparr>"

definition delete_schedule_for_workflow :: "rstring \<Rightarrow> db \<Rightarrow> db" where
  "delete_schedule_for_workflow w d = d\<lparr>schedules := filter (\<lambda>s. sc_workflow s \<noteq> w) (schedules d)\<rparr>"

section \<open>Triggers\<close>

record Trigger =
  t_id :: rstring
  t_workflow_id :: rstring
  t_source :: rstring
  t_label :: rstring
  t_config :: json
  t_secret :: "rstring option"
  t_enabled :: bool
  t_last_fired_at :: "rstring option"
  t_created_at :: rstring
  t_updated_at :: rstring

record UpsertTriggerInput =
  ut_id :: "rstring option"
  ut_workflow_id :: rstring
  ut_source :: rstring
  ut_label :: rstring
  ut_config :: json
  ut_enabled :: bool

definition map_trigger :: "serde \<Rightarrow> trigger_row \<Rightarrow> Trigger" where
  "map_trigger J r = \<lparr>t_id = tr_id r, t_workflow_id = tr_workflow r, t_source = tr_source r,
     t_label = tr_label r, t_config = unwrap_or JNull (from_text J (tr_config_json r)),
     t_secret = tr_secret r, t_enabled = tr_enabled r, t_last_fired_at = tr_last_fired r,
     t_created_at = tr_created r, t_updated_at = tr_updated r\<rparr>"

definition list_all_triggers :: "serde \<Rightarrow> db \<Rightarrow> Trigger list" where
  "list_all_triggers J d = map (map_trigger J) (sort_key tr_created (triggers d))"

definition list_triggers :: "serde \<Rightarrow> rstring \<Rightarrow> db \<Rightarrow> Trigger list" where
  "list_triggers J w d =
     map (map_trigger J) (sort_key tr_created (filter (\<lambda>t. tr_workflow t = w) (triggers d)))"

definition list_enabled_triggers :: "serde \<Rightarrow> rstring option \<Rightarrow> db \<Rightarrow> Trigger list" where
  "list_enabled_triggers J source d = map (map_trigger J) (sort_key tr_created
     (filter (\<lambda>t. tr_enabled t \<and> (source = None \<or> source = Some (tr_source t))) (triggers d)))"

definition get_trigger :: "serde \<Rightarrow> rstring \<Rightarrow> db \<Rightarrow> Trigger option" where
  "get_trigger J i d = map_option (map_trigger J) (find (\<lambda>t. tr_id t = i) (triggers d))"

text \<open>The two identifiers drawn are the row id and the webhook secret, whose dashes are
  removed.\<close>

definition upsert_trigger ::
  "serde \<Rightarrow> UpsertTriggerInput \<Rightarrow> rstring \<Rightarrow> rstring \<Rightarrow> rstring \<Rightarrow> db \<Rightarrow> Trigger dbres" where
  "upsert_trigger J inp fresh_id fresh_secret now d =
     (case get_workflow J (ut_workflow_id inp) d of
        None \<Rightarrow> (Inl (Other (''workflow not found: '' @ ut_workflow_id inp)), d)
      | Some _ \<Rightarrow>
        (case to_text J (ut_config inp) of
           None \<Rightarrow> (Inl (Other (''invalid trigger config: '' @ serde_failed)), d)
         | Some cfg \<Rightarrow>
           (let existing = Option.bind (ut_id inp) (\<lambda>i. get_trigger J i d);
                i = (case existing of Some ex \<Rightarrow> t_id ex
                     | None \<Rightarrow> unwrap_or fresh_id (ut_id inp));
                d' = (case existing of
                    Some ex \<Rightarrow> d\<lparr>triggers := update_where (\<lambda>t. tr_id t = t_id ex)
                       (\<lambda>t. t\<lparr>tr_source := ut_source inp, tr_label := ut_label inp,
                              tr_config_json := cfg, tr_enabled := ut_enabled inp,
                              tr_updated := now\<rparr>) (triggers d)\<rparr>
                  | None \<Rightarrow> d\<lparr>triggers := triggers d @
                       [\<lparr>tr_id = i, tr_workflow = ut_workflow_id inp, tr_source = ut_source inp,
                         tr_label = ut_label inp, tr_config_json = cfg,
                         tr_secret = (if ut_source inp = ''webhook''
                                      then Some (filter (\<lambda>c. c \<noteq> CHR ''-'') fresh_secret) else None),
                         tr_enabled = ut_enabled inp, tr_last_fired = None,
                         tr_created = now, tr_updated = now\<rparr>]\<rparr>)
            in if existing = None \<and> i \<in> set (map tr_id (triggers d)) then (Inl unique_failed, d)
               else case get_trigger J i d' of
                      None \<Rightarrow> (Inl (Other ''failed to load saved trigger''), d')
                    | Some t \<Rightarrow> (Inr t, d'))))"

definition delete_trigger :: "rstring \<Rightarrow> db \<Rightarrow> db" where
  "delete_trigger i d = keep_triggers (\<lambda>t. t \<noteq> i) d"

definition mark_trigger_fired :: "rstring \<Rightarrow> rstring \<Rightarrow> db \<Rightarrow> db" where
  "mark_trigger_fired i now d = d\<lparr>triggers := update_where (\<lambda>t. tr_id t = i)
     (\<lambda>t. t\<lparr>tr_last_fired := Some now, tr_updated := now\<rparr>) (triggers d)\<rparr>"

section \<open>Every operation keeps the delivery invariant\<close>

lemmas ev_inv_parts = ev_inv_def receipts_linked_def

lemma app_run_of_wf_cong [simp]:
  "app_run_of (d\<lparr>workflows := a\<rparr>) t i = app_run_of d t i"
  "app_run_of (d\<lparr>schedules := b\<rparr>) t i = app_run_of d t i"
  "app_run_of (d\<lparr>run_steps := c\<rparr>) t i = app_run_of d t i"
  by (simp_all add: app_run_of_def)

lemma runs_resolve_wf_cong [simp]:
  "runs_resolve (d\<lparr>workflows := a\<rparr>) rs = runs_resolve d rs"
  "runs_resolve (d\<lparr>schedules := b\<rparr>) rs = runs_resolve d rs"
  "runs_resolve (d\<lparr>run_steps := c\<rparr>) rs = runs_resolve d rs"
  by (simp_all add: runs_resolve_def cong: option.case_cong)

lemma workflow_exists_iff: "workflow_exists w (d\<lparr>workflows := ws\<rparr>) \<longleftrightarrow> w \<in> wf_id ` set ws"
  by (simp add: workflow_exists_def)

lemma ev_inv_workflows:
  assumes "ev_inv d" and "distinct (map wf_id ws)" and "wf_id ` set (workflows d) \<subseteq> wf_id ` set ws"
  shows "ev_inv (d\<lparr>workflows := ws\<rparr>)"
proof -
  have "workflow_exists w d \<Longrightarrow> workflow_exists w (d\<lparr>workflows := ws\<rparr>)" for w
    using assms(3) by (auto simp: workflow_exists_def)
  then have "fk_ok (d\<lparr>workflows := ws\<rparr>)"
    using assms(1,2) by (simp add: ev_inv_def schema_defs)
  then show ?thesis using assms(1) by (simp add: ev_inv_parts)
qed

lemma ev_inv_schedules:
  assumes "ev_inv d" and "distinct (map sc_workflow ss)" and "distinct (map sc_id ss)"
    and "\<forall>w \<in> set (map sc_workflow ss). workflow_exists w d"
  shows "ev_inv (d\<lparr>schedules := ss\<rparr>)"
  using assms by (simp add: ev_inv_parts schema_defs)

lemma get_workflow_exists: "get_workflow J w d = Some x \<Longrightarrow> workflow_exists w d"
  by (auto simp: get_workflow_def workflow_exists_def find_Some_iff)

lemma create_workflow_inv: "ev_inv d \<Longrightarrow> ev_inv (snd (create_workflow J inp i now d))"
proof -
  assume inv: "ev_inv d"
  have "ev_inv (d\<lparr>workflows := workflows d @ [r]\<rparr>)" if "wf_id r \<notin> wf_id ` set (workflows d)" for r
    using inv that by (intro ev_inv_workflows) (auto simp: ev_inv_def schema_defs)
  with inv show ?thesis
    by (auto simp: create_workflow_def Let_def split: option.splits)
qed

lemma ev_inv_update_workflows:
  assumes "ev_inv d" and "\<And>r. wf_id (f r) = wf_id r"
  shows "ev_inv (d\<lparr>workflows := update_where p f (workflows d)\<rparr>)"
proof (rule ev_inv_workflows [OF assms(1)])
  have "map wf_id (update_where p f (workflows d)) = map wf_id (workflows d)"
    using assms(2) by simp
  then show "distinct (map wf_id (update_where p f (workflows d)))"
    and "wf_id ` set (workflows d) \<subseteq> wf_id ` set (update_where p f (workflows d))"
    using assms(1) by (simp add: ev_inv_def schema_defs, metis order_refl set_map)
qed

lemma update_workflow_inv: "ev_inv d \<Longrightarrow> ev_inv (snd (update_workflow J inp now d))"
  by (auto simp: update_workflow_def Let_def intro!: ev_inv_update_workflows split: option.splits)

lemma reorder_workflows_inv: "ev_inv d \<Longrightarrow> ev_inv (reorder_workflows ids d)"
proof -
  have "ev_inv d \<Longrightarrow> ev_inv (fold (\<lambda>(n, i) d. d\<lparr>workflows :=
       update_where (\<lambda>r. wf_id r = i) (\<lambda>r. r\<lparr>wf_sort_order := int n\<rparr>) (workflows d)\<rparr>) xs d)" for xs
  proof (induction xs arbitrary: d)
    case (Cons x xs)
    then show ?case by (cases x) (simp add: ev_inv_update_workflows)
  qed simp
  then show "ev_inv d \<Longrightarrow> ?thesis" by (simp add: reorder_workflows_def)
qed

lemma upsert_schedule_row_inv:
  assumes inv: "ev_inv d"
  shows "ev_inv (snd (upsert_schedule_row J w cron enabled next i now d))"
proof -
  have upd: "ev_inv (d\<lparr>schedules := update_where p f (schedules d)\<rparr>)"
    if "\<And>s. sc_workflow (f s) = sc_workflow s" "\<And>s. sc_id (f s) = sc_id s" for p f
    using inv that by (intro ev_inv_schedules) (simp_all add: ev_inv_def schema_defs del: set_map)
  have new: "ev_inv (d\<lparr>schedules := schedules d @ [s]\<rparr>)"
    if "find (\<lambda>s. sc_workflow s = w) (schedules d) = None" "sc_workflow s = w"
      "sc_id s \<notin> sc_id ` set (schedules d)" "workflow_exists w d" for s
    using inv that by (intro ev_inv_schedules) (auto simp: ev_inv_def schema_defs find_None_iff)
  show ?thesis
    using inv by (auto simp: upsert_schedule_row_def Let_def get_schedule_for_workflow_def
        intro!: upd new dest: get_workflow_exists split: option.splits)
qed

lemma set_schedule_next_run_inv: "ev_inv d \<Longrightarrow> ev_inv (set_schedule_next_run i next now d)"
  unfolding set_schedule_next_run_def
  by (rule ev_inv_schedules) (simp_all add: ev_inv_def schema_defs del: set_map)

lemma delete_schedule_for_workflow_inv: "ev_inv d \<Longrightarrow> ev_inv (delete_schedule_for_workflow w d)"
  unfolding delete_schedule_for_workflow_def
  by (rule ev_inv_schedules) (simp_all add: ev_inv_def schema_defs distinct_map_filter_rows)

subsection \<open>Triggers\<close>

lemma app_run_of_triggers:
  assumes "app_run_of d t i"
    and "\<And>y. y \<in> set (triggers d) \<Longrightarrow> tr_id y = t
           \<Longrightarrow> \<exists>z \<in> set ts. tr_id z = t \<and> tr_workflow z = tr_workflow y"
  shows "app_run_of (d\<lparr>triggers := ts\<rparr>) t i"
proof -
  obtain x y where x: "x \<in> set (runs d)" "run_id x = i" "run_trigger_kind x = ''app''"
    and y: "y \<in> set (triggers d)" "tr_id y = t" "tr_workflow y = run_workflow x"
    using assms(1) unfolding app_run_of_def by blast
  obtain z where "z \<in> set ts" "tr_id z = t" "tr_workflow z = run_workflow x"
    using assms(2) [OF y(1,2)] y(3) by auto
  moreover have "x \<in> set (runs (d\<lparr>triggers := ts\<rparr>))" using x(1) by simp
  ultimately show ?thesis using x(2,3) unfolding app_run_of_def by auto
qed

lemma ev_inv_triggers:
  assumes inv: "ev_inv d" and "distinct (map tr_id ts)"
    and wf: "\<forall>w \<in> set (map tr_workflow ts). workflow_exists w d"
    and kept: "\<And>y. y \<in> set (triggers d) \<Longrightarrow>
       \<exists>z \<in> set ts. tr_id z = tr_id y \<and> tr_workflow z = tr_workflow y"
  shows "ev_inv (d\<lparr>triggers := ts\<rparr>)"
proof -
  let ?d = "d\<lparr>triggers := ts\<rparr>"
  have ex: "trigger_exists t ?d" if "trigger_exists t d" for t
  proof -
    from that obtain y where "y \<in> set (triggers d)" "tr_id y = t"
      by (auto simp: trigger_exists_def)
    with kept [of y] obtain z where "z \<in> set ts" "tr_id z = t" by auto
    then show ?thesis by (auto simp: trigger_exists_def)
  qed
  have "fk_ok ?d" using inv assms(2) wf ex by (simp add: ev_inv_def schema_defs)
  moreover have "runs_resolve ?d (app_event_receipts d)"
  proof (rule runs_resolve_mono [of d])
    show "app_run_of d t i \<Longrightarrow> app_run_of ?d t i" for t i
      by (rule app_run_of_triggers) (use kept in auto)
    show "runs_resolve d (app_event_receipts d)" using inv by (simp add: ev_inv_parts)
  qed
  ultimately show ?thesis using inv by (simp add: ev_inv_parts)
qed

lemma ev_inv_update_triggers:
  assumes "ev_inv d" and f: "\<And>r. tr_id (f r) = tr_id r" "\<And>r. tr_workflow (f r) = tr_workflow r"
  shows "ev_inv (d\<lparr>triggers := update_where p f (triggers d)\<rparr>)"
proof (rule ev_inv_triggers [OF assms(1)])
  show "distinct (map tr_id (update_where p f (triggers d)))"
    and "\<forall>w \<in> set (map tr_workflow (update_where p f (triggers d))). workflow_exists w d"
    using assms by (simp_all add: ev_inv_def schema_defs del: set_map)
  fix y assume "y \<in> set (triggers d)"
  then have "(if p y then f y else y) \<in> set (update_where p f (triggers d))"
    by (simp add: update_where_def)
  moreover have "tr_id (if p y then f y else y) = tr_id y"
    and "tr_workflow (if p y then f y else y) = tr_workflow y" using f by simp_all
  ultimately show "\<exists>z \<in> set (update_where p f (triggers d)).
      tr_id z = tr_id y \<and> tr_workflow z = tr_workflow y" by blast
qed

lemma mark_trigger_fired_inv: "ev_inv d \<Longrightarrow> ev_inv (mark_trigger_fired i now d)"
  unfolding mark_trigger_fired_def by (rule ev_inv_update_triggers) simp_all

lemma upsert_trigger_inv:
  assumes inv: "ev_inv d"
  shows "ev_inv (snd (upsert_trigger J inp fid fsec now d))"
proof -
  have new: "ev_inv (d\<lparr>triggers := triggers d @ [t]\<rparr>)"
    if "tr_id t \<notin> tr_id ` set (triggers d)" "workflow_exists (tr_workflow t) d" for t
    using inv that by (intro ev_inv_triggers) (auto simp: ev_inv_def schema_defs)
  show ?thesis
    using inv by (auto simp: upsert_trigger_def Let_def intro!: ev_inv_update_triggers new
        dest: get_workflow_exists split: option.splits)
qed

lemma keep_triggers_inv:
  assumes inv: "ev_inv d"
  shows "ev_inv (keep_triggers P d)"
proof -
  let ?d = "keep_triggers P d"
  have ex: "trigger_exists t ?d \<longleftrightarrow> trigger_exists t d \<and> P t" for t
    by (auto simp: trigger_exists_def keep_triggers_def)
  have wex: "workflow_exists w ?d = workflow_exists w d" for w
    by (simp add: workflow_exists_def keep_triggers_def)
  have "keys_ok ?d" using inv
    by (simp add: ev_inv_def schema_defs keep_triggers_def distinct_map_filter_rows)
  moreover have "refs_ok ?d" using inv
    unfolding ev_inv_def fk_ok_def refs_ok_def wex ex
    by (simp add: keep_triggers_def)
  moreover have "queue_matches (app_event_receipts ?d) (app_event_queue ?d)"
  proof -
    have "q_key ` set (app_event_queue ?d) = q_key ` set (app_event_queue d) \<inter> {k. P (fst k)}"
      by (auto simp: keep_triggers_def)
    moreover have "rc_key ` {r \<in> set (app_event_receipts ?d). rc_disposition r = Queued}
        = rc_key ` {r \<in> set (app_event_receipts d). rc_disposition r = Queued} \<inter> {k. P (fst k)}"
      by (auto simp: keep_triggers_def)
    ultimately show ?thesis using inv by (simp add: ev_inv_def queue_matches_def)
  qed
  moreover have "runs_resolve ?d (app_event_receipts ?d)"
    unfolding runs_resolve_def
  proof
    fix r assume "r \<in> set (app_event_receipts ?d)"
    then have r: "r \<in> set (app_event_receipts d)" "P (rc_trigger r)"
      by (simp_all add: keep_triggers_def)
    show "case rc_run r of None \<Rightarrow> True | Some i \<Rightarrow> app_run_of ?d (rc_trigger r) i"
    proof (cases "rc_run r")
      case (Some i)
      with inv r(1) have "app_run_of d (rc_trigger r) i"
        by (auto simp: ev_inv_parts runs_resolve_def dest!: bspec)
      then have "app_run_of (d\<lparr>triggers := filter (\<lambda>t. P (tr_id t)) (triggers d)\<rparr>) (rc_trigger r) i"
        by (rule app_run_of_triggers) (use r(2) in auto)
      with Some show ?thesis by (simp add: keep_triggers_def)
    qed simp
  qed
  moreover have "run_iff_enqueued (app_event_receipts ?d)" "runs_unshared (app_event_receipts ?d)"
    using inv linked_subset [of "app_event_receipts ?d" "app_event_receipts d"]
    by (auto simp: ev_inv_parts keep_triggers_def)
  ultimately show ?thesis by (simp add: ev_inv_parts fk_ok_def)
qed

lemma delete_trigger_inv: "ev_inv d \<Longrightarrow> ev_inv (delete_trigger i d)"
  unfolding delete_trigger_def by (rule keep_triggers_inv)

text \<open>Removing a workflow: its triggers go first, then the rows that refer to it. No receipt that
  stays refers to a removed run, because a receipt's run belongs to its trigger's workflow.\<close>

lemma remove_workflow_inv:
  assumes inv: "ev_inv d"
  shows "ev_inv (remove_workflow w d)"
proof -
  let ?k = "keep_triggers (\<lambda>t. t \<notin> set (trigger_ids_of w d)) d"
  let ?d = "remove_workflow w d"
  have k: "ev_inv ?k" using inv by (rule keep_triggers_inv)
  have other: "tr_workflow y \<noteq> w" if "y \<in> set (triggers ?k)" for y
    using that by (auto simp: keep_triggers_def trigger_ids_of_def)
  have frame: "runs ?k = runs d" "schedules ?k = schedules d" "run_steps ?k = run_steps d"
    "workflows ?k = workflows d" by (simp_all add: keep_triggers_def)
  have d: "?d = ?k\<lparr>run_step_fts := filter (\<lambda>f. fts_workflow f \<noteq> w) (run_step_fts d),
        schedules := filter (\<lambda>s. sc_workflow s \<noteq> w) (schedules ?k),
        run_steps := filter (\<lambda>s. step_run s \<notin> set (run_ids_of w d)) (run_steps ?k),
        runs := filter (\<lambda>r. run_workflow r \<noteq> w) (runs ?k),
        workflows := filter (\<lambda>r. wf_id r \<noteq> w) (workflows ?k)\<rparr>"
    unfolding remove_workflow_def frame ..
  have ex: "workflow_exists v ?d \<longleftrightarrow> workflow_exists v ?k \<and> v \<noteq> w" for v
    unfolding d by (auto simp: workflow_exists_def)
  have tex: "trigger_exists t ?d = trigger_exists t ?k" for t
    unfolding d by (simp add: trigger_exists_def)
  have "keys_ok ?d" using k unfolding d
    by (simp add: ev_inv_def schema_defs distinct_map_filter_rows)
  moreover have "refs_ok ?d"
  proof -
    have "\<forall>i \<in> set (map step_run (run_steps ?d)). i \<in> set (map run_id (runs ?d))"
    proof
      fix i assume "i \<in> set (map step_run (run_steps ?d))"
      then obtain s where "s \<in> set (run_steps ?k)" "step_run s = i" "i \<notin> set (run_ids_of w d)"
        by (auto simp: d)
      moreover from this k have "i \<in> run_id ` set (runs d)"
        by (auto simp: ev_inv_def schema_defs frame)
      ultimately show "i \<in> set (map run_id (runs ?d))"
        by (auto simp: d frame run_ids_of_def)
    qed
    then show ?thesis
      using k other unfolding ev_inv_def fk_ok_def refs_ok_def ex tex by (simp add: d)
  qed
  moreover have "runs_resolve ?d (app_event_receipts ?k)"
  proof (rule runs_resolve_mono [of ?k])
    fix t i assume "app_run_of ?k t i"
    then obtain x y where "x \<in> set (runs ?k)" "run_id x = i" "run_trigger_kind x = ''app''"
      "y \<in> set (triggers ?k)" "tr_id y = t" "tr_workflow y = run_workflow x"
      unfolding app_run_of_def by blast
    moreover from this have "x \<in> set (runs ?d)" "y \<in> set (triggers ?d)"
      using other [of y] by (simp_all add: d)
    ultimately show "app_run_of ?d t i" unfolding app_run_of_def by blast
  next
    show "runs_resolve ?k (app_event_receipts ?k)" using k by (simp add: ev_inv_parts)
  qed
  ultimately show ?thesis using k by (simp add: ev_inv_parts fk_ok_def d)
qed

lemma delete_workflow_inv: "ev_inv d \<Longrightarrow> ev_inv (snd (delete_workflow w d))"
  by (simp add: delete_workflow_def remove_workflow_inv)

end
