(* ===== verification/History.thy ===== *)
theory History
  imports Workflow_Store
begin

text \<open>
  Run history, \<^verbatim>\<open>db/history.rs\<close>: the bounded text that is indexed for search, the full-text query
  that is built from user input, the index row of a step and the history listing. The ranking of
  hits (\<^verbatim>\<open>bm25\<close>, \<^verbatim>\<open>snippet\<close>) is SQLite's and the memory half of the search reads tables that are
  not modelled.
\<close>

definition SEARCHABLE_JSON_MAX_BYTES :: nat where "SEARCHABLE_JSON_MAX_BYTES = 32 * 1024"
definition MAX_SEARCH_TERMS :: nat where "MAX_SEARCH_TERMS = 12"
definition MAX_SEARCH_TERM_CHARS :: nat where "MAX_SEARCH_TERM_CHARS = 64"
definition FINAL_OUTPUT_PREVIEW_MAX_BYTES :: nat where "FINAL_OUTPUT_PREVIEW_MAX_BYTES = 2 * 1024"

section \<open>Searchable text\<close>

text \<open>\<^verbatim>\<open>char::is_control\<close>: U+0000 to U+001F and U+007F to U+009F.\<close>

definition is_control :: "rstring \<Rightarrow> bool" where
  "is_control u = (case map of_char u :: nat list of
      [b] \<Rightarrow> b < 32 \<or> b = 127
    | [b, c] \<Rightarrow> b = 194 \<and> c < 160
    | _ \<Rightarrow> False)"

definition skipped_char :: "rstring \<Rightarrow> bool" where
  "skipped_char u = (is_control u \<and> u \<noteq> [CHR 0x0A] \<and> u \<noteq> [CHR 0x09])"

fun push_chars :: "nat \<Rightarrow> rstring \<Rightarrow> rstring list \<Rightarrow> rstring" where
  "push_chars m out [] = out"
| "push_chars m out (u # us) =
     (if skipped_char u then push_chars m out us
      else if m < length out + length u then out
      else push_chars m (out @ u) us)"

definition append_leaf :: "rstring \<Rightarrow> rstring \<Rightarrow> nat \<Rightarrow> rstring" where
  "append_leaf out leaf m =
     (if m \<le> length out then out
      else push_chars m (if out \<noteq> [] \<and> length out < m then out @ '' '' else out) (uchars leaf))"

fun walk :: "json \<Rightarrow> rstring \<Rightarrow> nat \<Rightarrow> rstring" where
  "walk JNull out m = out"
| "walk (JBool b) out m = (if m \<le> length out then out
     else append_leaf out (if b then ''true'' else ''false'') m)"
| "walk (JNumber n) out m = (if m \<le> length out then out else append_leaf out n m)"
| "walk (JString s) out m = (if m \<le> length out then out else append_leaf out s m)"
| "walk (JArray vs) out m =
     (if m \<le> length out then out else fold (\<lambda>v o'. walk v o' m) vs out)"
| "walk (JObject kvs) out m =
     (if m \<le> length out then out else fold (\<lambda>kv o'. walk (snd kv) o' m) kvs out)"

definition searchable_json_text :: "json \<Rightarrow> nat \<Rightarrow> rstring" where
  "searchable_json_text v m = (if m = 0 then [] else walk v [] m)"

section \<open>Search queries\<close>

fun split_ws :: "rstring list \<Rightarrow> rstring \<Rightarrow> rstring list" where
  "split_ws [] cur = (if cur = [] then [] else [cur])"
| "split_ws (u # us) cur =
     (if is_ws u then (if cur = [] then split_ws us [] else cur # split_ws us [])
      else split_ws us (cur @ u))"

definition split_whitespace :: "rstring \<Rightarrow> rstring list" where
  "split_whitespace s = split_ws (uchars s) []"

definition dquote :: char where "dquote = CHR 0x22"

definition fts_term :: "rstring \<Rightarrow> rstring option" where
  "fts_term t = (let b = take_chars MAX_SEARCH_TERM_CHARS t in
     if b = [] then None
     else Some (dquote # replace [dquote] [dquote, dquote] b @ [dquote, CHR ''*'']))"

definition plain_text_fts_query :: "rstring \<Rightarrow> rstring option" where
  "plain_text_fts_query q =
     (let terms = take MAX_SEARCH_TERMS (List.map_filter fts_term (split_whitespace q))
      in if terms \<noteq> [] then Some (join '' AND '' terms) else None)"

section \<open>The step index\<close>

definition delete_run_step_index :: "rstring \<Rightarrow> db \<Rightarrow> db" where
  "delete_run_step_index i d = d\<lparr>run_step_fts := filter (\<lambda>f. fts_step f \<noteq> i) (run_step_fts d)\<rparr>"

definition index_run_step ::
  "rstring \<Rightarrow> rstring \<Rightarrow> rstring \<Rightarrow> rstring \<Rightarrow> json \<Rightarrow> json \<Rightarrow> rstring option \<Rightarrow> db \<Rightarrow> db" where
  "index_run_step sid rid wid nid inp outp err d =
     (let d1 = delete_run_step_index sid d in
      d1\<lparr>run_step_fts := run_step_fts d1 @
        [\<lparr>fts_step = sid, fts_run = rid, fts_workflow = wid, fts_node = nid,
          fts_input = searchable_json_text inp SEARCHABLE_JSON_MAX_BYTES,
          fts_output = searchable_json_text outp SEARCHABLE_JSON_MAX_BYTES,
          fts_error = (case err of None \<Rightarrow> []
            | Some e \<Rightarrow> searchable_json_text (JString e) SEARCHABLE_JSON_MAX_BYTES)\<rparr>]\<rparr>)"

section \<open>The history listing\<close>

record RunHistoryItem =
  rh_id :: rstring
  rh_workflow_id :: rstring
  rh_workflow_name :: rstring
  rh_trigger :: rstring
  rh_status :: run_status
  rh_error :: "rstring option"
  rh_started_at :: "rstring option"
  rh_finished_at :: "rstring option"
  rh_created_at :: rstring
  rh_step_count :: nat
  rh_final_output_preview :: rstring

definition parse_json_or_empty :: "serde \<Rightarrow> rstring \<Rightarrow> json" where
  "parse_json_or_empty J s = unwrap_or (JObject []) (from_text J s)"

definition steps_of :: "rstring \<Rightarrow> db \<Rightarrow> step_row list" where
  "steps_of i d = sort_key step_created (filter (\<lambda>s. step_run s = i) (run_steps d))"

definition final_output :: "rstring \<Rightarrow> db \<Rightarrow> rstring option" where
  "final_output i d = (case rev (steps_of i d) of [] \<Rightarrow> None | s # _ \<Rightarrow> Some (step_output s))"

definition row_to_run_history_item :: "serde \<Rightarrow> db \<Rightarrow> workflow_row \<Rightarrow> run_row \<Rightarrow> RunHistoryItem" where
  "row_to_run_history_item J d w r = \<lparr>rh_id = run_id r, rh_workflow_id = run_workflow r,
     rh_workflow_name = wf_name w, rh_trigger = run_trigger_kind r, rh_status = run_status r,
     rh_error = run_error r, rh_started_at = run_started r, rh_finished_at = run_finished r,
     rh_created_at = run_created r, rh_step_count = length (steps_of (run_id r) d),
     rh_final_output_preview = (case final_output (run_id r) d of None \<Rightarrow> []
       | Some t \<Rightarrow> searchable_json_text (parse_json_or_empty J t) FINAL_OUTPUT_PREVIEW_MAX_BYTES)\<rparr>"

definition list_run_history ::
  "serde \<Rightarrow> rstring option \<Rightarrow> nat \<Rightarrow> nat \<Rightarrow> db \<Rightarrow> RunHistoryItem list" where
  "list_run_history J wid limit offset d =
     take (max 1 (min 100 limit)) (drop offset
       (List.map_filter (\<lambda>r. map_option (\<lambda>w. row_to_run_history_item J d w r)
            (find (\<lambda>w. wf_id w = run_workflow r) (workflows d)))
         (rev (sort_key run_created
            (filter (\<lambda>r. wid = None \<or> wid = Some (run_workflow r)) (runs d))))))"

section \<open>Bounds\<close>

lemma push_chars_le: "length out \<le> m \<Longrightarrow> length (push_chars m out us) \<le> m"
  by (induction m out us rule: push_chars.induct) auto

lemma append_leaf_le: "length out \<le> m \<Longrightarrow> length (append_leaf out leaf m) \<le> m"
  by (auto simp: append_leaf_def intro!: push_chars_le)

lemma fold_le:
  assumes "\<And>x o'. x \<in> set xs \<Longrightarrow> length o' \<le> m \<Longrightarrow> length (f x o') \<le> (m::nat)" and "length out \<le> m"
  shows "length (fold f xs out) \<le> m"
  using assms by (induction xs arbitrary: out) auto

lemma walk_le: "length out \<le> m \<Longrightarrow> length (walk v out m) \<le> m"
  by (induction v out m rule: walk.induct) (auto intro!: fold_le append_leaf_le)

lemma searchable_json_text_le: "length (searchable_json_text v m) \<le> m"
  by (simp add: searchable_json_text_def walk_le)

section \<open>Quoting\<close>

text \<open>How FTS5 reads a string: from an opening quote to the first quote that is not doubled.\<close>

fun fts_read :: "rstring \<Rightarrow> (rstring \<times> rstring) option" where
  "fts_read [] = None"
| "fts_read (c # cs) =
     (if c = dquote then
        (case cs of d # ds \<Rightarrow> if d = dquote then map_option (apfst ((#) dquote)) (fts_read ds)
                              else Some ([], cs)
         | [] \<Rightarrow> Some ([], []))
      else map_option (apfst ((#) c)) (fts_read cs))"

lemma fts_read_quoted:
  "fts_read (replace [dquote] [dquote, dquote] s @ dquote # CHR ''*'' # rest)
     = Some (s, CHR ''*'' # rest)"
proof (induction s)
  case Nil
  show ?case by (simp add: dquote_def)
next
  case (Cons c cs)
  then show ?case by (cases "c = dquote") simp_all
qed

lemma fts_term_read:
  assumes "fts_term t = Some q"
  shows "\<exists>r. q = dquote # r \<and> fts_read (r @ rest) = Some (take_chars MAX_SEARCH_TERM_CHARS t, CHR ''*'' # rest)"
  using assms fts_read_quoted by (auto simp: fts_term_def Let_def split: if_splits)

end
