(* ===== verification/Active_Runs.thy ===== *)
theory Active_Runs
  imports Prelude
begin

text \<open>
  The registry of in-flight runs, \<^verbatim>\<open>agents/active.rs\<close>. A \<^verbatim>\<open>RunControl\<close> is shared (\<^verbatim>\<open>Arc\<close>) between the
  registry and the thread that executes the run, so controls live in a store and the registry
  holds their addresses: what a cancellation writes is what the run reads. A child process is
  its process number; \<open>killed\<close> records the processes that were killed and reaped. The mutexes
  serialise the operations; they are never poisoned, because nothing panics while holding one.
\<close>

record control =
  ctl_cancel :: bool
  ctl_child :: "nat option"

record ActiveRun =
  ar_run_id :: rstring
  ar_workflow_id :: rstring
  ar_workflow_name :: rstring

record entry =
  en_control :: nat
  en_meta :: ActiveRun

record active =
  controls :: "control list"
  registry :: "(rstring \<times> entry) list"
  killed :: "nat list"

definition active_empty :: active where
  "active_empty = \<lparr>controls = [], registry = [], killed = []\<rparr>"

definition RunControl_new :: control where
  "RunControl_new = \<lparr>ctl_cancel = False, ctl_child = None\<rparr>"

definition is_cancelled :: "nat \<Rightarrow> active \<Rightarrow> bool" where
  "is_cancelled c a = (c < length (controls a) \<and> ctl_cancel (controls a ! c))"

definition request_cancel :: "nat \<Rightarrow> active \<Rightarrow> active" where
  "request_cancel c a = (if c < length (controls a) then
     a\<lparr>controls := (controls a)[c := \<lparr>ctl_cancel = True, ctl_child = None\<rparr>],
       killed := killed a @ (case ctl_child (controls a ! c) of None \<Rightarrow> [] | Some p \<Rightarrow> [p])\<rparr>
     else a)"

definition set_child :: "nat \<Rightarrow> nat \<Rightarrow> active \<Rightarrow> active" where
  "set_child c p a = (if c < length (controls a) then
     a\<lparr>controls := (controls a)[c := (controls a ! c)\<lparr>ctl_child := Some p\<rparr>]\<rparr> else a)"

definition take_child :: "nat \<Rightarrow> active \<Rightarrow> nat option \<times> active" where
  "take_child c a = (if c < length (controls a) then
     (ctl_child (controls a ! c),
      a\<lparr>controls := (controls a)[c := (controls a ! c)\<lparr>ctl_child := None\<rparr>]\<rparr>) else (None, a))"

text \<open>\<^verbatim>\<open>HashMap::insert\<close> replaces the value of a key that is present.\<close>

definition register :: "rstring \<Rightarrow> rstring \<Rightarrow> rstring \<Rightarrow> active \<Rightarrow> nat \<times> active" where
  "register rid wid wname a =
     (let c = length (controls a);
          e = \<lparr>en_control = c, en_meta = \<lparr>ar_run_id = rid, ar_workflow_id = wid,
                                          ar_workflow_name = wname\<rparr>\<rparr>
      in (c, a\<lparr>controls := controls a @ [RunControl_new],
               registry := (rid, e) # filter (\<lambda>x. fst x \<noteq> rid) (registry a)\<rparr>))"

definition get :: "rstring \<Rightarrow> active \<Rightarrow> nat option" where
  "get rid a = map_option en_control (map_of (registry a) rid)"

definition list_active :: "active \<Rightarrow> ActiveRun list" where
  "list_active a = map (en_meta \<circ> snd) (registry a)"

definition has_workflow :: "rstring \<Rightarrow> active \<Rightarrow> bool" where
  "has_workflow wid a = list_ex (\<lambda>x. ar_workflow_id (en_meta (snd x)) = wid) (registry a)"

definition unregister :: "rstring \<Rightarrow> active \<Rightarrow> active" where
  "unregister rid a = a\<lparr>registry := filter (\<lambda>x. fst x \<noteq> rid) (registry a)\<rparr>"

definition cancel :: "rstring \<Rightarrow> active \<Rightarrow> bool \<times> active" where
  "cancel rid a = (case get rid a of Some c \<Rightarrow> (True, request_cancel c a) | None \<Rightarrow> (False, a))"

section \<open>Well-formed registries\<close>

text \<open>Run ids are distinct keys, every entry's metadata carries its key, and every control
  address is in the store and used by one entry.\<close>

definition active_wf :: "active \<Rightarrow> bool" where
  "active_wf a = (distinct (map fst (registry a))
     \<and> distinct (map (en_control \<circ> snd) (registry a))
     \<and> (\<forall>x \<in> set (registry a). ar_run_id (en_meta (snd x)) = fst x
          \<and> en_control (snd x) < length (controls a)))"

lemmas active_defs = is_cancelled_def request_cancel_def set_child_def take_child_def register_def
  get_def has_workflow_def unregister_def cancel_def RunControl_new_def

lemma active_wf_empty [simp]: "active_wf active_empty"
  by (simp add: active_wf_def active_empty_def)

lemma distinct_map_filter_pairs: "distinct (map f xs) \<Longrightarrow> distinct (map f (filter P xs))"
  by (induction xs) auto

lemma active_wf_register: "active_wf a \<Longrightarrow> active_wf (snd (register rid wid wn a))"
  by (auto simp: active_wf_def register_def Let_def distinct_map_filter_pairs less_Suc_eq)

lemma active_wf_unregister: "active_wf a \<Longrightarrow> active_wf (unregister rid a)"
  by (auto simp: active_wf_def unregister_def distinct_map_filter_pairs)

lemma active_wf_request_cancel: "active_wf a \<Longrightarrow> active_wf (request_cancel c a)"
  by (simp add: active_wf_def request_cancel_def)

lemma active_wf_cancel: "active_wf a \<Longrightarrow> active_wf (snd (cancel rid a))"
  by (simp add: cancel_def active_wf_request_cancel split: option.split)

lemma active_wf_set_child: "active_wf a \<Longrightarrow> active_wf (set_child c p a)"
  by (simp add: active_wf_def set_child_def)

lemma active_wf_take_child: "active_wf a \<Longrightarrow> active_wf (snd (take_child c a))"
  by (simp add: active_wf_def take_child_def)

section \<open>The run slots a workflow runner relies on\<close>

text \<open>
  The contract between the registry and its clients (the runner, the event runtime): a workflow
  is busy exactly while a registered run of it has not been unregistered, and a cancellation
  reaches the control the run was given and no other.
\<close>

locale run_slots =
  fixes inv :: "'a \<Rightarrow> bool"
    and start :: "rstring \<Rightarrow> rstring \<Rightarrow> rstring \<Rightarrow> 'a \<Rightarrow> nat \<times> 'a"
    and stop :: "rstring \<Rightarrow> 'a \<Rightarrow> 'a"
    and busy :: "rstring \<Rightarrow> 'a \<Rightarrow> bool"
    and runs_of :: "'a \<Rightarrow> (rstring \<times> rstring) set"
    and abort :: "rstring \<Rightarrow> 'a \<Rightarrow> bool \<times> 'a"
    and aborted :: "nat \<Rightarrow> 'a \<Rightarrow> bool"
  assumes inv_start: "inv a \<Longrightarrow> inv (snd (start r w n a))"
    and inv_stop: "inv a \<Longrightarrow> inv (stop r a)"
    and inv_abort: "inv a \<Longrightarrow> inv (snd (abort r a))"
    and runs_start: "inv a \<Longrightarrow>
       runs_of (snd (start r w n a)) = insert (r, w) {p \<in> runs_of a. fst p \<noteq> r}"
    and runs_stop: "inv a \<Longrightarrow> runs_of (stop r a) = {p \<in> runs_of a. fst p \<noteq> r}"
    and runs_abort: "inv a \<Longrightarrow> runs_of (snd (abort r a)) = runs_of a"
    and busy_runs: "inv a \<Longrightarrow> busy w a \<longleftrightarrow> (\<exists>r. (r, w) \<in> runs_of a)"
    and abort_start: "inv a \<Longrightarrow> start r w n a = (c, b) \<Longrightarrow>
       \<not> aborted c b \<and> fst (abort r b) \<and> aborted c (snd (abort r b))"
begin

text \<open>One run per workflow is kept by any client that starts only where the slot is free.\<close>

definition exclusive :: "'a \<Rightarrow> bool" where
  "exclusive a = (\<forall>p \<in> runs_of a. \<forall>q \<in> runs_of a. snd p = snd q \<longrightarrow> p = q)"

lemma exclusive_start: "inv a \<Longrightarrow> exclusive a \<Longrightarrow> \<not> busy w a \<Longrightarrow> exclusive (snd (start r w n a))"
  by (auto simp: exclusive_def runs_start busy_runs)

lemma exclusive_stop: "inv a \<Longrightarrow> exclusive a \<Longrightarrow> exclusive (stop r a)"
  by (auto simp: exclusive_def runs_stop)

lemma exclusive_abort: "inv a \<Longrightarrow> exclusive a \<Longrightarrow> exclusive (snd (abort r a))"
  by (simp add: exclusive_def runs_abort)

lemma busy_after_start: "inv a \<Longrightarrow> busy w (snd (start r w n a))"
  by (auto simp: busy_runs inv_start runs_start)

lemma free_after_stop:
  assumes "inv a" and "exclusive a" and "(r, w) \<in> runs_of a"
  shows "\<not> busy w (stop r a)"
proof
  assume "busy w (stop r a)"
  then obtain s where "(s, w) \<in> runs_of a" "s \<noteq> r"
    using assms(1) by (auto simp: busy_runs inv_stop runs_stop)
  with assms(2,3) have "(s, w) = (r, w)" unfolding exclusive_def by (metis snd_conv)
  with \<open>s \<noteq> r\<close> show False by simp
qed

end

definition active_pairs :: "active \<Rightarrow> (rstring \<times> rstring) set" where
  "active_pairs a = (\<lambda>x. (fst x, ar_workflow_id (en_meta (snd x)))) ` set (registry a)"

lemma active_pairs_filter:
  "(\<lambda>x. (fst x, ar_workflow_id (en_meta (snd x)))) ` set (filter (\<lambda>x. fst x \<noteq> r) xs)
     = {p \<in> (\<lambda>x. (fst x, ar_workflow_id (en_meta (snd x)))) ` set xs. fst p \<noteq> r}"
  by (induction xs) auto

lemma has_workflow_pairs: "has_workflow w a \<longleftrightarrow> (\<exists>r. (r, w) \<in> active_pairs a)"
proof
  assume "has_workflow w a"
  then obtain x where x: "x \<in> set (registry a)" "ar_workflow_id (en_meta (snd x)) = w"
    by (auto simp: has_workflow_def list_ex_iff)
  then have "(fst x, w) \<in> active_pairs a" unfolding active_pairs_def by (intro image_eqI) simp_all
  then show "\<exists>r. (r, w) \<in> active_pairs a" by (rule exI)
next
  assume "\<exists>r. (r, w) \<in> active_pairs a"
  then obtain x where "x \<in> set (registry a)" "ar_workflow_id (en_meta (snd x)) = w"
    unfolding active_pairs_def by blast
  then show "has_workflow w a" unfolding has_workflow_def list_ex_iff by blast
qed

interpretation slots: run_slots active_wf register unregister has_workflow active_pairs
  cancel is_cancelled
proof
  fix a :: active and r w n
  assume wf: "active_wf a"
  show "active_wf (snd (register r w n a))" by (rule active_wf_register [OF wf])
  show "active_wf (unregister r a)" by (rule active_wf_unregister [OF wf])
  show "active_wf (snd (cancel r a))" by (rule active_wf_cancel [OF wf])
  show "active_pairs (snd (register r w n a)) = insert (r, w) {p \<in> active_pairs a. fst p \<noteq> r}"
    by (simp add: active_pairs_def register_def Let_def del: set_filter add: active_pairs_filter)
  show "active_pairs (unregister r a) = {p \<in> active_pairs a. fst p \<noteq> r}"
    by (simp add: active_pairs_def unregister_def del: set_filter add: active_pairs_filter)
  show "active_pairs (snd (cancel r a)) = active_pairs a"
    by (simp add: active_pairs_def cancel_def request_cancel_def split: option.split)
  show "has_workflow w a \<longleftrightarrow> (\<exists>r. (r, w) \<in> active_pairs a)"
    by (rule has_workflow_pairs)
next
  fix a b :: active and r w n c
  assume "active_wf a" and "register r w n a = (c, b)"
  then show "\<not> is_cancelled c b \<and> fst (cancel r b) \<and> is_cancelled c (snd (cancel r b))"
    by (auto simp: active_defs Let_def nth_append)
qed

section \<open>Steps of the registry\<close>

inductive active_step :: "active \<Rightarrow> active \<Rightarrow> bool" where
  do_register: "active_step a (snd (register r w n a))"
| do_unregister: "active_step a (unregister r a)"
| do_cancel: "active_step a (snd (cancel r a))"
| do_set_child: "active_step a (set_child c p a)"
| do_take_child: "active_step a (snd (take_child c a))"

interpretation active_sys: transition_invariant "\<lambda>a. a = active_empty" active_step active_wf
  by unfold_locales (auto elim!: active_step.cases intro: active_wf_register active_wf_unregister
      active_wf_cancel active_wf_set_child active_wf_take_child)

lemma request_cancel_mono: "is_cancelled c a \<Longrightarrow> is_cancelled c (request_cancel k a)"
  by (auto simp: active_defs nth_list_update)

lemma active_step_cancelled: "active_step a b \<Longrightarrow> is_cancelled c a \<Longrightarrow> is_cancelled c b"
  by (cases rule: active_step.cases, assumption)
     (auto simp: active_defs Let_def nth_append nth_list_update split: option.splits if_splits)

interpretation active_mono: transition_monotone active_step
  "\<lambda>a b. \<forall>c. is_cancelled c a \<longrightarrow> is_cancelled c b"
  by unfold_locales (auto intro: active_step_cancelled)

end
