(* ===== verification/Run_Lifecycle.thy ===== *)
theory Run_Lifecycle
  imports History Active_Runs
begin

text \<open>
  The life of a run, \<^verbatim>\<open>runner/mod.rs\<close> lines 39 to 303 and 618 to 672: creating the pending row,
  taking the workflow's slot, handing the run to a background task, changing its status,
  cancelling it, reading its payload and recording a step. The state is the database, the
  registry of active runs and the list of spawned tasks that have not finished. The clock reading
  and the fresh identifiers are arguments.

  \<^verbatim>\<open>start_run\<close> is two separately locked sections: the slot check (\<open>start_run_guard\<close>) and the rest
  (\<open>start_run_body\<close>). \<open>start_run\<close> runs them back to back; the interleaving of two callers is the
  subject of a lemma below.
\<close>

datatype RunTrigger = Manual | Schedule | Event rstring

fun RunTrigger_as_str :: "RunTrigger \<Rightarrow> rstring" where
  "RunTrigger_as_str Manual = ''manual''"
| "RunTrigger_as_str Schedule = ''schedule''"
| "RunTrigger_as_str (Event source) = source"

record RunSummary =
  rs_id :: rstring
  rs_workflow_id :: rstring
  rs_trigger :: rstring
  rs_status :: run_status
  rs_created_at :: rstring

datatype RunnerError = Message rstring

record task =
  tk_run :: rstring
  tk_workflow :: rstring
  tk_control :: nat

record sys =
  sys_db :: db
  sys_active :: active
  sys_tasks :: "task list"

definition init_sys :: "db \<Rightarrow> sys" where
  "init_sys d = \<lparr>sys_db = d, sys_active = active_empty, sys_tasks = []\<rparr>"

section \<open>Starting a run\<close>

definition enqueue_run ::
  "serde \<Rightarrow> rstring \<Rightarrow> RunTrigger \<Rightarrow> rstring option \<Rightarrow> rstring \<Rightarrow> rstring \<Rightarrow> db
    \<Rightarrow> (RunnerError + RunSummary) \<times> db" where
  "enqueue_run J wid trig payload rid now d =
     (case get_workflow J wid d of
        None \<Rightarrow> (Inl (Message (''workflow not found: '' @ wid)), d)
      | Some w \<Rightarrow>
        (case insert_run (pending_run rid (w_id w) (RunTrigger_as_str trig) payload now) d of
           Inl e \<Rightarrow> (Inl (Message (db_error_text e)), d)
         | Inr d' \<Rightarrow> (Inr \<lparr>rs_id = rid, rs_workflow_id = w_id w,
                           rs_trigger = RunTrigger_as_str trig, rs_status = Pending,
                           rs_created_at = now\<rparr>, d')))"

definition workflow_display_name :: "serde \<Rightarrow> rstring \<Rightarrow> db \<Rightarrow> rstring" where
  "workflow_display_name J wid d =
     (case get_workflow J wid d of None \<Rightarrow> ''Workflow'' | Some w \<Rightarrow> w_name w)"

definition spawn_run_execution :: "serde \<Rightarrow> RunSummary \<Rightarrow> sys \<Rightarrow> sys" where
  "spawn_run_execution J s y =
     (case register (rs_id s) (rs_workflow_id s)
             (workflow_display_name J (rs_workflow_id s) (sys_db y)) (sys_active y) of
        (c, a) \<Rightarrow> y\<lparr>sys_active := a, sys_tasks := sys_tasks y @
          [\<lparr>tk_run = rs_id s, tk_workflow = rs_workflow_id s, tk_control = c\<rparr>]\<rparr>)"

definition already_running :: RunnerError where
  "already_running = Message ''This workflow is already running''"

definition start_run_guard :: "rstring \<Rightarrow> sys \<Rightarrow> RunnerError option" where
  "start_run_guard wid y = (if has_workflow wid (sys_active y) then Some already_running else None)"

definition start_run_body ::
  "serde \<Rightarrow> rstring \<Rightarrow> RunTrigger \<Rightarrow> rstring option \<Rightarrow> rstring \<Rightarrow> rstring \<Rightarrow> sys
    \<Rightarrow> (RunnerError + RunSummary) \<times> sys" where
  "start_run_body J wid trig payload rid now y =
     (case enqueue_run J wid trig payload rid now (sys_db y) of
        (Inl e, d) \<Rightarrow> (Inl e, y\<lparr>sys_db := d\<rparr>)
      | (Inr s, d) \<Rightarrow> (Inr s, spawn_run_execution J s (y\<lparr>sys_db := d\<rparr>)))"

definition start_run ::
  "serde \<Rightarrow> rstring \<Rightarrow> RunTrigger \<Rightarrow> rstring option \<Rightarrow> rstring \<Rightarrow> rstring \<Rightarrow> sys
    \<Rightarrow> (RunnerError + RunSummary) \<times> sys" where
  "start_run J wid trig payload rid now y =
     (case start_run_guard wid y of
        Some e \<Rightarrow> (Inl e, y)
      | None \<Rightarrow> start_run_body J wid trig payload rid now y)"

definition run_status_of :: "rstring \<Rightarrow> rstring \<Rightarrow> db \<Rightarrow> run_status option" where
  "run_status_of rid wid d =
     map_option run_status (find (\<lambda>r. run_id r = rid \<and> run_workflow r = wid) (runs d))"

definition start_pending_app_event_run ::
  "serde \<Rightarrow> PromotedAppEventRun \<Rightarrow> sys \<Rightarrow> (RunnerError + RunSummary) \<times> sys" where
  "start_pending_app_event_run J p y =
     (if has_workflow (pr_workflow_id p) (sys_active y) then (Inl already_running, y)
      else if run_status_of (pr_run_id p) (pr_workflow_id p) (sys_db y) \<noteq> Some Pending
      then (Inl (Message ''The queued app event is no longer pending''), y)
      else let s = \<lparr>rs_id = pr_run_id p, rs_workflow_id = pr_workflow_id p, rs_trigger = ''app'',
                    rs_status = Pending, rs_created_at = pr_created_at p\<rparr>
           in (Inr s, spawn_run_execution J s y))"

section \<open>Status, cancellation, payload, steps\<close>

definition set_run_status ::
  "rstring \<Rightarrow> run_status \<Rightarrow> rstring option \<Rightarrow> rstring \<Rightarrow> db \<Rightarrow> db" where
  "set_run_status rid st err now d = d\<lparr>runs :=
     update_where (\<lambda>r. run_id r = rid)
       (\<lambda>r. if st = Running
             then r\<lparr>run_status := st, run_started := coalesce (run_started r) (Some now)\<rparr>
             else r\<lparr>run_status := st, run_finished := Some now, run_error := err\<rparr>) (runs d)\<rparr>"

definition cancel_run :: "rstring \<Rightarrow> rstring \<Rightarrow> sys \<Rightarrow> bool \<times> sys" where
  "cancel_run rid now y =
     (case cancel rid (sys_active y) of
        (c, a) \<Rightarrow> (c, y\<lparr>sys_active := a,
           sys_db := (if c then set_run_status rid Cancelled (Some ''Cancelled by user'') now (sys_db y)
                      else sys_db y)\<rparr>))"

text \<open>The end of the spawned task: the slot is released whatever \<^verbatim>\<open>execute_run\<close> returned.\<close>

definition finish_task :: "task \<Rightarrow> sys \<Rightarrow> sys" where
  "finish_task t y = y\<lparr>sys_active := unregister (tk_run t) (sys_active y),
     sys_tasks := remove1 t (sys_tasks y)\<rparr>"

definition MAX_PAYLOAD_CHARS :: nat where "MAX_PAYLOAD_CHARS = 8000"

definition truncated_suffix :: rstring where
  "truncated_suffix = nl @ ellipsis @ '' (truncated)''"

definition clip_payload :: "rstring \<Rightarrow> rstring" where
  "clip_payload p = (if MAX_PAYLOAD_CHARS < char_count p
     then take_chars MAX_PAYLOAD_CHARS p @ truncated_suffix else p)"

definition load_run_payload :: "rstring \<Rightarrow> db \<Rightarrow> (rstring \<times> rstring) option" where
  "load_run_payload rid d =
     (case find (\<lambda>r. run_id r = rid) (runs d) of
        None \<Rightarrow> None
      | Some r \<Rightarrow>
        (case run_payload r of
           None \<Rightarrow> None
         | Some p \<Rightarrow> if trim p = [] then None else Some (clip_payload p, run_trigger_kind r)))"

definition json_text_or_empty :: "serde \<Rightarrow> json \<Rightarrow> rstring" where
  "json_text_or_empty J v = unwrap_or ''{}'' (to_text J v)"

definition no_rows :: RunnerError where
  "no_rows = Message ''database error: Query returned no rows''"

definition insert_step ::
  "serde \<Rightarrow> rstring \<Rightarrow> rstring \<Rightarrow> rstring option \<Rightarrow> rstring option \<Rightarrow> rstring \<Rightarrow> json \<Rightarrow> json
    \<Rightarrow> rstring option \<Rightarrow> rstring \<Rightarrow> rstring \<Rightarrow> db \<Rightarrow> (RunnerError + unit) \<times> db" where
  "insert_step J rid nid provider skill status inp outp err sid now d =
     (case find (\<lambda>r. run_id r = rid) (runs d) of
        None \<Rightarrow> (Inl no_rows, d)
      | Some r \<Rightarrow>
        if sid \<in> set (map step_id (run_steps d))
        then (Inl (Message (db_error_text unique_failed)), d)
        else (Inr (), index_run_step sid rid (run_workflow r) nid inp outp err
               (d\<lparr>run_steps := run_steps d @
                  [\<lparr>step_id = sid, step_run = rid, step_node = nid, step_provider = provider,
                    step_skill = skill, step_status = status, step_input = json_text_or_empty J inp,
                    step_output = json_text_or_empty J outp, step_error = err,
                    step_created = now\<rparr>]\<rparr>)))"

section \<open>The delivery invariant is kept\<close>

lemma ev_inv_insert_run:
  assumes "ev_inv d" and "insert_run r d = Inr d'"
  shows "ev_inv d'"
proof -
  have d': "d' = d\<lparr>runs := runs d @ [r]\<rparr>" and new: "run_id r \<notin> run_id ` set (runs d)"
    and w: "workflow_exists (run_workflow r) d" using assms(2) by (simp_all add: insert_run_Inr)
  have "fk_ok d'" using assms(1) new w unfolding d' by (simp add: ev_inv_def schema_defs)
  moreover have "runs_resolve d' (app_event_receipts d)"
  proof (rule runs_resolve_mono)
    show "app_run_of d' t i" if "app_run_of d t i" for t i
      using that unfolding d' by (rule app_run_of_more_runs)
    show "runs_resolve d (app_event_receipts d)" using assms(1) by (simp add: ev_inv_parts)
  qed
  ultimately show ?thesis using assms(1) by (simp add: ev_inv_parts d')
qed

lemma enqueue_run_cases:
  obtains e where "enqueue_run J wid trig payload rid now d = (Inl e, d)"
  | w s d' where "get_workflow J wid d = Some w"
      "insert_run (pending_run rid (w_id w) (RunTrigger_as_str trig) payload now) d = Inr d'"
      "s = \<lparr>rs_id = rid, rs_workflow_id = w_id w, rs_trigger = RunTrigger_as_str trig,
             rs_status = Pending, rs_created_at = now\<rparr>"
      "enqueue_run J wid trig payload rid now d = (Inr s, d')"
  unfolding enqueue_run_def
  by (cases "get_workflow J wid d"; simp)
     (metis (no_types, lifting) sum.case sum.exhaust)

lemma enqueue_run_inv: "ev_inv d \<Longrightarrow> ev_inv (snd (enqueue_run J wid trig payload rid now d))"
  by (rule enqueue_run_cases [of J wid trig payload rid now d]) (simp_all add: ev_inv_insert_run)

lemma set_run_status_inv: "ev_inv d \<Longrightarrow> ev_inv (set_run_status rid st err now d)"
  unfolding set_run_status_def by (rule ev_inv_update_runs) simp_all

lemma ev_inv_steps:
  assumes "ev_inv d" and "\<forall>i \<in> set (map step_run ss). i \<in> set (map run_id (runs d))"
    and "distinct (map step_id ss)"
  shows "ev_inv (d\<lparr>run_steps := ss, run_step_fts := fs\<rparr>)"
proof -
  have "app_run_of (d\<lparr>run_steps := ss, run_step_fts := fs\<rparr>) t i = app_run_of d t i" for t i
    by (simp add: app_run_of_def)
  then have "runs_resolve (d\<lparr>run_steps := ss, run_step_fts := fs\<rparr>) rs = runs_resolve d rs" for rs
    by (simp add: runs_resolve_def cong: option.case_cong)
  then show ?thesis using assms by (simp add: ev_inv_parts schema_defs)
qed

lemma index_run_step_eq:
  "\<exists>fs. index_run_step sid rid wid nid inp outp err d = d\<lparr>run_step_fts := fs\<rparr>"
  by (simp add: index_run_step_def delete_run_step_index_def Let_def) blast

lemma insert_step_frame:
  assumes "insert_step J rid nid pr sk st inp outp err sid now d = (res, d')"
  shows "d' = d \<or> (\<exists>s fs. d' = d\<lparr>run_steps := run_steps d @ [s], run_step_fts := fs\<rparr>
     \<and> step_id s = sid \<and> step_run s = rid \<and> sid \<notin> set (map step_id (run_steps d))
     \<and> rid \<in> set (map run_id (runs d)))"
proof (cases "find (\<lambda>r. run_id r = rid) (runs d)")
  case (Some r)
  then have rid: "rid \<in> set (map run_id (runs d))" by (auto simp: find_Some_iff)
  show ?thesis
  proof (cases "sid \<in> set (map step_id (run_steps d))")
    case True
    with assms Some show ?thesis by (simp add: insert_step_def)
  next
    case False
    let ?s = "\<lparr>step_id = sid, step_run = rid, step_node = nid, step_provider = pr,
      step_skill = sk, step_status = st, step_input = json_text_or_empty J inp,
      step_output = json_text_or_empty J outp, step_error = err, step_created = now\<rparr>"
    from False assms Some have "d' = index_run_step sid rid (run_workflow r) nid inp outp err
        (d\<lparr>run_steps := run_steps d @ [?s]\<rparr>)"
      by (simp add: insert_step_def)
    then obtain fs where "d' = d\<lparr>run_steps := run_steps d @ [?s], run_step_fts := fs\<rparr>"
      using index_run_step_eq [of sid rid "run_workflow r" nid inp outp err] by metis
    with False rid show ?thesis by (intro disjI2 exI [of _ ?s] exI [of _ fs]) simp
  qed
qed (use assms in \<open>simp add: insert_step_def\<close>)

lemma insert_step_inv:
  assumes "ev_inv d"
  shows "ev_inv (snd (insert_step J rid nid pr sk st inp outp err sid now d))"
proof -
  obtain res d' where e: "insert_step J rid nid pr sk st inp outp err sid now d = (res, d')"
    by (metis prod.collapse)
  from insert_step_frame [OF e] show ?thesis
  proof
    assume "d' = d" with e assms show ?thesis by simp
  next
    assume "\<exists>s fs. d' = d\<lparr>run_steps := run_steps d @ [s], run_step_fts := fs\<rparr>
     \<and> step_id s = sid \<and> step_run s = rid \<and> sid \<notin> set (map step_id (run_steps d))
     \<and> rid \<in> set (map run_id (runs d))"
    then obtain s fs where d': "d' = d\<lparr>run_steps := run_steps d @ [s], run_step_fts := fs\<rparr>"
      and s: "step_id s = sid" "step_run s = rid" "sid \<notin> set (map step_id (run_steps d))"
        "rid \<in> set (map run_id (runs d))" by blast
    have "\<forall>i \<in> set (map step_run (run_steps d @ [s])). i \<in> set (map run_id (runs d))"
      and "distinct (map step_id (run_steps d @ [s]))"
      using assms s by (simp_all add: ev_inv_def schema_defs)
    with assms have "ev_inv d'" unfolding d' by (rule ev_inv_steps)
    with e show ?thesis by simp
  qed
qed

section \<open>The system invariant\<close>

text \<open>The database is consistent, the registry well formed, and no workflow has two active runs.\<close>

definition sys_inv :: "sys \<Rightarrow> bool" where
  "sys_inv y = (ev_inv (sys_db y) \<and> active_wf (sys_active y) \<and> slots.exclusive (sys_active y))"

lemma ev_inv_empty: "ev_inv empty_db"
  by (simp add: ev_inv_parts schema_defs empty_db_def queue_matches_def run_iff_enqueued_def
      runs_unshared_def runs_resolve_def)

lemma sys_inv_init: "ev_inv d \<Longrightarrow> sys_inv (init_sys d)"
  by (simp add: sys_inv_def init_sys_def slots.exclusive_def active_pairs_def active_empty_def
      flip: active_empty_def)
     (simp add: active_empty_def)

lemma sys_inv_db: "sys_inv y \<Longrightarrow> ev_inv d \<Longrightarrow> sys_inv (y\<lparr>sys_db := d\<rparr>)"
  by (simp add: sys_inv_def)

lemma spawn_run_execution_eq:
  "spawn_run_execution J s y = y\<lparr>
     sys_active := snd (register (rs_id s) (rs_workflow_id s)
        (workflow_display_name J (rs_workflow_id s) (sys_db y)) (sys_active y)),
     sys_tasks := sys_tasks y @ [\<lparr>tk_run = rs_id s, tk_workflow = rs_workflow_id s,
        tk_control = length (controls (sys_active y))\<rparr>]\<rparr>"
  by (simp add: spawn_run_execution_def register_def Let_def)

lemma spawn_run_execution_inv:
  assumes "sys_inv y" and "\<not> has_workflow (rs_workflow_id s) (sys_active y)"
  shows "sys_inv (spawn_run_execution J s y)"
  using assms unfolding spawn_run_execution_eq sys_inv_def
  by (simp add: active_wf_register slots.exclusive_start)

lemma get_workflow_id: "get_workflow J wid d = Some w \<Longrightarrow> w_id w = wid"
  by (auto simp: get_workflow_def row_to_workflow_def find_Some_iff)

lemma start_run_inv:
  assumes "sys_inv y"
  shows "sys_inv (snd (start_run J wid trig payload rid now y))"
proof (cases "has_workflow wid (sys_active y)")
  case False
  let ?e = "enqueue_run J wid trig payload rid now (sys_db y)"
  have inv: "sys_inv (y\<lparr>sys_db := snd ?e\<rparr>)"
    using assms by (intro sys_inv_db enqueue_run_inv) (simp_all add: sys_inv_def)
  show ?thesis
  proof (rule enqueue_run_cases [of J wid trig payload rid now "sys_db y"])
    fix e assume "?e = (Inl e, sys_db y)"
    with False assms show ?thesis by (simp add: start_run_def start_run_guard_def start_run_body_def)
  next
    fix w s d' assume w: "get_workflow J wid (sys_db y) = Some w"
      and s: "s = \<lparr>rs_id = rid, rs_workflow_id = w_id w, rs_trigger = RunTrigger_as_str trig,
             rs_status = Pending, rs_created_at = now\<rparr>" and e: "?e = (Inr s, d')"
    have "rs_workflow_id s = wid" using s get_workflow_id [OF w] by simp
    with False e inv have "sys_inv (spawn_run_execution J s (y\<lparr>sys_db := d'\<rparr>))"
      by (intro spawn_run_execution_inv) simp_all
    with False e show ?thesis
      by (simp add: start_run_def start_run_guard_def start_run_body_def)
  qed
qed (use assms in \<open>simp add: start_run_def start_run_guard_def\<close>)

lemma start_pending_app_event_run_inv:
  "sys_inv y \<Longrightarrow> sys_inv (snd (start_pending_app_event_run J p y))"
  by (simp add: start_pending_app_event_run_def Let_def spawn_run_execution_inv)

lemma cancel_run_inv: "sys_inv y \<Longrightarrow> sys_inv (snd (cancel_run rid now y))"
  using slots.exclusive_abort [of "sys_active y" rid] active_wf_cancel [of "sys_active y" rid]
  by (auto simp: cancel_run_def sys_inv_def set_run_status_inv split: prod.split)

lemma finish_task_inv: "sys_inv y \<Longrightarrow> sys_inv (finish_task t y)"
  by (simp add: finish_task_def sys_inv_def active_wf_unregister slots.exclusive_stop)

section \<open>Properties\<close>

text \<open>Property C22 (starting a run is all or nothing): a refused start changes nothing; an accepted one
  happens only when the workflow's slot is free, the workflow exists and the id is new, appends
  exactly one pending row, takes the slot, and hands a fresh, uncancelled control to exactly one
  new task.\<close>

theorem start_run_outcome:
  "case start_run J wid trig payload rid now y of
     (Inl e, y') \<Rightarrow> y' = y
   | (Inr s, y') \<Rightarrow> \<not> has_workflow wid (sys_active y) \<and> workflow_exists wid (sys_db y)
       \<and> rid \<notin> run_id ` set (runs (sys_db y))
       \<and> sys_db y' = (sys_db y)\<lparr>runs := runs (sys_db y)
            @ [pending_run rid wid (RunTrigger_as_str trig) payload now]\<rparr>
       \<and> has_workflow wid (sys_active y')
       \<and> (\<exists>c. sys_tasks y' = sys_tasks y @ [\<lparr>tk_run = rid, tk_workflow = wid, tk_control = c\<rparr>]
            \<and> Active_Runs.get rid (sys_active y') = Some c \<and> \<not> is_cancelled c (sys_active y'))"
proof (cases "has_workflow wid (sys_active y)")
  case True
  then show ?thesis by (simp add: start_run_def start_run_guard_def)
next
  case free: False
  let ?e = "enqueue_run J wid trig payload rid now (sys_db y)"
  show ?thesis
  proof (rule enqueue_run_cases [of J wid trig payload rid now "sys_db y"])
    fix e assume "?e = (Inl e, sys_db y)"
    with free show ?thesis by (simp add: start_run_def start_run_guard_def start_run_body_def)
  next
    fix w s d' assume w: "get_workflow J wid (sys_db y) = Some w"
      and ins: "insert_run (pending_run rid (w_id w) (RunTrigger_as_str trig) payload now) (sys_db y)
        = Inr d'"
      and s: "s = \<lparr>rs_id = rid, rs_workflow_id = w_id w, rs_trigger = RunTrigger_as_str trig,
             rs_status = Pending, rs_created_at = now\<rparr>" and e: "?e = (Inr s, d')"
    have wid: "w_id w = wid" using w by (rule get_workflow_id)
    have d': "d' = (sys_db y)\<lparr>runs := runs (sys_db y)
            @ [pending_run rid wid (RunTrigger_as_str trig) payload now]\<rparr>"
      and new: "rid \<notin> run_id ` set (runs (sys_db y))" and ex: "workflow_exists wid (sys_db y)"
      using ins wid by (simp_all add: insert_run_Inr pending_run_def)
    have r: "start_run J wid trig payload rid now y = (Inr s, spawn_run_execution J s (y\<lparr>sys_db := d'\<rparr>))"
      using free e by (simp add: start_run_def start_run_guard_def start_run_body_def)
    show ?thesis
      unfolding r spawn_run_execution_eq
      using free new ex s wid d'
      by (simp add: register_def Let_def has_workflow_def Active_Runs.get_def is_cancelled_def
          RunControl_new_def nth_append)
  qed
qed

text \<open>A sample database with one workflow, and a reader and printer of JSON text that is only used
  to instantiate the model.\<close>

definition ex_wf_db :: db where
  "ex_wf_db = empty_db\<lparr>workflows := [\<lparr>wf_id = ''w'', wf_name = ''W'', wf_description = [],
     wf_working_directory = [], wf_folder = None, wf_sort_order = 0, wf_retrieval = True,
     wf_graph_json = [], wf_created = ''1'', wf_updated = ''1''\<rparr>]\<rparr>"

definition ex_serde :: serde where
  "ex_serde = \<lparr>to_text = (\<lambda>_. None), from_text = (\<lambda>_. None)\<rparr>"

lemma ex_wf_db_inv: "ev_inv ex_wf_db"
  by (simp add: ev_inv_parts schema_defs ex_wf_db_def empty_db_def queue_matches_def
      run_iff_enqueued_def runs_unshared_def runs_resolve_def)

definition racing_starts :: sys where
  "racing_starts = snd (start_run_body ex_serde ''w'' Schedule None ''r2'' ''3''
     (snd (start_run_body ex_serde ''w'' Manual None ''r1'' ''2'' (init_sys ex_wf_db))))"

lemma racing_pairs: "active_pairs (sys_active racing_starts) = {(''r1'', ''w''), (''r2'', ''w'')}"
  by (auto simp: racing_starts_def start_run_body_def enqueue_run_def get_workflow_def ex_wf_db_def
      empty_db_def init_sys_def row_to_workflow_def insert_run_def pending_run_def
      workflow_exists_def spawn_run_execution_def register_def Let_def active_pairs_def
      active_empty_def)

text \<open>The slot check and the registration are not one step: from a consistent state in
  which the workflow's slot is free, two callers that both pass the check before either of them
  registers leave two active runs of the workflow, so the one-run-per-workflow rule rests on the
  callers not being concurrent.\<close>

theorem start_run_race:
  "sys_inv (init_sys ex_wf_db) \<and> start_run_guard ''w'' (init_sys ex_wf_db) = None
   \<and> \<not> slots.exclusive (sys_active racing_starts)"
proof -
  have "start_run_guard ''w'' (init_sys ex_wf_db) = None"
    by (simp add: start_run_guard_def init_sys_def active_empty_def has_workflow_def)
  moreover have "\<not> slots.exclusive (sys_active racing_starts)"
    unfolding slots.exclusive_def racing_pairs by simp
  ultimately show ?thesis using sys_inv_init [OF ex_wf_db_inv] by blast
qed

lemma truncated_suffix_count: "char_count truncated_suffix = 14" "\<not> is_cont (hd truncated_suffix)"
  by (simp_all add: truncated_suffix_def char_count_def nl_def ellipsis_def is_cont_def)

text \<open>The payload given to a prompt is bounded and not altered: it has at most 8000
  characters and the truncation mark, and up to 8000 characters it is the stored payload.\<close>

theorem load_run_payload_bounded:
  "case load_run_payload rid d of None \<Rightarrow> True
   | Some (p, kind) \<Rightarrow> char_count p \<le> 8014
       \<and> (\<exists>r \<in> set (runs d). run_id r = rid \<and> run_trigger_kind r = kind
            \<and> (\<exists>full. run_payload r = Some full \<and> take_chars 8000 p = take_chars 8000 full))"
proof (cases "load_run_payload rid d")
  case (Some pk)
  obtain p kind where pk: "pk = (p, kind)" by (cases pk)
  from Some pk obtain r full where r: "find (\<lambda>r. run_id r = rid) (runs d) = Some r"
    "run_payload r = Some full" "p = clip_payload full" "kind = run_trigger_kind r"
    by (auto simp: load_run_payload_def split: option.splits if_splits)
  then have "r \<in> set (runs d)" "run_id r = rid" by (auto simp: find_Some_iff)
  moreover have "char_count p \<le> 8014" unfolding r(3)
    by (simp add: clip_payload_def MAX_PAYLOAD_CHARS_def char_count_append truncated_suffix_count
        char_count_take_chars)
  moreover have "take_chars 8000 p = take_chars 8000 full" unfolding r(3)
    by (simp add: clip_payload_def MAX_PAYLOAD_CHARS_def take_chars_append truncated_suffix_count)
  ultimately show ?thesis using Some pk r by auto
qed simp

end
