(* ===== verification/App_Connections.thy ===== *)
theory App_Connections
  imports Workflow_Store
begin

text \<open>
  Connected-app records, \<^verbatim>\<open>db/app_connections.rs\<close>, with the provider catalogue
  (\<^verbatim>\<open>integrations/catalog.rs\<close>) and the identity key (\<^verbatim>\<open>integrations/models.rs\<close>). Which providers can be
  connected in a build does not matter here, so the catalogue keeps each provider's id and
  whether it allows one account only. Scopes and metadata are stored as JSON text; a row whose
  text does not parse makes the query fail, as \<^verbatim>\<open>map_connection\<close> does.
\<close>

record AppConnection =
  ac_id :: rstring
  ac_provider_id :: rstring
  ac_display_name :: "rstring option"
  ac_external_account_id :: "rstring option"
  ac_external_tenant_id :: "rstring option"
  ac_connection_mode :: rstring
  ac_identity_key :: rstring
  ac_scopes :: "rstring list"
  ac_provider_metadata :: "(rstring \<times> rstring) list"
  ac_status :: ConnectionStatus
  ac_expires_at :: "rstring option"
  ac_last_checked_at :: "rstring option"
  ac_last_error_code :: "rstring option"
  ac_credential_ref :: rstring
  ac_created_at :: rstring
  ac_updated_at :: rstring

record UpsertAppConnection =
  ua_provider_id :: rstring
  ua_display_name :: "rstring option"
  ua_external_account_id :: "rstring option"
  ua_external_tenant_id :: "rstring option"
  ua_connection_mode :: rstring
  ua_identity_key :: rstring
  ua_scopes :: "rstring list"
  ua_provider_metadata :: "(rstring \<times> rstring) list"
  ua_expires_at :: "rstring option"
  ua_credential_ref :: rstring

record provider_entry =
  pv_id :: rstring
  pv_single :: bool

definition ProviderCatalog_default :: "provider_entry list" where
  "ProviderCatalog_default =
     map (\<lambda>(i, s). \<lparr>pv_id = i, pv_single = s\<rparr>)
       [(''slack'', False), (''telegram'', False), (''whatsapp'', True), (''microsoft'', False),
        (''gmail'', False), (''github'', False), (''linear'', False), (''sentry'', False),
        (''notion'', False), (''obsidian'', False), (''google_drive'', False),
        (''sharepoint'', False)]"

definition catalog_contains :: "rstring \<Rightarrow> bool" where
  "catalog_contains i = list_ex (\<lambda>p. pv_id p = i) ProviderCatalog_default"

definition is_single_connection :: "rstring \<Rightarrow> bool" where
  "is_single_connection i = list_ex (\<lambda>p. pv_id p = i \<and> pv_single p) ProviderCatalog_default"

section \<open>The identity key\<close>

text \<open>Each part is framed by the eight big-endian bytes of its length; the digest and its base64
  form are parameters.\<close>

fun be_bytes :: "nat \<Rightarrow> nat \<Rightarrow> rstring" where
  "be_bytes 0 n = []"
| "be_bytes (Suc k) n = char_of (n div 256 ^ k mod 256) # be_bytes k n"

definition identity_preimage :: "rstring \<Rightarrow> rstring \<Rightarrow> rstring list \<Rightarrow> rstring" where
  "identity_preimage provider mode parts =
     concat (map (\<lambda>v. be_bytes 8 (length v mod 2 ^ 64) @ v) (provider # mode # parts))"

definition canonical_identity_key ::
  "(rstring \<Rightarrow> rstring) \<Rightarrow> (rstring \<Rightarrow> rstring) \<Rightarrow> rstring \<Rightarrow> rstring \<Rightarrow> rstring list \<Rightarrow> rstring" where
  "canonical_identity_key sha256 base64url provider mode parts =
     base64url (sha256 (identity_preimage provider mode parts))"

section \<open>Queries\<close>

definition json_strings :: "json \<Rightarrow> rstring list option" where
  "json_strings v = (case v of
      JArray xs \<Rightarrow> if list_all (\<lambda>x. as_str x \<noteq> None) xs then Some (str_list xs) else None
    | _ \<Rightarrow> None)"

definition json_string_map :: "json \<Rightarrow> (rstring \<times> rstring) list option" where
  "json_string_map v = (case v of
      JObject kvs \<Rightarrow> if list_all (\<lambda>kv. as_str (snd kv) \<noteq> None) kvs
        then Some (List.map_filter (\<lambda>kv. map_option (Pair (fst kv)) (as_str (snd kv))) kvs)
        else None
    | _ \<Rightarrow> None)"

definition conversion_failed :: DbError where
  "conversion_failed = Sqlite ''Conversion error from type Text''"

definition map_connection :: "serde \<Rightarrow> connection_row \<Rightarrow> DbError + AppConnection" where
  "map_connection J r =
     (case (Option.bind (from_text J (co_scopes_json r)) json_strings,
            Option.bind (from_text J (co_metadata_json r)) json_string_map) of
        (Some scopes, Some metadata) \<Rightarrow> Inr \<lparr>ac_id = co_id r, ac_provider_id = co_provider r,
           ac_display_name = co_display_name r, ac_external_account_id = co_account r,
           ac_external_tenant_id = co_tenant r, ac_connection_mode = co_mode r,
           ac_identity_key = co_identity r, ac_scopes = scopes, ac_provider_metadata = metadata,
           ac_status = co_status r, ac_expires_at = co_expires r,
           ac_last_checked_at = co_last_checked r, ac_last_error_code = co_last_error r,
           ac_credential_ref = co_credential r, ac_created_at = co_created r,
           ac_updated_at = co_updated r\<rparr>
      | _ \<Rightarrow> Inl conversion_failed)"

fun collect_results :: "('e + 'a) list \<Rightarrow> 'e + 'a list" where
  "collect_results [] = Inr []"
| "collect_results (Inl e # rs) = Inl e"
| "collect_results (Inr x # rs) =
     (case collect_results rs of Inl e \<Rightarrow> Inl e | Inr xs \<Rightarrow> Inr (x # xs))"

definition list_app_connections :: "serde \<Rightarrow> db \<Rightarrow> DbError + AppConnection list" where
  "list_app_connections J d = collect_results (map (map_connection J)
     (sort_key (\<lambda>r. (co_provider r, co_created r)) (app_connections d)))"

definition optional_connection ::
  "serde \<Rightarrow> connection_row option \<Rightarrow> DbError + AppConnection option" where
  "optional_connection J r = (case r of None \<Rightarrow> Inr None
     | Some row \<Rightarrow> (case map_connection J row of Inl e \<Rightarrow> Inl e | Inr c \<Rightarrow> Inr (Some c)))"

definition get_app_connection :: "serde \<Rightarrow> rstring \<Rightarrow> db \<Rightarrow> DbError + AppConnection option" where
  "get_app_connection J i d = optional_connection J (find (\<lambda>r. co_id r = i) (app_connections d))"

definition get_app_connection_by_identity ::
  "serde \<Rightarrow> rstring \<Rightarrow> rstring \<Rightarrow> rstring \<Rightarrow> db \<Rightarrow> DbError + AppConnection option" where
  "get_app_connection_by_identity J p m k d =
     optional_connection J (find (\<lambda>r. co_key r = (p, m, k)) (app_connections d))"

section \<open>Updates\<close>

definition SINGLE_CONNECTION_MESSAGE :: rstring where
  "SINGLE_CONNECTION_MESSAGE =
     ''this provider supports one linked account; disconnect the existing one first''"

definition other_accounts :: "UpsertAppConnection \<Rightarrow> db \<Rightarrow> nat" where
  "other_accounts inp d = length (filter (\<lambda>r. co_provider r = ua_provider_id inp
     \<and> co_identity r \<noteq> ua_identity_key inp) (app_connections d))"

definition refreshed_row ::
  "UpsertAppConnection \<Rightarrow> rstring \<Rightarrow> rstring \<Rightarrow> rstring \<Rightarrow> connection_row \<Rightarrow> connection_row" where
  "refreshed_row inp scopes_json metadata_json now r = r\<lparr>co_display_name := ua_display_name inp,
     co_account := ua_external_account_id inp, co_tenant := ua_external_tenant_id inp,
     co_scopes_json := scopes_json, co_metadata_json := metadata_json, co_status := Connected,
     co_expires := ua_expires_at inp, co_last_checked := Some now, co_last_error := None,
     co_updated := now\<rparr>"

definition new_connection_row ::
  "UpsertAppConnection \<Rightarrow> rstring \<Rightarrow> rstring \<Rightarrow> rstring \<Rightarrow> rstring \<Rightarrow> connection_row" where
  "new_connection_row inp scopes_json metadata_json i now =
     \<lparr>co_id = i, co_provider = ua_provider_id inp, co_display_name = ua_display_name inp,
      co_account = ua_external_account_id inp, co_tenant = ua_external_tenant_id inp,
      co_mode = ua_connection_mode inp, co_identity = ua_identity_key inp,
      co_scopes_json = scopes_json, co_metadata_json = metadata_json, co_status = Connected,
      co_expires = ua_expires_at inp, co_last_checked = Some now, co_last_error = None,
      co_credential = ua_credential_ref inp, co_created = now, co_updated = now\<rparr>"

definition save_connection ::
  "UpsertAppConnection \<Rightarrow> rstring \<Rightarrow> rstring \<Rightarrow> rstring \<Rightarrow> rstring \<Rightarrow> db \<Rightarrow> DbError + rstring \<times> db" where
  "save_connection inp scopes_json metadata_json i now d =
     (case find (\<lambda>r. co_key r = (ua_provider_id inp, ua_connection_mode inp, ua_identity_key inp))
             (app_connections d) of
        Some r \<Rightarrow> Inr (co_id r, d\<lparr>app_connections := update_where (\<lambda>x. co_id x = co_id r)
                       (refreshed_row inp scopes_json metadata_json now) (app_connections d)\<rparr>)
      | None \<Rightarrow>
        if is_single_connection (ua_provider_id inp) \<and> 0 < other_accounts inp d
        then Inl (Other SINGLE_CONNECTION_MESSAGE)
        else if i \<in> set (map co_id (app_connections d))
           \<or> ua_credential_ref inp \<in> set (map co_credential (app_connections d))
        then Inl unique_failed
        else Inr (i, d\<lparr>app_connections := app_connections d @
               [new_connection_row inp scopes_json metadata_json i now]\<rparr>))"

definition upsert_app_connection ::
  "serde \<Rightarrow> UpsertAppConnection \<Rightarrow> rstring \<Rightarrow> rstring \<Rightarrow> db \<Rightarrow> AppConnection dbres" where
  "upsert_app_connection J inp0 i now d =
     (if \<not> catalog_contains (ua_provider_id inp0)
      then (Inl (Other ''unknown connected-app provider''), d)
      else if trim (ua_provider_id inp0) = [] \<or> trim (ua_connection_mode inp0) = []
         \<or> trim (ua_identity_key inp0) = [] \<or> trim (ua_credential_ref inp0) = []
      then (Inl (Other
        ''provider, connection mode, identity, and credential reference are required''), d)
      else let inp = inp0\<lparr>ua_scopes := remdups_adj (sort (ua_scopes inp0))\<rparr> in
        (case (to_text J (JArray (map JString (ua_scopes inp))),
               to_text J (JObject (map (\<lambda>kv. (fst kv, JString (snd kv)))
                 (ua_provider_metadata inp)))) of
           (Some sj, Some mj) \<Rightarrow>
             (case save_connection inp sj mj i now d of
                Inl e \<Rightarrow> (Inl e, d)
              | Inr (saved, d') \<Rightarrow>
                (case get_app_connection J saved d' of
                   Inl e \<Rightarrow> (Inl e, d')
                 | Inr None \<Rightarrow> (Inl (Other ''failed to load saved app connection''), d')
                 | Inr (Some c) \<Rightarrow> (Inr c, d')))
         | _ \<Rightarrow> (Inl (Other serde_failed), d)))"

definition set_app_connection_refresh_state ::
  "rstring \<Rightarrow> ConnectionStatus \<Rightarrow> rstring option \<Rightarrow> rstring option \<Rightarrow> rstring \<Rightarrow> db
    \<Rightarrow> unit dbres" where
  "set_app_connection_refresh_state i st expires err now d =
     (let p = (\<lambda>r. co_id r = i \<and> co_status r \<noteq> Revoked) in
      (if list_ex p (app_connections d) then Inr ()
       else Inl (Other ''connection not found or revoked''),
       d\<lparr>app_connections := update_where p
          (\<lambda>r. r\<lparr>co_status := st, co_expires := expires, co_last_checked := Some now,
                 co_last_error := err, co_updated := now\<rparr>) (app_connections d)\<rparr>))"

definition mark_app_connection_revoked :: "rstring \<Rightarrow> rstring \<Rightarrow> db \<Rightarrow> unit dbres" where
  "mark_app_connection_revoked i now d =
     (if i \<in> set (map co_id (app_connections d)) then Inr () else Inl (Other ''connection not found''),
      d\<lparr>app_connections := update_where (\<lambda>r. co_id r = i)
         (\<lambda>r. r\<lparr>co_status := Revoked, co_updated := now\<rparr>) (app_connections d)\<rparr>)"

definition delete_app_connection_metadata :: "rstring \<Rightarrow> db \<Rightarrow> db" where
  "delete_app_connection_metadata i d =
     d\<lparr>app_connections := filter (\<lambda>r. co_id r \<noteq> i) (app_connections d)\<rparr>"

section \<open>Where a connection is used\<close>

fun app_action_references :: "json \<Rightarrow> rstring \<Rightarrow> bool \<Rightarrow> bool" where
  "app_action_references (JObject kvs) c inside =
     (let kind = coalesce (map_of kvs ''type'') (map_of kvs ''kind'');
          ins = (inside \<or> Option.bind kind as_str = Some ''appAction'')
      in (ins \<and> Option.bind (map_of kvs ''connectionId'') as_str = Some c)
         \<or> list_ex (\<lambda>kv. app_action_references (snd kv) c ins) kvs)"
| "app_action_references (JArray vs) c inside =
     list_ex (\<lambda>v. app_action_references v c inside) vs"
| "app_action_references _ c inside = False"

fun value_references :: "json \<Rightarrow> rstring \<Rightarrow> bool" where
  "value_references (JObject kvs) c =
     (Option.bind (map_of kvs ''connectionId'') as_str = Some c
      \<or> list_ex (\<lambda>kv. value_references (snd kv) c) kvs)"
| "value_references (JArray vs) c = list_ex (\<lambda>v. value_references v c) vs"
| "value_references _ c = False"

record ConnectionUsageItem =
  cui_id :: rstring
  cui_label :: rstring
  cui_enabled :: bool

record AppConnectionUsage =
  acu_workflows :: "ConnectionUsageItem list"
  acu_schedules :: "ConnectionUsageItem list"
  acu_triggers :: "ConnectionUsageItem list"

definition get_app_connection_usage :: "serde \<Rightarrow> rstring \<Rightarrow> db \<Rightarrow> AppConnectionUsage" where
  "get_app_connection_usage J i d =
     (let wfs = filter (\<lambda>w. app_action_references (w_graph w) i False) (list_workflows J d) in
      \<lparr>acu_workflows = map (\<lambda>w. \<lparr>cui_id = w_id w, cui_label = w_name w, cui_enabled = True\<rparr>) wfs,
       acu_schedules = map (\<lambda>x. \<lparr>cui_id = sc_id (si_schedule x), cui_label = si_workflow_name x,
                                  cui_enabled = sc_enabled (si_schedule x)\<rparr>)
         (filter (\<lambda>x. sc_workflow (si_schedule x) \<in> set (map w_id wfs)) (list_all_schedules d)),
       acu_triggers = map (\<lambda>t. \<lparr>cui_id = t_id t,
            cui_label = (if t_label t = [] then t_source t else t_label t),
            cui_enabled = t_enabled t\<rparr>)
         (filter (\<lambda>t. value_references (t_config t) i) (list_all_triggers J d))\<rparr>)"

section \<open>Invariants\<close>

text \<open>A single-account provider never has rows of two identities.\<close>

definition single_ok :: "connection_row list \<Rightarrow> bool" where
  "single_ok cs = (\<forall>r \<in> set cs. \<forall>s \<in> set cs. co_provider r = co_provider s
     \<longrightarrow> is_single_connection (co_provider r) \<longrightarrow> co_identity r = co_identity s)"

lemma single_okD: "single_ok cs \<Longrightarrow> r \<in> set cs \<Longrightarrow> s \<in> set cs \<Longrightarrow> co_provider r = co_provider s
    \<Longrightarrow> is_single_connection (co_provider r) \<Longrightarrow> co_identity r = co_identity s"
  unfolding single_ok_def by blast

lemma single_ok_subset: "single_ok cs \<Longrightarrow> set ds \<subseteq> set cs \<Longrightarrow> single_ok ds"
  unfolding single_ok_def by blast

lemma single_ok_update:
  assumes "single_ok cs" and "\<And>r. co_provider (f r) = co_provider r"
    and "\<And>r. co_identity (f r) = co_identity r"
  shows "single_ok (update_where p f cs)"
proof -
  have "\<exists>r' \<in> set cs. co_provider r' = co_provider r \<and> co_identity r' = co_identity r"
    if "r \<in> set (update_where p f cs)" for r
  proof -
    from that obtain r' where "r' \<in> set cs" "r = (if p r' then f r' else r')"
      unfolding update_where_def by auto
    then show ?thesis using assms(2,3) by (intro bexI [of _ r']) simp_all
  qed
  then have src: "\<exists>r' \<in> set cs. co_provider r' = co_provider r \<and> co_identity r' = co_identity r"
    if "r \<in> set (update_where p f cs)" for r using that by blast
  show ?thesis
    unfolding single_ok_def
  proof (intro ballI impI)
    fix r s assume "r \<in> set (update_where p f cs)" "s \<in> set (update_where p f cs)"
      "co_provider r = co_provider s" "is_single_connection (co_provider r)"
    moreover from this src obtain r' s' where "r' \<in> set cs" "s' \<in> set cs"
      "co_provider r' = co_provider r" "co_identity r' = co_identity r"
      "co_provider s' = co_provider s" "co_identity s' = co_identity s" by blast
    ultimately show "co_identity r = co_identity s"
      using single_okD [OF assms(1), of r' s'] by simp
  qed
qed

lemma ev_inv_connections:
  assumes "ev_inv d" and "distinct (map co_id cs)" and "distinct (map co_key cs)"
    and "distinct (map co_credential cs)"
  shows "ev_inv (d\<lparr>app_connections := cs\<rparr>)"
proof -
  have "app_run_of (d\<lparr>app_connections := cs\<rparr>) t i = app_run_of d t i" for t i
    by (simp add: app_run_of_def)
  then have "runs_resolve (d\<lparr>app_connections := cs\<rparr>) rs = runs_resolve d rs" for rs
    by (simp add: runs_resolve_def cong: option.case_cong)
  then show ?thesis using assms by (simp add: ev_inv_parts schema_defs)
qed

lemma ev_inv_update_connections:
  assumes "ev_inv d" and "\<And>r. co_id (f r) = co_id r" and "\<And>r. co_key (f r) = co_key r"
    and "\<And>r. co_credential (f r) = co_credential r"
  shows "ev_inv (d\<lparr>app_connections := update_where p f (app_connections d)\<rparr>)"
  using assms by (intro ev_inv_connections) (simp_all add: ev_inv_def schema_defs)

lemma set_app_connection_refresh_state_inv:
  "ev_inv d \<Longrightarrow> ev_inv (snd (set_app_connection_refresh_state i st ex err now d))"
  unfolding set_app_connection_refresh_state_def Let_def snd_conv
  by (rule ev_inv_update_connections) simp_all

lemma mark_app_connection_revoked_inv:
  "ev_inv d \<Longrightarrow> ev_inv (snd (mark_app_connection_revoked i now d))"
  unfolding mark_app_connection_revoked_def snd_conv
  by (rule ev_inv_update_connections) simp_all

lemma delete_app_connection_metadata_inv:
  "ev_inv d \<Longrightarrow> ev_inv (delete_app_connection_metadata i d)"
  unfolding delete_app_connection_metadata_def
  by (rule ev_inv_connections) (simp_all add: ev_inv_def schema_defs distinct_map_filter_rows)

lemma save_connection_cases:
  assumes "save_connection inp sj mj i now d = Inr (j, d')"
  obtains r where "r \<in> set (app_connections d)" "j = co_id r"
      "co_key r = (ua_provider_id inp, ua_connection_mode inp, ua_identity_key inp)"
      "d' = d\<lparr>app_connections := update_where (\<lambda>x. co_id x = co_id r)
         (refreshed_row inp sj mj now) (app_connections d)\<rparr>"
  | "j = i" "i \<notin> set (map co_id (app_connections d))"
      "ua_credential_ref inp \<notin> set (map co_credential (app_connections d))"
      "(ua_provider_id inp, ua_connection_mode inp, ua_identity_key inp)
         \<notin> set (map co_key (app_connections d))"
      "is_single_connection (ua_provider_id inp) \<Longrightarrow> other_accounts inp d = 0"
      "d' = d\<lparr>app_connections := app_connections d @ [new_connection_row inp sj mj i now]\<rparr>"
proof (cases "find (\<lambda>r. co_key r = (ua_provider_id inp, ua_connection_mode inp, ua_identity_key inp))
             (app_connections d)")
  case None
  then have "(ua_provider_id inp, ua_connection_mode inp, ua_identity_key inp)
         \<notin> set (map co_key (app_connections d))"
    by (auto simp: find_None_iff)
  with None assms that(2) show ?thesis by (auto simp: save_connection_def split: if_splits)
next
  case (Some r)
  then have "r \<in> set (app_connections d)"
    "co_key r = (ua_provider_id inp, ua_connection_mode inp, ua_identity_key inp)"
    by (auto simp: find_Some_iff)
  with Some assms that(1) [of r] show ?thesis by (auto simp: save_connection_def)
qed

lemma save_connection_inv:
  assumes "ev_inv d" and "save_connection inp sj mj i now d = Inr (j, d')"
  shows "ev_inv d'"
  using assms(2)
proof (rule save_connection_cases)
  fix r assume "d' = d\<lparr>app_connections := update_where (\<lambda>x. co_id x = co_id r)
         (refreshed_row inp sj mj now) (app_connections d)\<rparr>"
  then show ?thesis
    using assms(1) by (simp add: ev_inv_update_connections refreshed_row_def)
next
  assume "d' = d\<lparr>app_connections := app_connections d @ [new_connection_row inp sj mj i now]\<rparr>"
    and "i \<notin> set (map co_id (app_connections d))"
      "ua_credential_ref inp \<notin> set (map co_credential (app_connections d))"
      "(ua_provider_id inp, ua_connection_mode inp, ua_identity_key inp)
         \<notin> set (map co_key (app_connections d))"
  then show ?thesis
    using assms(1)
    by (simp only:) (rule ev_inv_connections, simp_all add: ev_inv_def schema_defs new_connection_row_def)
qed

lemma save_connection_single:
  assumes "single_ok (app_connections d)" and "save_connection inp sj mj i now d = Inr (j, d')"
  shows "single_ok (app_connections d')"
  using assms(2)
proof (rule save_connection_cases)
  fix r assume "d' = d\<lparr>app_connections := update_where (\<lambda>x. co_id x = co_id r)
         (refreshed_row inp sj mj now) (app_connections d)\<rparr>"
  then show ?thesis using assms(1) by (simp add: single_ok_update refreshed_row_def)
next
  let ?n = "new_connection_row inp sj mj i now"
  assume d': "d' = d\<lparr>app_connections := app_connections d @ [?n]\<rparr>"
    and none: "is_single_connection (ua_provider_id inp) \<Longrightarrow> other_accounts inp d = 0"
  have "co_identity r = co_identity ?n" if "r \<in> set (app_connections d)"
      "co_provider r = co_provider ?n" "is_single_connection (co_provider r)" for r
    using that none by (auto simp: new_connection_row_def other_accounts_def filter_empty_conv)
  then have new: "co_identity r = co_identity ?n" "co_identity ?n = co_identity r"
    if "r \<in> set (app_connections d)" "co_provider r = co_provider ?n"
      "is_single_connection (co_provider r)" for r using that by simp_all
  show ?thesis
    unfolding single_ok_def
  proof (intro ballI impI)
    fix r s assume "r \<in> set (app_connections d')" "s \<in> set (app_connections d')"
      and eq: "co_provider r = co_provider s" "is_single_connection (co_provider r)"
    then consider "r \<in> set (app_connections d)" "s \<in> set (app_connections d)"
      | "r = ?n" "s \<in> set (app_connections d)" | "r \<in> set (app_connections d)" "s = ?n"
      | "r = ?n" "s = ?n" unfolding d' by auto
    then show "co_identity r = co_identity s"
    proof cases
      case 1 then show ?thesis using eq single_okD [OF assms(1)] by blast
    next
      case 2 then show ?thesis using eq new(2) [of s] by simp
    next
      case 3 then show ?thesis using eq new(1) [of r] by simp
    qed simp
  qed
qed

lemma upsert_app_connection_cases:
  obtains e where "upsert_app_connection J inp i now d = (Inl e, d)"
  | sj mj j d' res where "upsert_app_connection J inp i now d = (res, d')"
      "save_connection (inp\<lparr>ua_scopes := remdups_adj (sort (ua_scopes inp))\<rparr>) sj mj i now d
         = Inr (j, d')"
proof -
  let ?inp = "inp\<lparr>ua_scopes := remdups_adj (sort (ua_scopes inp))\<rparr>"
  show thesis
  proof (cases "\<exists>sj mj j d'. save_connection ?inp sj mj i now d = Inr (j, d')
      \<and> snd (upsert_app_connection J inp i now d) = d'")
    case True
    then show thesis using that(2) by (metis prod.collapse)
  next
    case False
    then have "\<exists>e. upsert_app_connection J inp i now d = (Inl e, d)"
      by (auto simp: upsert_app_connection_def Let_def split: option.splits sum.splits if_splits)
    then show thesis using that(1) by blast
  qed
qed

lemma upsert_app_connection_inv: "ev_inv d \<Longrightarrow> ev_inv (snd (upsert_app_connection J inp i now d))"
  by (rule upsert_app_connection_cases [of J inp i now d]) (auto intro: save_connection_inv)

lemma upsert_app_connection_single:
  "single_ok (app_connections d) \<Longrightarrow>
     single_ok (app_connections (snd (upsert_app_connection J inp i now d)))"
  by (rule upsert_app_connection_cases [of J inp i now d]) (auto intro: save_connection_single)

section \<open>Framing\<close>

lemma be_bytes_length [simp]: "length (be_bytes k n) = k"
  by (induction k) auto

lemma be_bytes_inject: "be_bytes k m = be_bytes k n \<Longrightarrow> m mod 256 ^ k = n mod 256 ^ k"
proof (induction k)
  case (Suc k)
  have hd: "char_of (m div 256 ^ k mod 256) = (char_of (n div 256 ^ k mod 256) :: char)"
    and tl: "be_bytes k m = be_bytes k n"
    using Suc.prems by simp_all
  have "of_char (char_of (m div 256 ^ k mod 256) :: char) = (of_char (char_of (n div 256 ^ k mod 256) :: char) :: nat)"
    using hd by simp
  then have a: "m div 256 ^ k mod 256 = n div 256 ^ k mod 256" by simp
  have b: "m mod 256 ^ k = n mod 256 ^ k" using Suc.IH [OF tl] .
  have split: "x mod 256 ^ Suc k = 256 ^ k * (x div 256 ^ k mod 256) + x mod 256 ^ k" for x :: nat
    using mod_mult2_eq [of x "256 ^ k" 256] by (simp add: mult.commute)
  show ?case unfolding split a b ..
qed simp

definition frame :: "rstring \<Rightarrow> rstring" where
  "frame v = be_bytes 8 (length v mod 2 ^ 64) @ v"

lemma frame_nonempty: "frame v \<noteq> []"
proof
  assume "frame v = []"
  then have "length (frame v) = 0" by simp
  then show False by (simp add: frame_def)
qed

lemma frame_append_inject:
  assumes "frame v @ s = frame w @ t" and "length v < 2 ^ 64" and "length w < 2 ^ 64"
  shows "v = w \<and> s = t"
proof -
  have e: "be_bytes 8 (length v mod 2 ^ 64) @ (v @ s) = be_bytes 8 (length w mod 2 ^ 64) @ (w @ t)"
    using assms(1) by (simp add: frame_def)
  then have "be_bytes 8 (length v mod 2 ^ 64) = be_bytes 8 (length w mod 2 ^ 64) \<and> v @ s = w @ t"
    by (subst (asm) append_eq_append_conv) (simp_all only: be_bytes_length simp_thms)
  then have "be_bytes 8 (length v) = be_bytes 8 (length w)" and r: "v @ s = w @ t"
    using assms(2,3) by (simp_all only: mod_less)
  then have "length v mod 256 ^ 8 = length w mod 256 ^ 8" by (intro be_bytes_inject)
  then have "length v = length w" using assms(2,3) by simp
  with r show ?thesis by simp
qed

lemma frames_inject:
  assumes "concat (map frame vs) = concat (map frame ws)"
    and "\<forall>v \<in> set vs. length v < 2 ^ 64" and "\<forall>w \<in> set ws. length w < 2 ^ 64"
  shows "vs = ws"
  using assms
proof (induction vs arbitrary: ws)
  case Nil
  then show ?case by (cases ws) (simp_all add: frame_nonempty)
next
  case (Cons v vs)
  show ?case
  proof (cases ws)
    case Nil
    with Cons.prems show ?thesis by (simp add: frame_nonempty)
  next
    case (Cons w ws')
    with Cons.prems have "frame v @ concat (map frame vs) = frame w @ concat (map frame ws')"
      and "length v < 2 ^ 64" "length w < 2 ^ 64" by simp_all
    then have "v = w" "concat (map frame vs) = concat (map frame ws')"
      using frame_append_inject by blast+
    with Cons.IH Cons.prems Cons show ?thesis by simp
  qed
qed

section \<open>Usage\<close>

lemma app_action_references_weaker:
  "app_action_references v c inside \<Longrightarrow> value_references v c"
proof (induction v c inside rule: app_action_references.induct)
  case (1 kvs c inside)
  then show ?case by (fastforce simp: Let_def list_ex_iff)
next
  case (2 vs c inside)
  then show ?case by (fastforce simp: list_ex_iff)
qed simp_all

end
