(* ===== verification/Event_Sync.thy ===== *)
theory Event_Sync
  imports App_Connections
begin

text \<open>
  Connected-app event synchronisation, \<^verbatim>\<open>integrations/events.rs\<close>: descriptors and trigger
  configurations, normalisation of provider events, the batch that turns events into receipts and
  queued rows, and the checkpoint that commits the provider cursor. The token check comes from
  \<^verbatim>\<open>integrations/actions.rs\<close>.

  Parameters: the provider adapters and the token store (trait objects), the JSON printer, the
  clock, SHA-256 and URL parsing. An awaited adapter call ends in one of three ways (\<open>fut\<close>), and
  other tasks may change the database while it is awaited (\<open>meanwhile\<close>).
\<close>

datatype AppEventDeliveryMode = Polling | Socket | Subscription
datatype ActionFieldKind = KText | KTextarea | KBoolean | KEnum | KResourceSelector

record ActionFieldDescriptor =
  fd_key :: rstring
  fd_kind :: ActionFieldKind
  fd_required :: bool
  fd_default :: "json option"
  fd_secret :: bool
  fd_option_source :: "rstring option"

record AppEventDescriptor =
  de_provider_id :: rstring
  de_event_type :: rstring
  de_label :: rstring
  de_required_scopes :: "rstring list"
  de_delivery_modes :: "AppEventDeliveryMode list"
  de_filter_fields :: "ActionFieldDescriptor list"
  de_descriptor_version :: nat
  de_external_event_id_required :: bool
  de_allowed_attribute_keys :: "rstring list"
  de_poll_interval_seconds :: nat
  de_pending_cap :: nat

record AppTriggerConfig =
  cf_provider_id :: rstring
  cf_event_type :: rstring
  cf_connection_id :: rstring
  cf_filters :: "(rstring \<times> json) list"
  cf_descriptor_version :: nat

record NormalizedAppEvent =
  ne_schema_version :: nat
  ne_provider_id :: rstring
  ne_event_type :: rstring
  ne_connection_id :: rstring
  ne_external_event_id :: rstring
  ne_occurred_at :: rstring
  ne_subject :: "rstring option"
  ne_actor :: "rstring option"
  ne_resource_url :: "rstring option"
  ne_preview :: "rstring option"
  ne_attributes :: "(rstring \<times> json) list"

record AppEventBatch =
  ba_events :: "NormalizedAppEvent list"
  ba_cursor :: "rstring option"
  ba_subscription_id :: "rstring option"
  ba_expires_at :: "rstring option"

record AppEventRenewal =
  rn_subscription_id :: "rstring option"
  rn_expires_at :: "rstring option"

datatype AppEventErrorCode =
    EventNotFound | ConnectionRequired | ScopeMissing | RateLimited | ProviderUnauthorized
  | ProviderUnavailable | InvalidInput | EventTooLarge | EventInvalid | TimedOut | EvCancelled
  | QueueFull

fun AppEventErrorCode_as_str :: "AppEventErrorCode \<Rightarrow> rstring" where
  "AppEventErrorCode_as_str EventNotFound = ''event_not_found''"
| "AppEventErrorCode_as_str ConnectionRequired = ''connection_required''"
| "AppEventErrorCode_as_str ScopeMissing = ''scope_missing''"
| "AppEventErrorCode_as_str RateLimited = ''rate_limited''"
| "AppEventErrorCode_as_str ProviderUnauthorized = ''provider_unauthorized''"
| "AppEventErrorCode_as_str ProviderUnavailable = ''provider_unavailable''"
| "AppEventErrorCode_as_str InvalidInput = ''invalid_input''"
| "AppEventErrorCode_as_str EventTooLarge = ''event_too_large''"
| "AppEventErrorCode_as_str EventInvalid = ''event_invalid''"
| "AppEventErrorCode_as_str TimedOut = ''timed_out''"
| "AppEventErrorCode_as_str EvCancelled = ''cancelled''"
| "AppEventErrorCode_as_str QueueFull = ''queue_full''"

record AppEventError =
  ee_code :: AppEventErrorCode
  ee_retry_after_seconds :: "nat option"

definition AppEventError_new :: "AppEventErrorCode \<Rightarrow> AppEventError" where
  "AppEventError_new c = \<lparr>ee_code = c, ee_retry_after_seconds = None\<rparr>"

definition retry_after :: "nat \<Rightarrow> AppEventError \<Rightarrow> AppEventError" where
  "retry_after s e = e\<lparr>ee_retry_after_seconds := Some (min s 86400)\<rparr>"

record SyncReport =
  sr_accepted :: nat
  sr_duplicates :: nat
  sr_rejected :: nat
  sr_dropped_overrun :: nat
  sr_backpressured :: bool

definition SyncReport_default :: SyncReport where
  "SyncReport_default = \<lparr>sr_accepted = 0, sr_duplicates = 0, sr_rejected = 0,
     sr_dropped_overrun = 0, sr_backpressured = False\<rparr>"

record CredentialEnvelope =
  ce_access_token :: rstring
  ce_refresh_token :: "rstring option"
  ce_provider_fields :: "(rstring \<times> rstring) list"

datatype TokenStoreError = TMissing | TLocked | TInvalid | TFailed

definition NORMALIZED_APP_EVENT_SCHEMA_VERSION :: nat where
  "NORMALIZED_APP_EVENT_SCHEMA_VERSION = 1"
definition MAX_APP_EVENT_BYTES :: nat where "MAX_APP_EVENT_BYTES = 16 * 1024"
definition MAX_APP_EVENT_PREVIEW_CHARS :: nat where "MAX_APP_EVENT_PREVIEW_CHARS = 1000"
definition MAX_EVENT_ATTRIBUTES :: nat where "MAX_EVENT_ATTRIBUTES = 16"
definition MAX_ATTRIBUTE_STRING_CHARS :: nat where "MAX_ATTRIBUTE_STRING_CHARS = 512"

text \<open>The external functions of this component.\<close>

record libs =
  lib_serde :: serde
  lib_chrono :: chrono
  lib_url_scheme :: "rstring \<Rightarrow> rstring option"
  lib_sha256_hex :: "rstring \<Rightarrow> rstring"
  lib_u16 :: "rstring \<Rightarrow> nat option"
  lib_number :: "nat \<Rightarrow> rstring"

section \<open>Validation\<close>

definition value_is_empty :: "json \<Rightarrow> bool" where
  "value_is_empty v = (v = JNull \<or> (case as_str v of Some s \<Rightarrow> trim s = [] | None \<Rightarrow> False))"

definition secret_needles :: "rstring list" where
  "secret_needles = [''token'', ''secret'', ''authorization'', ''signature'', ''password'',
     ''cookie'', ''rawbody'', ''headers'', ''attachment'']"

definition secret_like_key :: "rstring \<Rightarrow> bool" where
  "secret_like_key key =
     (let compact = filter (\<lambda>c. c \<noteq> CHR ''-'' \<and> c \<noteq> CHR ''_'') (to_ascii_lowercase key)
      in list_ex (contains compact) secret_needles)"

definition safe_attribute_value :: "json \<Rightarrow> bool" where
  "safe_attribute_value v = (case v of JNull \<Rightarrow> True | JBool _ \<Rightarrow> True | JNumber _ \<Rightarrow> True
     | JString s \<Rightarrow> char_count s \<le> MAX_ATTRIBUTE_STRING_CHARS | _ \<Rightarrow> False)"

fun bad_fields :: "rstring list \<Rightarrow> ActionFieldDescriptor list \<Rightarrow> bool" where
  "bad_fields seen [] = False"
| "bad_fields seen (f # fs) = (fd_secret f \<or> trim (fd_key f) = [] \<or> fd_key f \<in> set seen
     \<or> secret_like_key (fd_key f) \<or> bad_fields (fd_key f # seen) fs)"

fun bad_attribute_keys :: "rstring list \<Rightarrow> rstring list \<Rightarrow> bool" where
  "bad_attribute_keys seen [] = False"
| "bad_attribute_keys seen (k # ks) = (trim k = [] \<or> secret_like_key k \<or> k \<in> set seen
     \<or> bad_attribute_keys (k # seen) ks)"

definition validate_descriptor :: "AppEventDescriptor \<Rightarrow> AppEventError option" where
  "validate_descriptor de =
     (if trim (de_provider_id de) = [] \<or> trim (de_event_type de) = [] \<or> trim (de_label de) = []
         \<or> de_descriptor_version de = 0 \<or> de_delivery_modes de = []
         \<or> 86400 < de_poll_interval_seconds de \<or> de_pending_cap de = 0
      then Some (AppEventError_new InvalidInput)
      else if bad_fields [] (de_filter_fields de) then Some (AppEventError_new InvalidInput)
      else if bad_attribute_keys [] (de_allowed_attribute_keys de)
      then Some (AppEventError_new InvalidInput) else None)"

definition field_ok :: "AppTriggerConfig \<Rightarrow> ActionFieldDescriptor \<Rightarrow> bool" where
  "field_ok cf f =
     (let v = coalesce (map_of (cf_filters cf) (fd_key f)) (fd_default f) in
      \<not> (fd_required f \<and> (case v of None \<Rightarrow> True | Some x \<Rightarrow> value_is_empty x))
      \<and> (case v of None \<Rightarrow> True
         | Some x \<Rightarrow> if fd_kind f = KBoolean then as_bool x \<noteq> None
                     else (case as_str x of Some t \<Rightarrow> length t \<le> 2048 | None \<Rightarrow> False)))"

definition validate_trigger_config ::
  "AppTriggerConfig \<Rightarrow> AppEventDescriptor \<Rightarrow> AppEventError option" where
  "validate_trigger_config cf de =
     (if cf_provider_id cf \<noteq> de_provider_id de \<or> cf_event_type cf \<noteq> de_event_type de
         \<or> trim (cf_connection_id cf) = [] \<or> de_descriptor_version de < cf_descriptor_version cf
      then Some (AppEventError_new InvalidInput)
      else if list_ex (\<lambda>kv. fst kv \<notin> set (map fd_key (de_filter_fields de))) (cf_filters cf)
      then Some (AppEventError_new InvalidInput)
      else if list_ex (\<lambda>f. \<not> field_ok cf f) (de_filter_fields de)
      then Some (AppEventError_new InvalidInput) else None)"

definition load_compatible_connection ::
  "serde \<Rightarrow> AppTriggerConfig \<Rightarrow> AppEventDescriptor \<Rightarrow> db \<Rightarrow> AppEventError + AppConnection" where
  "load_compatible_connection J cf de d =
     (case get_app_connection J (cf_connection_id cf) d of
        Inl _ \<Rightarrow> Inl (AppEventError_new ProviderUnavailable)
      | Inr None \<Rightarrow> Inl (AppEventError_new ConnectionRequired)
      | Inr (Some c) \<Rightarrow>
          if ac_provider_id c \<noteq> de_provider_id de \<or> ac_status c \<noteq> Connected
          then Inl (AppEventError_new ConnectionRequired)
          else if list_ex (\<lambda>s. s \<notin> set (ac_scopes c)) (de_required_scopes de)
          then Inl (AppEventError_new ScopeMissing) else Inr c)"

section \<open>Tokens\<close>

definition contains_secret :: "CredentialEnvelope \<Rightarrow> rstring \<Rightarrow> bool" where
  "contains_secret ce text =
     list_ex (contains text) (filter (\<lambda>v. 8 \<le> length v)
       (ce_access_token ce # (case ce_refresh_token ce of None \<Rightarrow> [] | Some r \<Rightarrow> [r])
        @ map snd (ce_provider_fields ce)))"

definition load_tokens ::
  "(rstring \<Rightarrow> TokenStoreError + CredentialEnvelope) \<Rightarrow> AppConnection
    \<Rightarrow> AppEventError + CredentialEnvelope" where
  "load_tokens store c = (case store (ac_credential_ref c) of
      Inr ce \<Rightarrow> Inr ce
    | Inl e \<Rightarrow> Inl (AppEventError_new
        (if e = TMissing \<or> e = TInvalid then ConnectionRequired else ProviderUnavailable)))"

section \<open>Normalisation\<close>

definition opt_json :: "rstring option \<Rightarrow> json" where
  "opt_json x = (case x of None \<Rightarrow> JNull | Some s \<Rightarrow> JString s)"

text \<open>The derived \<^verbatim>\<open>Serialize\<close> of an event: its fields in order, in camel case.\<close>

definition event_json :: "libs \<Rightarrow> NormalizedAppEvent \<Rightarrow> json" where
  "event_json L e = JObject [(''schemaVersion'', JNumber (lib_number L (ne_schema_version e))),
     (''providerId'', JString (ne_provider_id e)), (''eventType'', JString (ne_event_type e)),
     (''connectionId'', JString (ne_connection_id e)),
     (''externalEventId'', JString (ne_external_event_id e)),
     (''occurredAt'', JString (ne_occurred_at e)), (''subject'', opt_json (ne_subject e)),
     (''actor'', opt_json (ne_actor e)), (''resourceUrl'', opt_json (ne_resource_url e)),
     (''preview'', opt_json (ne_preview e)), (''attributes'', JObject (ne_attributes e))]"

definition event_text :: "libs \<Rightarrow> NormalizedAppEvent \<Rightarrow> rstring option" where
  "event_text L e = to_text (lib_serde L) (event_json L e)"

definition derive_event_id :: "libs \<Rightarrow> NormalizedAppEvent \<Rightarrow> rstring" where
  "derive_event_id L e = ''derived-'' @ lib_sha256_hex L (unwrap_or [] (to_text (lib_serde L)
     (JObject [(''actor'', opt_json (ne_actor e)), (''attributes'', JObject (ne_attributes e)),
        (''eventType'', JString (ne_event_type e)), (''occurredAt'', JString (ne_occurred_at e)),
        (''providerId'', JString (ne_provider_id e)),
        (''resourceUrl'', opt_json (ne_resource_url e)),
        (''subject'', opt_json (ne_subject e))])))"

definition invalid_event_id :: "libs \<Rightarrow> NormalizedAppEvent \<Rightarrow> rstring" where
  "invalid_event_id L e =
     (if trim (ne_external_event_id e) \<noteq> [] \<and> length (ne_external_event_id e) \<le> 512
      then ne_external_event_id e
      else ''invalid-'' @ lib_sha256_hex L (unwrap_or [] (event_text L e)))"

definition truncation_mark :: rstring where
  "truncation_mark = nl @ ellipsis @ '' (truncated)''"

definition clip_preview :: "rstring \<Rightarrow> rstring" where
  "clip_preview p = (if MAX_APP_EVENT_PREVIEW_CHARS < char_count p
     then take_chars MAX_APP_EVENT_PREVIEW_CHARS p @ truncation_mark else p)"

definition header_invalid ::
  "libs \<Rightarrow> NormalizedAppEvent \<Rightarrow> AppEventDescriptor \<Rightarrow> AppTriggerConfig \<Rightarrow> bool" where
  "header_invalid L e de cf =
     (ne_schema_version e \<noteq> NORMALIZED_APP_EVENT_SCHEMA_VERSION
      \<or> ne_provider_id e \<noteq> de_provider_id de \<or> ne_event_type e \<noteq> de_event_type de
      \<or> ne_connection_id e \<noteq> cf_connection_id cf
      \<or> parse_rfc3339 (lib_chrono L) (ne_occurred_at e) = None
      \<or> (case ne_subject e of Some s \<Rightarrow> 512 < char_count s | None \<Rightarrow> False)
      \<or> (case ne_actor e of Some s \<Rightarrow> 256 < char_count s | None \<Rightarrow> False))"

definition url_invalid :: "libs \<Rightarrow> NormalizedAppEvent \<Rightarrow> bool" where
  "url_invalid L e = (case ne_resource_url e of None \<Rightarrow> False
     | Some u \<Rightarrow> lib_url_scheme L u \<noteq> Some ''https'' \<or> 2048 < length u)"

definition attributes_invalid :: "NormalizedAppEvent \<Rightarrow> AppEventDescriptor \<Rightarrow> bool" where
  "attributes_invalid e de =
     (MAX_EVENT_ATTRIBUTES < length (ne_attributes e)
      \<or> list_ex (\<lambda>kv. fst kv \<notin> set (de_allowed_attribute_keys de) \<or> secret_like_key (fst kv)
           \<or> \<not> safe_attribute_value (snd kv)) (ne_attributes e))"

definition normalize_event ::
  "libs \<Rightarrow> NormalizedAppEvent \<Rightarrow> AppEventDescriptor \<Rightarrow> AppTriggerConfig
    \<Rightarrow> AppEventError + NormalizedAppEvent" where
  "normalize_event L e de cf =
     (if header_invalid L e de cf then Inl (AppEventError_new EventInvalid)
      else if trim (ne_external_event_id e) = [] \<and> de_external_event_id_required de
      then Inl (AppEventError_new EventInvalid)
      else let e1 = (if trim (ne_external_event_id e) = []
                     then e\<lparr>ne_external_event_id := derive_event_id L e\<rparr> else e) in
        if 512 < length (ne_external_event_id e1) then Inl (AppEventError_new EventInvalid)
        else if url_invalid L e1 then Inl (AppEventError_new EventInvalid)
        else let e2 = e1\<lparr>ne_preview := map_option clip_preview (ne_preview e1)\<rparr> in
          if attributes_invalid e2 de then Inl (AppEventError_new EventInvalid)
          else (case event_text L e2 of
                  None \<Rightarrow> Inl (AppEventError_new EventInvalid)
                | Some s \<Rightarrow> if MAX_APP_EVENT_BYTES < length s
                            then Inl (AppEventError_new EventTooLarge) else Inr e2))"

definition event_matches_filters :: "NormalizedAppEvent \<Rightarrow> AppTriggerConfig \<Rightarrow> bool" where
  "event_matches_filters e cf =
     list_all (\<lambda>kv. value_is_empty (snd kv) \<or> map_of (ne_attributes e) (fst kv) = Some (snd kv))
       (cf_filters cf)"

section \<open>Batches\<close>

definition reject ::
  "rstring \<Rightarrow> rstring \<Rightarrow> rstring \<Rightarrow> SyncReport \<Rightarrow> db \<Rightarrow> (AppEventError + SyncReport) \<times> db" where
  "reject t i now rep d =
     (Inr (rep\<lparr>sr_rejected := sr_rejected rep + 1\<rparr>),
      snd (record_rejected_app_event t i (AppEventErrorCode_as_str EventInvalid) now d))"

definition count_outcome :: "RecordAppEventOutcome \<Rightarrow> SyncReport \<Rightarrow> SyncReport" where
  "count_outcome oc rep = (case oc of
      OQueued \<Rightarrow> rep\<lparr>sr_accepted := sr_accepted rep + 1\<rparr>
    | ODuplicate \<Rightarrow> rep\<lparr>sr_duplicates := sr_duplicates rep + 1\<rparr>
    | OBackpressure \<Rightarrow> rep\<lparr>sr_backpressured := True\<rparr>
    | ODroppedOverrun \<Rightarrow> rep\<lparr>sr_dropped_overrun := sr_dropped_overrun rep + 1\<rparr>)"

definition effective_cap :: "AppEventDescriptor \<Rightarrow> nat" where
  "effective_cap de = min (max (de_pending_cap de) 1) (DEFAULT_APP_EVENT_PENDING_CAP * 10)"

definition process_event ::
  "libs \<Rightarrow> AppEventDescriptor \<Rightarrow> rstring \<Rightarrow> AppTriggerConfig \<Rightarrow> CredentialEnvelope \<Rightarrow> bool
    \<Rightarrow> rstring \<Rightarrow> rstring \<Rightarrow> NormalizedAppEvent \<Rightarrow> SyncReport \<Rightarrow> db
    \<Rightarrow> (AppEventError + SyncReport) \<times> db" where
  "process_event L de t cf tokens replayable now qid cand rep d =
     (case normalize_event L cand de cf of
        Inl _ \<Rightarrow> reject t (invalid_event_id L cand) now rep d
      | Inr e \<Rightarrow>
        if \<not> event_matches_filters e cf then (Inr rep, d)
        else (case event_text L e of
            None \<Rightarrow> (Inl (AppEventError_new EventInvalid), d)
          | Some text \<Rightarrow>
            if contains_secret tokens text then reject t (invalid_event_id L cand) now rep d
            else (case record_app_event t (ne_external_event_id e) text replayable
                         (effective_cap de) now qid d of
                (Inl _, d') \<Rightarrow> (Inl (AppEventError_new ProviderUnavailable), d')
              | (Inr oc, d') \<Rightarrow> (Inr (count_outcome oc rep), d'))))"

text \<open>The loop over the batch; \<open>clk i\<close> and \<open>fresh i\<close> are the clock reading and the queue id drawn
  for the \<open>i\<close>-th event.\<close>

fun process_events ::
  "libs \<Rightarrow> AppEventDescriptor \<Rightarrow> rstring \<Rightarrow> AppTriggerConfig \<Rightarrow> CredentialEnvelope \<Rightarrow> bool
    \<Rightarrow> (nat \<Rightarrow> rstring) \<Rightarrow> (nat \<Rightarrow> rstring) \<Rightarrow> nat \<Rightarrow> NormalizedAppEvent list \<Rightarrow> SyncReport \<Rightarrow> db
    \<Rightarrow> (AppEventError + SyncReport) \<times> db" where
  "process_events L de t cf tokens replayable clk fresh i [] rep d = (Inr rep, d)"
| "process_events L de t cf tokens replayable clk fresh i (c # cs) rep d =
     (case process_event L de t cf tokens replayable (clk i) (fresh i) c rep d of
        (Inl e, d') \<Rightarrow> (Inl e, d')
      | (Inr rep', d') \<Rightarrow>
          process_events L de t cf tokens replayable clk fresh (Suc i) cs rep' d')"

record prior =
  prior_cursor :: "rstring option"
  prior_subscription_id :: "rstring option"
  prior_expires_at :: "rstring option"

definition checkpoint_of :: "AppEventBatch \<Rightarrow> prior \<Rightarrow> rstring \<Rightarrow> AppTriggerCheckpointUpdate" where
  "checkpoint_of b p now = \<lparr>cu_cursor = coalesce (ba_cursor b) (prior_cursor p),
     cu_subscription_id = coalesce (ba_subscription_id b) (prior_subscription_id p),
     cu_expires_at = coalesce (ba_expires_at b) (prior_expires_at p), cu_polled_at = now\<rparr>"

definition process_batch_for_trigger ::
  "libs \<Rightarrow> AppEventDescriptor \<Rightarrow> rstring \<Rightarrow> AppTriggerConfig \<Rightarrow> CredentialEnvelope \<Rightarrow> AppEventBatch
    \<Rightarrow> bool \<Rightarrow> prior \<Rightarrow> (nat \<Rightarrow> rstring) \<Rightarrow> (nat \<Rightarrow> rstring) \<Rightarrow> db
    \<Rightarrow> (AppEventError + SyncReport) \<times> db" where
  "process_batch_for_trigger L de t cf tokens b replayable p clk fresh d =
     (case process_events L de t cf tokens replayable clk fresh 0 (ba_events b)
             SyncReport_default d of
        (Inl e, d') \<Rightarrow> (Inl e, d')
      | (Inr rep, d') \<Rightarrow>
          if sr_backpressured rep then (Inr rep, d')
          else let now = clk (length (ba_events b)) in
            (case save_app_trigger_checkpoint t (checkpoint_of b p now) now d' of
               (Inl _, d'') \<Rightarrow> (Inl (AppEventError_new ProviderUnavailable), d'')
             | (Inr _, d'') \<Rightarrow> (Inr rep, d'')))"

section \<open>The registry and a synchronisation\<close>

datatype 'a fut = Ready "AppEventError + 'a" | Elapsed | CancelWins

record adapter =
  ad_poll :: "AppTriggerConfig \<Rightarrow> AppConnection \<Rightarrow> rstring option \<Rightarrow> CredentialEnvelope
                \<Rightarrow> AppEventBatch fut"
  ad_connect :: "AppTriggerConfig \<Rightarrow> AppConnection \<Rightarrow> CredentialEnvelope \<Rightarrow> AppEventBatch fut"
  ad_renew :: "AppTriggerConfig \<Rightarrow> AppConnection \<Rightarrow> rstring option \<Rightarrow> CredentialEnvelope
                \<Rightarrow> AppEventRenewal fut"

record AppEventRegistry =
  rg_events :: "(rstring \<times> (AppEventDescriptor \<times> adapter)) list"
  rg_socket_syncs :: "rstring list"

definition event_key :: "rstring \<Rightarrow> rstring \<Rightarrow> rstring" where
  "event_key provider ty = provider @ [CHR 0x00] @ ty"

definition rg_register ::
  "AppEventDescriptor \<Rightarrow> adapter \<Rightarrow> AppEventRegistry \<Rightarrow> (AppEventError + unit) \<times> AppEventRegistry" where
  "rg_register de ad R =
     (case validate_descriptor de of
        Some e \<Rightarrow> (Inl e, R)
      | None \<Rightarrow>
        let key = event_key (de_provider_id de) (de_event_type de) in
        if key \<in> set (map fst (rg_events R)) then (Inl (AppEventError_new InvalidInput), R)
        else (Inr (), R\<lparr>rg_events := rg_events R @ [(key, (de, ad))]\<rparr>))"

definition registration ::
  "AppEventRegistry \<Rightarrow> rstring \<Rightarrow> rstring \<Rightarrow> AppEventError + AppEventDescriptor \<times> adapter" where
  "registration R provider ty = (case map_of (rg_events R) (event_key provider ty) of
      None \<Rightarrow> Inl (AppEventError_new EventNotFound) | Some x \<Rightarrow> Inr x)"

definition rg_descriptor :: "AppEventRegistry \<Rightarrow> rstring \<Rightarrow> rstring \<Rightarrow> AppEventDescriptor option" where
  "rg_descriptor R provider ty = (case registration R provider ty of
      Inl _ \<Rightarrow> None | Inr x \<Rightarrow> Some (fst x))"

definition rg_descriptors :: "AppEventRegistry \<Rightarrow> rstring option \<Rightarrow> AppEventDescriptor list" where
  "rg_descriptors R provider =
     sort_key (\<lambda>de. (de_provider_id de, de_event_type de))
       (filter (\<lambda>de. provider = None \<or> provider = Some (de_provider_id de))
          (map (fst \<circ> snd) (rg_events R)))"

definition rg_reset :: "AppEventRegistry \<Rightarrow> AppEventRegistry" where
  "rg_reset R = R\<lparr>rg_socket_syncs := []\<rparr>"

definition validate_trigger ::
  "libs \<Rightarrow> AppEventRegistry \<Rightarrow> AppTriggerConfig \<Rightarrow> db \<Rightarrow> AppEventError option" where
  "validate_trigger L R cf d =
     (case registration R (cf_provider_id cf) (cf_event_type cf) of
        Inl e \<Rightarrow> Some e
      | Inr (de, _) \<Rightarrow>
        (case validate_trigger_config cf de of
           Some e \<Rightarrow> Some e
         | None \<Rightarrow> (case load_compatible_connection (lib_serde L) cf de d of
             Inl e \<Rightarrow> Some e | Inr _ \<Rightarrow> None)))"

text \<open>The derived \<^verbatim>\<open>Deserialize\<close> of a trigger configuration.\<close>

definition config_of_json :: "libs \<Rightarrow> json \<Rightarrow> AppTriggerConfig option" where
  "config_of_json L v =
     (case (get_str ''providerId'' v, get_str ''eventType'' v, get_str ''connectionId'' v,
            json_get ''filters'' v, json_get ''descriptorVersion'' v) of
        (Some p, Some ty, Some c, f, Some (JNumber n)) \<Rightarrow>
          (case (f, lib_u16 L n) of
             (None, Some k) \<Rightarrow> Some \<lparr>cf_provider_id = p, cf_event_type = ty,
               cf_connection_id = c, cf_filters = [], cf_descriptor_version = k\<rparr>
           | (Some (JObject kvs), Some k) \<Rightarrow> Some \<lparr>cf_provider_id = p, cf_event_type = ty,
               cf_connection_id = c, cf_filters = kvs, cf_descriptor_version = k\<rparr>
           | _ \<Rightarrow> None)
      | _ \<Rightarrow> None)"

definition socket_key :: "AppTriggerConfig \<Rightarrow> rstring" where
  "socket_key cf = event_key (cf_provider_id cf) (cf_event_type cf) @ [CHR 0x00] @ cf_connection_id cf"

definition renewal_due :: "chrono \<Rightarrow> rstring option \<Rightarrow> int \<Rightarrow> bool" where
  "renewal_due C expires now = (case Option.bind expires (parse_rfc3339 C) of
      Some t \<Rightarrow> t \<le> now + seconds 300 | None \<Rightarrow> False)"

definition renew_step ::
  "libs \<Rightarrow> adapter \<Rightarrow> AppTriggerConfig \<Rightarrow> AppConnection \<Rightarrow> CredentialEnvelope \<Rightarrow> int
    \<Rightarrow> AppTriggerState option \<Rightarrow> AppEventError + rstring option \<times> rstring option" where
  "renew_step L ad cf conn tokens now state =
     (let sub = Option.bind state st_subscription_id; ex = Option.bind state st_expires_at in
      if renewal_due (lib_chrono L) ex now then
        (case ad_renew ad cf conn sub tokens of
           Elapsed \<Rightarrow> Inl (AppEventError_new TimedOut)
         | CancelWins \<Rightarrow> Inl (AppEventError_new EvCancelled)
         | Ready (Inl e) \<Rightarrow> Inl e
         | Ready (Inr r) \<Rightarrow> Inr (coalesce (rn_subscription_id r) sub, coalesce (rn_expires_at r) ex))
      else Inr (sub, ex))"

definition same_feed :: "AppTriggerConfig \<Rightarrow> AppTriggerConfig \<Rightarrow> bool" where
  "same_feed a b = (cf_provider_id a = cf_provider_id b \<and> cf_event_type a = cf_event_type b
     \<and> cf_connection_id a = cf_connection_id b)"

text \<open>One socket batch feeds every enabled trigger of the same feed; \<open>clk k\<close> and \<open>fresh k\<close> are the
  streams of the \<open>k\<close>-th target.\<close>

fun fan_out ::
  "libs \<Rightarrow> AppEventDescriptor \<Rightarrow> AppTriggerConfig \<Rightarrow> CredentialEnvelope \<Rightarrow> AppEventBatch \<Rightarrow> rstring
    \<Rightarrow> (nat \<Rightarrow> nat \<Rightarrow> rstring) \<Rightarrow> (nat \<Rightarrow> nat \<Rightarrow> rstring) \<Rightarrow> nat \<Rightarrow> Trigger list \<Rightarrow> SyncReport \<Rightarrow> db
    \<Rightarrow> (AppEventError + SyncReport) \<times> db" where
  "fan_out L de cf tokens b tid clk fresh k [] rep d = (Inr rep, d)"
| "fan_out L de cf tokens b tid clk fresh k (g # gs) rep d =
     (case config_of_json L (t_config g) of
        None \<Rightarrow> fan_out L de cf tokens b tid clk fresh (Suc k) gs rep d
      | Some gcf \<Rightarrow>
        if \<not> same_feed gcf cf then fan_out L de cf tokens b tid clk fresh (Suc k) gs rep d
        else (case process_batch_for_trigger L de (t_id g) gcf tokens b False
                    \<lparr>prior_cursor = None,
                     prior_subscription_id = coalesce (ba_subscription_id b) (Some ''socket_mode''),
                     prior_expires_at = ba_expires_at b\<rparr> (clk k) (fresh k) d of
                (Inl e, d') \<Rightarrow> (Inl e, d')
              | (Inr r, d') \<Rightarrow> fan_out L de cf tokens b tid clk fresh (Suc k) gs
                   (if t_id g = tid then r else rep) d'))"

text \<open>What happens after the adapter answered.\<close>

definition sync_commit ::
  "libs \<Rightarrow> AppEventDescriptor \<Rightarrow> AppTriggerConfig \<Rightarrow> AppConnection \<Rightarrow> CredentialEnvelope \<Rightarrow> Trigger
    \<Rightarrow> bool \<Rightarrow> prior \<Rightarrow> AppEventBatch fut \<Rightarrow> bool \<Rightarrow> (nat \<Rightarrow> nat \<Rightarrow> rstring)
    \<Rightarrow> (nat \<Rightarrow> nat \<Rightarrow> rstring) \<Rightarrow> db \<Rightarrow> (AppEventError + SyncReport) \<times> db" where
  "sync_commit L de cf conn tokens trig replayable p answer cancelled clk fresh d =
     (case answer of
        Elapsed \<Rightarrow> (Inl (AppEventError_new TimedOut), d)
      | CancelWins \<Rightarrow> (Inl (AppEventError_new EvCancelled), d)
      | Ready (Inl e) \<Rightarrow> (Inl e,
          if ee_code e = ProviderUnauthorized
          then snd (set_app_connection_refresh_state (ac_id conn) Error (ac_expires_at conn)
                 (Some (AppEventErrorCode_as_str (ee_code e))) (clk 0 0) d)
          else d)
      | Ready (Inr b) \<Rightarrow>
          if cancelled then (Inl (AppEventError_new EvCancelled), d)
          else if replayable
          then process_batch_for_trigger L de (t_id trig) cf tokens b True p (clk 0) (fresh 0) d
          else fan_out L de cf tokens b (t_id trig) clk fresh 0
                 (list_enabled_triggers (lib_serde L) (Some ''app'') d) SyncReport_default d)"

definition replayable_feed :: "AppEventDescriptor \<Rightarrow> bool" where
  "replayable_feed de = (Polling \<in> set (de_delivery_modes de))"

text \<open>Everything before the adapter call: \<open>Inl\<close> is an early return.\<close>

definition sync_setup ::
  "libs \<Rightarrow> AppEventRegistry \<Rightarrow> (rstring \<Rightarrow> TokenStoreError + CredentialEnvelope) \<Rightarrow> Trigger \<Rightarrow> bool
    \<Rightarrow> int \<Rightarrow> db \<Rightarrow> (AppEventError + SyncReport)
        + (AppEventDescriptor \<times> adapter \<times> AppTriggerConfig \<times> AppConnection \<times> CredentialEnvelope
            \<times> prior)" where
  "sync_setup L R store trig cancelled now d =
     (if cancelled then Inl (Inl (AppEventError_new EvCancelled))
      else case config_of_json L (t_config trig) of
        None \<Rightarrow> Inl (Inl (AppEventError_new InvalidInput))
      | Some cf \<Rightarrow>
        (case registration R (cf_provider_id cf) (cf_event_type cf) of
           Inl e \<Rightarrow> Inl (Inl e)
         | Inr (de, ad) \<Rightarrow>
           (case validate_trigger_config cf de of
              Some e \<Rightarrow> Inl (Inl e)
            | None \<Rightarrow>
              (case load_compatible_connection (lib_serde L) cf de d of
                 Inl e \<Rightarrow> Inl (Inl e)
               | Inr conn \<Rightarrow>
                 if \<not> replayable_feed de \<and> socket_key cf \<in> set (rg_socket_syncs R)
                 then Inl (Inr SyncReport_default)
                 else (case load_tokens store conn of
                     Inl e \<Rightarrow> Inl (Inl e)
                   | Inr tokens \<Rightarrow>
                     (let state = get_app_trigger_state (t_id trig) d in
                      case renew_step L ad cf conn tokens now state of
                        Inl e \<Rightarrow> Inl (Inl e)
                      | Inr (sub, ex) \<Rightarrow> Inr (de, ad, cf, conn, tokens,
                          \<lparr>prior_cursor = Option.bind state st_cursor,
                           prior_subscription_id = sub, prior_expires_at = ex\<rparr>)))))))"

text \<open>A whole synchronisation. The socket guard is held from its acquisition to the return and
  released on every path, so the registry is unchanged at the end; \<open>meanwhile\<close> is what other
  tasks did to the database during the awaited calls.\<close>

definition sync_trigger_cancellable ::
  "libs \<Rightarrow> AppEventRegistry \<Rightarrow> (rstring \<Rightarrow> TokenStoreError + CredentialEnvelope) \<Rightarrow> Trigger
    \<Rightarrow> bool \<Rightarrow> bool \<Rightarrow> int \<Rightarrow> (db \<Rightarrow> db) \<Rightarrow> (nat \<Rightarrow> nat \<Rightarrow> rstring) \<Rightarrow> (nat \<Rightarrow> nat \<Rightarrow> rstring)
    \<Rightarrow> db \<Rightarrow> (AppEventError + SyncReport) \<times> db" where
  "sync_trigger_cancellable L R store trig cancelled0 cancelled1 now meanwhile clk fresh d =
     (case sync_setup L R store trig cancelled0 now d of
        Inl early \<Rightarrow> (early, d)
      | Inr (de, ad, cf, conn, tokens, p) \<Rightarrow>
        sync_commit L de cf conn tokens trig (replayable_feed de) p
          (if replayable_feed de then ad_poll ad cf conn (prior_cursor p) tokens
           else ad_connect ad cf conn tokens)
          cancelled1 clk fresh (meanwhile d))"

section \<open>Retry deadlines\<close>

text \<open>\<open>jitter n\<close> is the random draw from \<open>0..=n\<close>. Nothing here exceeds 64 bits: the base is at most
  5 * 2^8 before it is capped.\<close>

definition retry_delay_seconds :: "AppEventError \<Rightarrow> nat \<Rightarrow> (nat \<Rightarrow> nat) \<Rightarrow> nat" where
  "retry_delay_seconds e retry_count jitter =
     (case ee_retry_after_seconds e of
        Some s \<Rightarrow> s
      | None \<Rightarrow> let base = min (5 * 2 ^ min retry_count 8) 900
               in min (base + jitter (base div 4)) 900)"

definition next_retry_at ::
  "chrono \<Rightarrow> AppEventError \<Rightarrow> nat \<Rightarrow> (nat \<Rightarrow> nat) \<Rightarrow> int \<Rightarrow> rstring" where
  "next_retry_at C e retry_count jitter now =
     to_rfc3339 C (now + seconds (int (retry_delay_seconds e retry_count jitter)))"

section \<open>Normalised events\<close>

lemma normalize_event_Inr:
  assumes "normalize_event L c de cf = Inr e"
  obtains s where "event_text L e = Some s" "length s \<le> MAX_APP_EVENT_BYTES"
    "\<not> attributes_invalid e de" "length (ne_external_event_id e) \<le> 512"
    "ne_preview e = map_option clip_preview (ne_preview c)"
    "trim (ne_external_event_id c) \<noteq> [] \<Longrightarrow> ne_external_event_id e = ne_external_event_id c"
  using assms
  by (auto simp: normalize_event_def Let_def split: if_splits option.splits)

lemma truncation_mark_count: "char_count truncation_mark = 14" "\<not> is_cont (hd truncation_mark)"
  by (simp_all add: truncation_mark_def char_count_def nl_def ellipsis_def is_cont_def)

lemma clip_preview_count: "char_count (clip_preview p) \<le> MAX_APP_EVENT_PREVIEW_CHARS + 14"
  by (simp add: clip_preview_def char_count_append truncation_mark_count char_count_take_chars)

section \<open>Batches keep the delivery invariant\<close>

lemma process_event_inv:
  assumes "ev_inv d"
  shows "ev_inv (snd (process_event L de t cf tokens replayable now qid c rep d))"
proof -
  have rej: "ev_inv (snd (reject t i now rep d))" for i
    using assms by (simp add: reject_def record_rejected_app_event_inv)
  have "ev_inv d'" if "record_app_event t i tx replayable cap now qid d = (r, d')" for i tx cap r d'
    using record_app_event_inv [OF assms, of t i tx replayable cap now qid] that by simp
  with assms rej show ?thesis
    by (simp add: process_event_def split: sum.split option.split prod.split)
qed

lemma process_events_inv:
  "ev_inv d \<Longrightarrow> ev_inv (snd (process_events L de t cf tokens replayable clk fresh i cs rep d))"
proof (induction cs arbitrary: i rep d)
  case (Cons c cs)
  have "ev_inv (snd (process_event L de t cf tokens replayable (clk i) (fresh i) c rep d))"
    using Cons.prems by (rule process_event_inv)
  with Cons.IH show ?case by (auto split: prod.split sum.split)
qed simp

lemma process_batch_inv:
  assumes "ev_inv d"
  shows "ev_inv (snd (process_batch_for_trigger L de t cf tokens b replayable p clk fresh d))"
proof -
  let ?r = "process_events L de t cf tokens replayable clk fresh 0 (ba_events b) SyncReport_default d"
  have "ev_inv (snd ?r)" using assms by (rule process_events_inv)
  moreover have "ev_inv (snd (save_app_trigger_checkpoint t u now (snd ?r)))" for u now
    using calculation by (rule save_app_trigger_checkpoint_inv)
  ultimately show ?thesis
    unfolding process_batch_for_trigger_def
    by (cases ?r) (auto simp: Let_def split: sum.split prod.split, (metis snd_conv)+)
qed

lemma fan_out_inv:
  "ev_inv d \<Longrightarrow> ev_inv (snd (fan_out L de cf tokens b tid clk fresh k gs rep d))"
proof (induction gs arbitrary: k rep d)
  case (Cons g gs)
  have "ev_inv (snd (process_batch_for_trigger L de (t_id g) gcf tokens b False p (clk k) (fresh k) d))"
    for gcf p using Cons.prems by (rule process_batch_inv)
  with Cons show ?case
    by (auto split: option.split prod.split sum.split, (metis snd_conv)+)
qed simp

lemma sync_trigger_inv:
  assumes "ev_inv d" and "ev_inv (meanwhile d)"
  shows "ev_inv (snd (sync_trigger_cancellable L R store trig c0 c1 now meanwhile clk fresh d))"
proof -
  have "ev_inv (snd (sync_commit L de cf conn tokens trig re p ans c1 clk fresh (meanwhile d)))"
    for de cf conn tokens re p ans
    using assms(2) by (simp add: sync_commit_def process_batch_inv fan_out_inv
        set_app_connection_refresh_state_inv split: fut.split sum.split)
  with assms(1) show ?thesis
    by (simp add: sync_trigger_cancellable_def split: sum.split prod.split)
qed

section \<open>Every event of a committed batch has a receipt\<close>

text \<open>The receipt an event of a batch ends up with, if it is not filtered out.\<close>

definition event_receipt_id ::
  "libs \<Rightarrow> AppEventDescriptor \<Rightarrow> AppTriggerConfig \<Rightarrow> CredentialEnvelope \<Rightarrow> NormalizedAppEvent
    \<Rightarrow> rstring option" where
  "event_receipt_id L de cf tokens c =
     (case normalize_event L c de cf of
        Inl _ \<Rightarrow> Some (invalid_event_id L c)
      | Inr e \<Rightarrow> if \<not> event_matches_filters e cf then None
         else (case event_text L e of None \<Rightarrow> None
           | Some tx \<Rightarrow> Some (if contains_secret tokens tx then invalid_event_id L c
                                else ne_external_event_id e)))"

lemma receipt_keys_append [simp]:
  "receipt_keys (d\<lparr>app_event_receipts := app_event_receipts d @ [r]\<rparr>) = insert (rc_key r) (receipt_keys d)"
  "receipt_keys (d\<lparr>app_event_queue := Q\<rparr>) = receipt_keys d"
  "receipt_keys (d\<lparr>app_trigger_state := S\<rparr>) = receipt_keys d"
  by (auto simp: receipt_keys_def)

lemma mk_receipt_key [simp]: "rc_key (mk_receipt t e now disp reason) = (t, e)"
  by (simp add: mk_receipt_def)

lemma record_app_event_keys_aux:
  fixes t e payload re cap now qid d
  shows "receipt_keys d \<subseteq> receipt_keys (snd (record_app_event t e payload re cap now qid d))"
    and "(\<exists>x. fst (record_app_event t e payload re cap now qid d) = Inl x)
       \<or> fst (record_app_event t e payload re cap now qid d) = Inr OBackpressure
       \<or> (t, e) \<in> receipt_keys (snd (record_app_event t e payload re cap now qid d))"
    and "triggers (snd (record_app_event t e payload re cap now qid d)) = triggers d"
  by (rule record_app_event_cases [of t e payload re cap now qid d];
      simp only: fst_conv snd_conv;
      simp add: receipt_keys_def mk_receipt_def subset_insertI)+

lemma record_app_event_keys:
  assumes "record_app_event t e payload re cap now qid d = (res, d')"
  shows "receipt_keys d \<subseteq> receipt_keys d'"
    and "res = Inr oc \<Longrightarrow> oc \<noteq> OBackpressure \<Longrightarrow> (t, e) \<in> receipt_keys d'"
    and "triggers d' = triggers d"
  using record_app_event_keys_aux [where t = t and e = e and payload = payload and re = re
      and cap = cap and now = now and qid = qid and d = d] unfolding assms by auto

lemma record_rejected_keys:
  shows "receipt_keys d \<subseteq> receipt_keys (snd (record_rejected_app_event t e reason now d))"
    and "trigger_exists t d \<Longrightarrow> (t, e) \<in> receipt_keys (snd (record_rejected_app_event t e reason now d))"
    and "triggers (snd (record_rejected_app_event t e reason now d)) = triggers d"
  by (auto simp: record_rejected_app_event_def insert_receipt_def receipt_keys_def mk_receipt_def
      split: sum.split)

lemma process_event_cases [case_names rejected filtered recorded]:
  obtains i where "process_event L de t cf tokens re now qid c rep d = reject t i now rep d"
      "event_receipt_id L de cf tokens c = Some i"
  | "process_event L de t cf tokens re now qid c rep d = (Inr rep, d)"
      "event_receipt_id L de cf tokens c = None"
  | e tx r d' where "normalize_event L c de cf = Inr e" "event_text L e = Some tx"
      "\<not> contains_secret tokens tx" "length tx \<le> MAX_APP_EVENT_BYTES"
      "event_receipt_id L de cf tokens c = Some (ne_external_event_id e)"
      "record_app_event t (ne_external_event_id e) tx re (effective_cap de) now qid d = (r, d')"
      "process_event L de t cf tokens re now qid c rep d =
         (case r of Inl _ \<Rightarrow> Inl (AppEventError_new ProviderUnavailable)
            | Inr oc \<Rightarrow> Inr (count_outcome oc rep), d')"
proof (cases "normalize_event L c de cf")
  case (Inl err)
  then show thesis using that(1) by (simp add: process_event_def event_receipt_id_def)
next
  case (Inr e)
  from Inr obtain tx where tx: "event_text L e = Some tx" "length tx \<le> MAX_APP_EVENT_BYTES"
    by (rule normalize_event_Inr)
  show thesis
  proof (cases "event_matches_filters e cf")
    case False
    then show thesis using Inr that(2) by (simp add: process_event_def event_receipt_id_def)
  next
    case match: True
    show thesis
    proof (cases "contains_secret tokens tx")
      case True
      then show thesis using Inr match tx that(1)
        by (simp add: process_event_def event_receipt_id_def)
    next
      case False
      obtain r d' where r: "record_app_event t (ne_external_event_id e) tx re (effective_cap de)
          now qid d = (r, d')" by (metis prod.exhaust)
      show thesis
      proof (rule that(3) [OF Inr tx(1) False tx(2) _ r])
        show "event_receipt_id L de cf tokens c = Some (ne_external_event_id e)"
          using Inr match tx False by (simp add: event_receipt_id_def)
        show "process_event L de t cf tokens re now qid c rep d =
         (case r of Inl _ \<Rightarrow> Inl (AppEventError_new ProviderUnavailable)
            | Inr oc \<Rightarrow> Inr (count_outcome oc rep), d')"
          using Inr match tx False r by (cases r) (simp_all add: process_event_def)
      qed
    qed
  qed
qed

lemma count_outcome_backpressured:
  "sr_backpressured (count_outcome oc rep) = (sr_backpressured rep \<or> oc = OBackpressure)"
  by (cases oc) (simp_all add: count_outcome_def)

lemma process_event_step:
  assumes "process_event L de t cf tokens re now qid c rep d = (res, d')"
  shows "receipt_keys d \<subseteq> receipt_keys d'" and "triggers d' = triggers d"
    and "res = Inr rep' \<Longrightarrow> sr_backpressured rep \<Longrightarrow> sr_backpressured rep'"
    and "res = Inr rep' \<Longrightarrow> \<not> sr_backpressured rep' \<Longrightarrow> trigger_exists t d
       \<Longrightarrow> event_receipt_id L de cf tokens c = Some i \<Longrightarrow> (t, i) \<in> receipt_keys d'"
proof -
  have "receipt_keys d \<subseteq> receipt_keys d' \<and> triggers d' = triggers d
      \<and> (\<forall>rep'. res = Inr rep' \<longrightarrow> (sr_backpressured rep \<longrightarrow> sr_backpressured rep')
          \<and> (\<not> sr_backpressured rep' \<longrightarrow> trigger_exists t d
               \<longrightarrow> (\<forall>i. event_receipt_id L de cf tokens c = Some i \<longrightarrow> (t, i) \<in> receipt_keys d')))"
  proof (cases rule: process_event_cases [of L de t cf tokens re now qid c rep d])
    case (rejected i)
    then have "d' = snd (record_rejected_app_event t i (AppEventErrorCode_as_str EventInvalid) now d)"
      "res = Inr (rep\<lparr>sr_rejected := sr_rejected rep + 1\<rparr>)"
      using assms by (simp_all add: reject_def)
    with rejected show ?thesis using record_rejected_keys by auto
  next
    case filtered
    with assms show ?thesis by auto
  next
    case (recorded e tx r d'')
    then have "d' = d''" and res: "res = (case r of Inl _ \<Rightarrow> Inl (AppEventError_new ProviderUnavailable)
            | Inr oc \<Rightarrow> Inr (count_outcome oc rep))" using assms by simp_all
    with record_app_event_keys [OF recorded(6)] recorded(5) show ?thesis
      by (auto simp: count_outcome_backpressured split: sum.splits)
  qed
  then show "receipt_keys d \<subseteq> receipt_keys d'" "triggers d' = triggers d"
    "res = Inr rep' \<Longrightarrow> sr_backpressured rep \<Longrightarrow> sr_backpressured rep'"
    "res = Inr rep' \<Longrightarrow> \<not> sr_backpressured rep' \<Longrightarrow> trigger_exists t d
       \<Longrightarrow> event_receipt_id L de cf tokens c = Some i \<Longrightarrow> (t, i) \<in> receipt_keys d'"
    by blast+
qed

lemma process_events_frame:
  assumes "process_events L de t cf tokens re clk fresh k cs rep d = (res, d')"
  shows "receipt_keys d \<subseteq> receipt_keys d' \<and> triggers d' = triggers d"
  using assms
proof (induction cs arbitrary: k rep d)
  case (Cons x xs)
  obtain r d1 where p: "process_event L de t cf tokens re (clk k) (fresh k) x rep d = (r, d1)"
    by (metis prod.exhaust)
  note one = process_event_step(1,2) [OF p]
  show ?case
  proof (cases r)
    case (Inl e)
    with Cons.prems p one show ?thesis by simp
  next
    case (Inr r1)
    with Cons.prems p have "process_events L de t cf tokens re clk fresh (Suc k) xs r1 d1 = (res, d')"
      by simp
    from Cons.IH [OF this] one show ?thesis by auto
  qed
qed simp

lemma process_events_receipts:
  assumes "process_events L de t cf tokens re clk fresh k cs rep d = (Inr rep', d')"
    and "\<not> sr_backpressured rep'"
  shows "\<not> sr_backpressured rep \<and> (trigger_exists t d \<longrightarrow>
     (\<forall>c \<in> set cs. \<forall>i. event_receipt_id L de cf tokens c = Some i \<longrightarrow> (t, i) \<in> receipt_keys d'))"
  using assms
proof (induction cs arbitrary: k rep d)
  case (Cons x xs)
  obtain r d1 where p: "process_event L de t cf tokens re (clk k) (fresh k) x rep d = (Inr r, d1)"
    and rest: "process_events L de t cf tokens re clk fresh (Suc k) xs r d1 = (Inr rep', d')"
    using Cons.prems by (auto split: prod.splits sum.splits)
  note IH = Cons.IH [OF rest Cons.prems(2)]
  have tr: "trigger_exists t d1 = trigger_exists t d"
    using process_event_step(2) [OF p] by (simp add: trigger_exists_def)
  have "\<not> sr_backpressured rep" using IH process_event_step(3) [OF p refl] by blast
  moreover have "(t, i) \<in> receipt_keys d'"
    if "trigger_exists t d" "event_receipt_id L de cf tokens x = Some i" for i
    using process_event_step(4) [OF p refl _ that] IH process_events_frame [OF rest] by blast
  ultimately show ?case using IH tr by simp
qed simp

lemma process_batch_Inr:
  assumes "process_batch_for_trigger L de t cf tokens b re p clk fresh d = (Inr rep, d')"
  obtains d1 where "process_events L de t cf tokens re clk fresh 0 (ba_events b)
      SyncReport_default d = (Inr rep, d1)"
    "receipt_keys d' = receipt_keys d1" "app_event_queue d' = app_event_queue d1"
    "sr_backpressured rep \<Longrightarrow> d' = d1"
proof -
  obtain r d1 where r: "process_events L de t cf tokens re clk fresh 0 (ba_events b)
      SyncReport_default d = (r, d1)" by (metis prod.exhaust)
  with assms obtain rep1 where r1: "r = Inr rep1"
    by (cases r) (simp_all add: process_batch_for_trigger_def)
  show thesis
  proof (cases "sr_backpressured rep1")
    case True
    then have "rep1 = rep" "d1 = d'"
      using assms r r1 by (simp_all add: process_batch_for_trigger_def)
    then show thesis using that r r1 by blast
  next
    case False
    let ?now = "clk (length (ba_events b))"
    have s: "rep1 = rep \<and> (Inr (), d') = save_app_trigger_checkpoint t (checkpoint_of b p ?now) ?now d1"
      using assms r r1 False
      by (auto simp: process_batch_for_trigger_def Let_def split: prod.splits sum.splits)
    then obtain S where "d' = d1\<lparr>app_trigger_state := S\<rparr>"
      unfolding save_app_trigger_checkpoint_def lift_db_def
      by (auto split: sum.splits dest: upsert_state_frame)
    with s r r1 False that show thesis by simp
  qed
qed

section \<open>Queue growth, redelivery\<close>

definition queue_step ::
  "AppEventDescriptor \<Rightarrow> rstring \<Rightarrow> CredentialEnvelope \<Rightarrow> db \<Rightarrow> db \<Rightarrow> bool" where
  "queue_step de t tokens d d' = (app_event_queue d' = app_event_queue d
     \<or> (\<exists>q. app_event_queue d' = app_event_queue d @ [q] \<and> q_trigger q = t
          \<and> \<not> contains_secret tokens (q_json q) \<and> length (q_json q) \<le> MAX_APP_EVENT_BYTES
          \<and> pending_count t d < effective_cap de))"

lemma effective_cap_pos: "max (effective_cap de) (Suc 0) = effective_cap de"
  by (simp add: effective_cap_def DEFAULT_APP_EVENT_PENDING_CAP_def)

lemma record_app_event_effect:
  fixes t e payload re cap now qid d
  defines "r \<equiv> record_app_event t e payload re cap now qid d"
  shows "app_event_queue (snd r) = app_event_queue d
      \<or> (pending_count t d < max cap 1 \<and> app_event_queue (snd r) = app_event_queue d @
          [\<lparr>q_id = qid, q_trigger = t, q_event = e, q_json = payload, q_enqueued = now\<rparr>])"
    and "re \<Longrightarrow> app_trigger_state (snd r) = app_trigger_state d"
    and "(t, e) \<in> receipt_keys d \<Longrightarrow> r = (Inr ODuplicate, d)"
proof -
  show "app_event_queue (snd r) = app_event_queue d
      \<or> (pending_count t d < max cap 1 \<and> app_event_queue (snd r) = app_event_queue d @
          [\<lparr>q_id = qid, q_trigger = t, q_event = e, q_json = payload, q_enqueued = now\<rparr>])"
    unfolding r_def
    by (rule record_app_event_cases [of t e payload re cap now qid d]; simp only: snd_conv; simp)
  show "re \<Longrightarrow> app_trigger_state (snd r) = app_trigger_state d"
    unfolding r_def
    by (rule record_app_event_cases [of t e payload re cap now qid d]; simp only: snd_conv; simp)
  show "(t, e) \<in> receipt_keys d \<Longrightarrow> r = (Inr ODuplicate, d)"
    unfolding r_def by (simp add: record_app_event_def receipt_keys_def)
qed

lemma record_rejected_effect:
  "app_event_queue (snd (record_rejected_app_event t e reason now d)) = app_event_queue d"
  "app_trigger_state (snd (record_rejected_app_event t e reason now d)) = app_trigger_state d"
  by (simp_all add: record_rejected_app_event_def insert_receipt_def split: sum.split)

lemma process_event_effect:
  fixes L de t cf tokens re now qid c rep d
  defines "r \<equiv> process_event L de t cf tokens re now qid c rep d"
  shows "queue_step de t tokens d (snd r) \<and> (app_trigger_state (snd r) = app_trigger_state d \<or> \<not> re)"
proof (cases rule: process_event_cases [of L de t cf tokens re now qid c rep d])
  case (rejected i)
  then show ?thesis by (simp add: r_def reject_def queue_step_def record_rejected_effect)
next
  case filtered
  then show ?thesis by (simp add: r_def queue_step_def)
next
  case (recorded e tx res d')
  have "snd r = snd (record_app_event t (ne_external_event_id e) tx re (effective_cap de) now qid d)"
    using recorded(6,7) by (simp add: r_def)
  then show ?thesis
    using record_app_event_effect(1,2) [where t = t and d = d and e = "ne_external_event_id e"
        and payload = tx and re = re and cap = "effective_cap de" and now = now and qid = qid]
      recorded(3,4) by (auto simp: queue_step_def effective_cap_pos)
qed

lemma process_events_queue:
  assumes "process_events L de t cf tokens re clk fresh k cs rep d = (res, d')"
  shows "(\<forall>q \<in> set (app_event_queue d'). q \<in> set (app_event_queue d)
       \<or> (\<not> contains_secret tokens (q_json q) \<and> length (q_json q) \<le> MAX_APP_EVENT_BYTES))
     \<and> pending_count t d' \<le> max (pending_count t d) (effective_cap de)
     \<and> (app_trigger_state d' = app_trigger_state d \<or> \<not> re)"
  using assms
proof (induction cs arbitrary: k rep d)
  case (Cons x xs)
  obtain r d1 where p: "process_event L de t cf tokens re (clk k) (fresh k) x rep d = (r, d1)"
    by (metis prod.exhaust)
  have st: "queue_step de t tokens d d1" "app_trigger_state d1 = app_trigger_state d \<or> \<not> re"
    using process_event_effect [of de t tokens d L cf re "clk k" "fresh k" x rep] unfolding p by simp_all
  have one: "(\<forall>q \<in> set (app_event_queue d1). q \<in> set (app_event_queue d)
       \<or> (\<not> contains_secret tokens (q_json q) \<and> length (q_json q) \<le> MAX_APP_EVENT_BYTES))
     \<and> pending_count t d1 \<le> max (pending_count t d) (effective_cap de)"
    using st(1) unfolding queue_step_def pending_count_def by auto
  show ?case
  proof (cases r)
    case (Inl e)
    with Cons.prems p have "d' = d1" by simp
    with one st show ?thesis by simp
  next
    case (Inr r1)
    with Cons.prems p have "process_events L de t cf tokens re clk fresh (Suc k) xs r1 d1 = (res, d')"
      by simp
    note IH = Cons.IH [OF this]
    have "pending_count t d' \<le> max (pending_count t d) (effective_cap de)" using IH one by linarith
    with IH one st show ?thesis by auto
  qed
qed simp

text \<open>An event whose receipt is there changes nothing but two counters.\<close>

lemma process_event_seen:
  assumes "\<And>i. event_receipt_id L de cf tokens c = Some i \<Longrightarrow> (t, i) \<in> receipt_keys d"
  shows "\<exists>rep'. process_event L de t cf tokens re now qid c rep d = (Inr rep', d)
     \<and> sr_accepted rep' = sr_accepted rep \<and> sr_dropped_overrun rep' = sr_dropped_overrun rep
     \<and> sr_backpressured rep' = sr_backpressured rep"
proof (cases rule: process_event_cases [of L de t cf tokens re now qid c rep d])
  case (rejected i)
  then have "(t, i) \<in> set (map rc_key (app_event_receipts d))"
    using assms by (simp add: receipt_keys_def)
  with rejected show ?thesis by (simp add: reject_def record_rejected_app_event_def)
next
  case filtered
  then show ?thesis by simp
next
  case (recorded e tx res d')
  have "(t, ne_external_event_id e) \<in> receipt_keys d" using assms recorded(5) by blast
  then have "res = Inr ODuplicate" "d' = d"
    using record_app_event_effect(3) [where t = t and d = d and e = "ne_external_event_id e"
        and payload = tx and re = re and cap = "effective_cap de" and now = now and qid = qid]
      recorded(6) by simp_all
  with recorded(7) show ?thesis by (simp add: count_outcome_def)
qed

lemma process_events_seen:
  assumes "\<And>c i. c \<in> set cs \<Longrightarrow> event_receipt_id L de cf tokens c = Some i \<Longrightarrow> (t, i) \<in> receipt_keys d"
  shows "\<exists>rep'. process_events L de t cf tokens re clk fresh k cs rep d = (Inr rep', d)
     \<and> sr_accepted rep' = sr_accepted rep \<and> sr_dropped_overrun rep' = sr_dropped_overrun rep
     \<and> sr_backpressured rep' = sr_backpressured rep"
  using assms
proof (induction cs arbitrary: k rep)
  case (Cons c cs)
  obtain r where r: "process_event L de t cf tokens re (clk k) (fresh k) c rep d = (Inr r, d)"
    "sr_accepted r = sr_accepted rep" "sr_dropped_overrun r = sr_dropped_overrun rep"
    "sr_backpressured r = sr_backpressured rep"
    using process_event_seen [of L de cf tokens c t d re "clk k" "fresh k" rep] Cons.prems by auto
  obtain r' where "process_events L de t cf tokens re clk fresh (Suc k) cs r d = (Inr r', d)"
    "sr_accepted r' = sr_accepted r" "sr_dropped_overrun r' = sr_dropped_overrun r"
    "sr_backpressured r' = sr_backpressured r"
    using Cons.IH [of "Suc k" r] Cons.prems by auto
  with r show ?case by simp
qed simp

section \<open>A sample feed\<close>

text \<open>A trigger with a cap of one event, used to instantiate the properties: the printer prints
  every event as the same text, every time stamp parses.\<close>

definition ex_libs :: libs where
  "ex_libs = \<lparr>lib_serde = \<lparr>to_text = (\<lambda>v. Some (''event'')), from_text = (\<lambda>_. None)\<rparr>,
     lib_chrono = \<lparr>parse_rfc3339 = (\<lambda>s. if s = [] then None else Some 0), to_rfc3339 = (\<lambda>_. ''2026'')\<rparr>,
     lib_url_scheme = (\<lambda>_. Some ''https''), lib_sha256_hex = (\<lambda>_. ''00''),
     lib_u16 = (\<lambda>_. Some 1), lib_number = (\<lambda>_. ''1'')\<rparr>"

definition ex_desc :: AppEventDescriptor where
  "ex_desc = \<lparr>de_provider_id = ''gh'', de_event_type = ''push'', de_label = ''Push'',
     de_required_scopes = [], de_delivery_modes = [Polling], de_filter_fields = [],
     de_descriptor_version = 1, de_external_event_id_required = True,
     de_allowed_attribute_keys = [], de_poll_interval_seconds = 60, de_pending_cap = 1\<rparr>"

definition ex_conf :: AppTriggerConfig where
  "ex_conf = \<lparr>cf_provider_id = ''gh'', cf_event_type = ''push'', cf_connection_id = ''c'',
     cf_filters = [], cf_descriptor_version = 1\<rparr>"

definition ex_tokens :: CredentialEnvelope where
  "ex_tokens = \<lparr>ce_access_token = ''secret-token'', ce_refresh_token = None, ce_provider_fields = []\<rparr>"

definition ex_event :: "rstring \<Rightarrow> NormalizedAppEvent" where
  "ex_event i = \<lparr>ne_schema_version = 1, ne_provider_id = ''gh'', ne_event_type = ''push'',
     ne_connection_id = ''c'', ne_external_event_id = i, ne_occurred_at = ''now'',
     ne_subject = None, ne_actor = None, ne_resource_url = None, ne_preview = None,
     ne_attributes = []\<rparr>"

definition ex_batch :: "rstring list \<Rightarrow> AppEventBatch" where
  "ex_batch ids = \<lparr>ba_events = map ex_event ids, ba_cursor = Some ''7'', ba_subscription_id = None,
     ba_expires_at = None\<rparr>"

definition ex_prior :: prior where
  "ex_prior = \<lparr>prior_cursor = None, prior_subscription_id = None, prior_expires_at = None\<rparr>"

definition ex_db :: db where
  "ex_db = empty_db\<lparr>triggers := [\<lparr>tr_id = ''t'', tr_workflow = ''w'', tr_source = ''app'',
     tr_label = [], tr_config_json = [], tr_secret = None, tr_enabled = True, tr_last_fired = None,
     tr_created = ''1'', tr_updated = ''1''\<rparr>]\<rparr>"

abbreviation ex_sync :: "rstring list \<Rightarrow> (AppEventError + SyncReport) \<times> db" where
  "ex_sync ids \<equiv> process_batch_for_trigger ex_libs ex_desc ''t'' ex_conf ex_tokens (ex_batch ids)
     True ex_prior (\<lambda>_. ''2026'') (\<lambda>i. ''q'') ex_db"

lemmas ex_defs = ex_libs_def ex_desc_def ex_conf_def ex_tokens_def ex_event_def ex_batch_def
  ex_prior_def ex_db_def empty_db_def

lemma ex_norm: "normalize_event ex_libs (ex_event ''e1'') ex_desc ex_conf = Inr (ex_event ''e1'')"
  by (simp add: normalize_event_def header_invalid_def url_invalid_def attributes_invalid_def
     event_text_def event_json_def ex_defs NORMALIZED_APP_EVENT_SCHEMA_VERSION_def MAX_APP_EVENT_BYTES_def
     trim_def trim_start_def trim_end_def is_ws_def is_cont_def Let_def)

lemma ex_secret: "\<not> contains_secret ex_tokens ''event''"
  by (simp add: contains_secret_def ex_tokens_def)

lemma ex_norm2: "normalize_event ex_libs (ex_event ''e2'') ex_desc ex_conf = Inr (ex_event ''e2'')"
  by (simp add: normalize_event_def header_invalid_def url_invalid_def attributes_invalid_def
     event_text_def event_json_def ex_defs NORMALIZED_APP_EVENT_SCHEMA_VERSION_def MAX_APP_EVENT_BYTES_def
     trim_def trim_start_def trim_end_def is_ws_def is_cont_def Let_def)

lemma ex_misc: "event_text ex_libs e = Some ''event''" "event_matches_filters e ex_conf"
  "ne_external_event_id (ex_event i) = i" "effective_cap ex_desc = 1"
  by (simp_all add: event_text_def ex_libs_def event_matches_filters_def ex_conf_def ex_event_def
      effective_cap_def ex_desc_def DEFAULT_APP_EVENT_PENDING_CAP_def)

lemmas ex_run = process_batch_for_trigger_def ex_batch_def process_event_def ex_norm ex_norm2 ex_misc ex_secret
  record_app_event_def insert_receipt_def insert_queue_def mk_receipt_def pending_count_def count_outcome_def
  SyncReport_default_def save_app_trigger_checkpoint_def lift_db_def upsert_state_def new_state_def
  ex_db_def empty_db_def trigger_exists_def checkpoint_of_def ex_prior_def coalesce_def Let_def

lemma ex_sync1: "fst (ex_sync [''e1'']) = Inr \<lparr>sr_accepted = 1, sr_duplicates = 0, sr_rejected = 0,
     sr_dropped_overrun = 0, sr_backpressured = False\<rparr>"
  by (simp add: ex_run)

lemma ex_sync2: "fst (ex_sync [''e1'', ''e2'']) = Inr \<lparr>sr_accepted = 1, sr_duplicates = 0, sr_rejected = 0,
     sr_dropped_overrun = 0, sr_backpressured = True\<rparr>"
  by (simp add: ex_run)

lemma ex_queue: "app_event_queue (snd (ex_sync [''e1''])) = [\<lparr>q_id = ''q'', q_trigger = ''t'', q_event = ''e1'',
     q_json = ''event'', q_enqueued = ''2026''\<rparr>]"
  by (simp add: ex_run)

section \<open>Properties\<close>

text \<open>Property C4 (no event is lost behind the cursor): when a batch is processed without
  backpressure, which is the only case in which its cursor is committed, every event of the batch
  that is not filtered out has a receipt, so it was queued, rejected or recognised as a duplicate.\<close>

theorem committed_batch_has_receipts:
  assumes "process_batch_for_trigger L de t cf tokens b re p clk fresh d = (Inr rep, d')"
    and "\<not> sr_backpressured rep" and "trigger_exists t d" and "c \<in> set (ba_events b)"
    and "event_receipt_id L de cf tokens c = Some i"
  shows "(t, i) \<in> receipt_keys d'"
  using assms(1)
proof (rule process_batch_Inr)
  fix d1 assume "process_events L de t cf tokens re clk fresh 0 (ba_events b)
      SyncReport_default d = (Inr rep, d1)" and k: "receipt_keys d' = receipt_keys d1"
  then show ?thesis using process_events_receipts [OF _ assms(2)] assms(3-5) by blast
qed

text \<open>Witness: a batch with one event.\<close>

theorem committed_batch_has_receipts_witness:
  "fst (ex_sync [''e1'']) = Inr \<lparr>sr_accepted = 1, sr_duplicates = 0, sr_rejected = 0,
       sr_dropped_overrun = 0, sr_backpressured = False\<rparr>
   \<and> (''t'', ''e1'') \<in> receipt_keys (snd (ex_sync [''e1'']))"
proof -
  have e: "ex_sync [''e1''] = (Inr \<lparr>sr_accepted = 1, sr_duplicates = 0, sr_rejected = 0,
       sr_dropped_overrun = 0, sr_backpressured = False\<rparr>, snd (ex_sync [''e1'']))"
    using ex_sync1 by (metis prod.collapse)
  have "event_receipt_id ex_libs ex_desc ex_conf ex_tokens (ex_event ''e1'') = Some ''e1''"
    by (simp add: event_receipt_id_def ex_norm ex_misc ex_secret)
  moreover have "ex_event ''e1'' \<in> set (ba_events (ex_batch [''e1'']))" by (simp add: ex_batch_def)
  moreover have "trigger_exists ''t'' ex_db" by (simp add: trigger_exists_def ex_db_def)
  ultimately show ?thesis using committed_batch_has_receipts [OF e] ex_sync1 by simp
qed

text \<open>Property C5 (backpressure holds the cursor back): a replayable batch that ran into the pending
  cap, or that failed, leaves every stored checkpoint as it was, so the provider is asked for the
  same events again.\<close>

theorem backpressure_keeps_cursor:
  assumes "process_batch_for_trigger L de t cf tokens b True p clk fresh d = (res, d')"
    and "case res of Inl _ \<Rightarrow> True | Inr rep \<Rightarrow> sr_backpressured rep"
  shows "app_trigger_state d' = app_trigger_state d"
proof -
  let ?now = "clk (length (ba_events b))"
  obtain r d1 where r: "process_events L de t cf tokens True clk fresh 0 (ba_events b)
      SyncReport_default d = (r, d1)" by (metis prod.exhaust)
  have st: "app_trigger_state d1 = app_trigger_state d" using process_events_queue [OF r] by simp
  have "d2 = d1" if "save_app_trigger_checkpoint t u ?now d1 = (Inl e, d2)" for u e d2
    using that by (auto simp: save_app_trigger_checkpoint_def lift_db_def split: sum.splits)
  with assms r have "d' = d1"
    by (auto simp: process_batch_for_trigger_def Let_def split: prod.splits sum.splits if_splits)
  with st show ?thesis by simp
qed

text \<open>Witness: the second of two events does not fit.\<close>

theorem backpressure_keeps_cursor_witness:
  "sr_backpressured (projr (fst (ex_sync [''e1'', ''e2''])))
   \<and> app_trigger_state (snd (ex_sync [''e1'', ''e2''])) = app_trigger_state ex_db"
  using backpressure_keeps_cursor [OF surjective_pairing, of ex_libs ex_desc "''t''" ex_conf ex_tokens
      "ex_batch [''e1'', ''e2'']" ex_prior "\<lambda>_. ''2026''" "\<lambda>i. ''q''" ex_db] ex_sync2
  by simp

text \<open>Property C6 (redelivery is idempotent): after a batch was processed without backpressure, a
  second delivery of the same batch queues nothing, drops nothing and leaves receipts and queue
  as they are, whatever the clock and the fresh identifiers are.\<close>

theorem redelivery_is_idempotent:
  assumes "process_batch_for_trigger L de t cf tokens b re p clk fresh d = (Inr rep, d')"
    and "\<not> sr_backpressured rep" and "trigger_exists t d"
  shows "\<exists>rep2. process_events L de t cf tokens re clk2 fresh2 0 (ba_events b)
       SyncReport_default d' = (Inr rep2, d')
     \<and> sr_accepted rep2 = 0 \<and> sr_dropped_overrun rep2 = 0 \<and> \<not> sr_backpressured rep2"
proof -
  obtain d1 where d1: "process_events L de t cf tokens re clk fresh 0 (ba_events b)
      SyncReport_default d = (Inr rep, d1)" and k: "receipt_keys d' = receipt_keys d1"
    using assms(1) by (rule process_batch_Inr)
  have "(t, i) \<in> receipt_keys d'"
    if "c \<in> set (ba_events b)" "event_receipt_id L de cf tokens c = Some i" for c i
    using process_events_receipts [OF d1 assms(2)] assms(3) that k by blast
  from process_events_seen [where clk = clk2 and fresh = fresh2 and k = 0 and re = re
      and rep = SyncReport_default, OF this]
  show ?thesis by (simp add: SyncReport_default_def)
qed

text \<open>Witness: the one-event batch, delivered twice.\<close>

theorem redelivery_is_idempotent_witness:
  "\<exists>rep2. process_events ex_libs ex_desc ''t'' ex_conf ex_tokens True (\<lambda>_. ''2027'') (\<lambda>_. ''r'') 0
       (ba_events (ex_batch [''e1''])) SyncReport_default (snd (ex_sync [''e1'']))
       = (Inr rep2, snd (ex_sync [''e1'']))
     \<and> sr_accepted rep2 = 0 \<and> sr_dropped_overrun rep2 = 0 \<and> \<not> sr_backpressured rep2"
proof -
  have "ex_sync [''e1''] = (Inr \<lparr>sr_accepted = 1, sr_duplicates = 0, sr_rejected = 0,
       sr_dropped_overrun = 0, sr_backpressured = False\<rparr>, snd (ex_sync [''e1'']))"
    using ex_sync1 by (metis prod.collapse)
  moreover have "trigger_exists ''t'' ex_db" by (simp add: trigger_exists_def ex_db_def)
  ultimately show ?thesis
    using redelivery_is_idempotent by (metis SyncReport.select_convs(5))
qed



text \<open>Property C26 (the queue is bounded): a batch never takes a trigger's queue above the
  descriptor's cap, which is at most a thousand events.\<close>

theorem queue_stays_bounded:
  assumes "process_batch_for_trigger L de t cf tokens b re p clk fresh d = (Inr rep, d')"
    and "pending_count t d \<le> effective_cap de"
  shows "pending_count t d' \<le> effective_cap de \<and> effective_cap de \<le> 1000"
  using assms(1)
proof (rule process_batch_Inr)
  fix d1 assume r: "process_events L de t cf tokens re clk fresh 0 (ba_events b)
      SyncReport_default d = (Inr rep, d1)" and q: "app_event_queue d' = app_event_queue d1"
  from process_events_queue [OF r] q assms(2) show ?thesis
    by (simp add: pending_count_def effective_cap_def DEFAULT_APP_EVENT_PENDING_CAP_def)
qed

text \<open>Witness: two events against a cap of one.\<close>

theorem queue_stays_bounded_witness:
  "pending_count ''t'' (snd (ex_sync [''e1'', ''e2''])) \<le> 1"
proof -
  have "ex_sync [''e1'', ''e2''] = (Inr \<lparr>sr_accepted = 1, sr_duplicates = 0, sr_rejected = 0,
       sr_dropped_overrun = 0, sr_backpressured = True\<rparr>, snd (ex_sync [''e1'', ''e2'']))"
    using ex_sync2 by (metis prod.collapse)
  moreover have "pending_count ''t'' ex_db \<le> effective_cap ex_desc"
    by (simp add: pending_count_def ex_db_def empty_db_def)
  ultimately show ?thesis using queue_stays_bounded by (metis ex_misc(4))
qed

text \<open>Exponential backoff with bounded jitter: without a delay given by the provider, the
  \<open>k\<close>-th retry waits at least 5 * 2^k seconds, capped at 900, at most a quarter more, and never more
  than 900 seconds.\<close>

theorem retry_delay_bounds:
  assumes "ee_retry_after_seconds e = None" and "\<And>n. jitter n \<le> n"
    and "base = min (5 * 2 ^ min k 8) 900"
  shows "5 \<le> base \<and> base \<le> retry_delay_seconds e k jitter
     \<and> retry_delay_seconds e k jitter \<le> min (base + base div 4) 900"
proof -
  have "(1::nat) \<le> 2 ^ min k 8" by simp
  then have "5 \<le> base" and "base \<le> 900" unfolding assms(3) by linarith+
  moreover have "retry_delay_seconds e k jitter = min (base + jitter (base div 4)) 900"
    using assms(1,3) by (simp add: retry_delay_seconds_def Let_def)
  moreover have "jitter (base div 4) \<le> base div 4" by (rule assms(2))
  ultimately show ?thesis by linarith
qed

text \<open>Witness: the third failure waits between 40 and 50 seconds.\<close>

theorem retry_delay_bounds_witness:
  "40 \<le> retry_delay_seconds (AppEventError_new RateLimited) 3 (\<lambda>n. n)
     \<and> retry_delay_seconds (AppEventError_new RateLimited) 3 (\<lambda>n. n) \<le> 50"
  using retry_delay_bounds [of "AppEventError_new RateLimited" "\<lambda>n. n" 40 3]
  by (simp add: AppEventError_new_def)

end
