(* ===== verification/Store_Steps.thy ===== *)
theory Store_Steps
  imports Run_Lifecycle Event_Sync
begin

text \<open>
  The database as a state machine. \<open>db_step\<close> has one rule for each operation of \<^verbatim>\<open>db/\<close> and of the
  runner that writes a table of the model, with arbitrary arguments and whatever it returns; the
  application only ever changes the tables by such steps. Against it stands an abstract machine,
  the inbox: a partial map from event identities to what became of the event. A simulation relates
  the two: whatever the tables do, the inbox only accepts, discards, starts or forgets.
\<close>

inductive db_step :: "db \<Rightarrow> db \<Rightarrow> bool" where
  enqueue: "db_step d (snd (enqueue_run J w tr pl rid now d))"
| run_status: "db_step d (set_run_status rid st err now d)"
| step: "db_step d (snd (insert_step J rid nid pv sk st inp outp err sid now d))"
| checkpoint: "db_step d (snd (save_app_trigger_checkpoint t u now d))"
| trigger_error: "db_step d (snd (mark_app_trigger_error t code next now d))"
| rejected: "db_step d (snd (record_rejected_app_event t e reason now d))"
| event: "db_step d (snd (record_app_event t e pl replayable cap now qid d))"
| promote: "db_step d (snd (promote_next_app_event w rid now d))"
| recover: "db_step d (snd (fail_interrupted_app_event_runs now d))"
| prune: "db_step d (snd (prune_app_event_receipts cutoff d))"
| create: "db_step d (snd (create_workflow J cinp i now d))"
| update: "db_step d (snd (update_workflow J uinp now d))"
| reorder: "db_step d (reorder_workflows ids d)"
| delete: "db_step d (snd (delete_workflow w d))"
| schedule: "db_step d (snd (upsert_schedule_row J w cron en next i now d))"
| next_run: "db_step d (set_schedule_next_run i next now d)"
| unschedule: "db_step d (delete_schedule_for_workflow w d)"
| trigger: "db_step d (snd (upsert_trigger J tinp fid fsec now d))"
| fired: "db_step d (mark_trigger_fired i now d)"
| untrigger: "db_step d (delete_trigger i d)"
| connection: "db_step d (snd (upsert_app_connection J ainp i now d))"
| refresh: "db_step d (snd (set_app_connection_refresh_state i cst expires err now d))"
| revoke: "db_step d (snd (mark_app_connection_revoked i now d))"
| disconnect: "db_step d (delete_app_connection_metadata i d)"

lemmas db_ops_inv = enqueue_run_inv set_run_status_inv insert_step_inv save_app_trigger_checkpoint_inv
  mark_app_trigger_error_inv record_rejected_app_event_inv record_app_event_inv
  promote_next_app_event_inv fail_interrupted_app_event_runs_inv prune_app_event_receipts_inv
  create_workflow_inv update_workflow_inv reorder_workflows_inv delete_workflow_inv
  upsert_schedule_row_inv set_schedule_next_run_inv delete_schedule_for_workflow_inv
  upsert_trigger_inv mark_trigger_fired_inv delete_trigger_inv upsert_app_connection_inv
  set_app_connection_refresh_state_inv mark_app_connection_revoked_inv
  delete_app_connection_metadata_inv

lemma db_step_inv: "ev_inv d \<Longrightarrow> db_step d d' \<Longrightarrow> ev_inv d'"
  by (erule db_step.cases) (simp_all only: db_ops_inv)

section \<open>The abstract inbox\<close>

datatype stage = Waiting | Started rstring | Discarded

type_synonym inbox = "rstring \<times> rstring \<Rightarrow> stage option"

inductive inbox_step :: "inbox \<Rightarrow> inbox \<Rightarrow> bool" where
  accept: "b k = None \<Longrightarrow> inbox_step b (b(k \<mapsto> Waiting))"
| discard: "b k = None \<Longrightarrow> inbox_step b (b(k \<mapsto> Discarded))"
| start: "b k = Some Waiting \<Longrightarrow> (\<And>j. b j \<noteq> Some (Started r)) \<Longrightarrow> inbox_step b (b(k \<mapsto> Started r))"
| forget: "(\<And>k. k \<in> K \<Longrightarrow> b k \<noteq> Some Waiting) \<Longrightarrow> inbox_step b (b |` (- K))"
| drop_triggers: "inbox_step b (b |` {k. fst k \<notin> T})"

definition stage_of :: "receipt_row \<Rightarrow> stage" where
  "stage_of r = (case rc_disposition r of Queued \<Rightarrow> Waiting
     | Enqueued \<Rightarrow> Started (unwrap_or [] (rc_run r)) | _ \<Rightarrow> Discarded)"

text \<open>A table read as a map by one of its keys.\<close>

definition index_by :: "('r \<Rightarrow> 'k) \<Rightarrow> ('r \<Rightarrow> 'v) \<Rightarrow> 'r list \<Rightarrow> 'k \<Rightarrow> 'v option" where
  "index_by key val rs = map_of (map (\<lambda>r. (key r, val r)) rs)"

lemma index_by_simps:
  "index_by key val [] k = None"
  "index_by key val (r # rs) k = (if key r = k then Some (val r) else index_by key val rs k)"
  by (simp_all add: index_by_def)

lemma index_by_None: "index_by key val rs k = None \<longleftrightarrow> k \<notin> key ` set rs"
  by (induction rs) (auto simp: index_by_simps)

lemma index_by_Some:
  assumes "distinct (map key rs)"
  shows "index_by key val rs k = Some s \<longleftrightarrow> (\<exists>r \<in> set rs. key r = k \<and> val r = s)"
  using assms by (induction rs) (auto simp: index_by_simps image_iff)

lemma index_by_append:
  assumes "key r \<notin> key ` set rs"
  shows "index_by key val (rs @ [r]) = (index_by key val rs)(key r \<mapsto> val r)"
proof
  fix k
  show "index_by key val (rs @ [r]) k = ((index_by key val rs)(key r \<mapsto> val r)) k"
    using assms by (induction rs) (auto simp: index_by_simps)
qed

lemma index_by_filter_key:
  "index_by key val (filter (\<lambda>r. P (key r)) rs) = index_by key val rs |` {k. P k}"
proof
  fix k
  show "index_by key val (filter (\<lambda>r. P (key r)) rs) k = (index_by key val rs |` {k. P k}) k"
    by (induction rs) (auto simp: index_by_simps restrict_map_def)
qed

lemma index_by_filter:
  assumes "distinct (map key rs)"
  shows "index_by key val (filter P rs) = index_by key val rs |` (- key ` {r \<in> set rs. \<not> P r})"
  using assms
proof (induction rs)
  case (Cons a rs)
  let ?K = "key ` {r \<in> set rs. \<not> P r}"
  have new: "key a \<notin> key ` set rs" and IH: "index_by key val (filter P rs) = index_by key val rs |` (- ?K)"
    using Cons by simp_all
  show ?case
  proof
    fix k
    have "k \<in> key ` {r \<in> set (a # rs). \<not> P r} \<longleftrightarrow> (k = key a \<and> \<not> P a) \<or> k \<in> ?K" by auto
    moreover have "key a \<notin> ?K" using new by auto
    moreover have "index_by key val rs (key a) = None" using new by (simp add: index_by_None)
    ultimately show "index_by key val (filter P (a # rs)) k
        = (index_by key val (a # rs) |` (- key ` {r \<in> set (a # rs). \<not> P r})) k"
      using IH by (cases "k = key a") (auto simp: index_by_simps restrict_map_def)
  qed
qed (simp add: index_by_def)

lemma index_by_update:
  assumes "\<And>r. key (f r) = key r" and "\<And>r. val (f r) = v"
  shows "index_by key val (update_where (\<lambda>r. key r = j) f rs) =
     (if j \<in> key ` set rs then (index_by key val rs)(j \<mapsto> v) else index_by key val rs)"
proof
  fix k
  show "index_by key val (update_where (\<lambda>r. key r = j) f rs) k =
     (if j \<in> key ` set rs then (index_by key val rs)(j \<mapsto> v) else index_by key val rs) k"
    using assms by (induction rs) (auto simp: index_by_simps update_where_def)
qed

abbreviation inbox_of :: "db \<Rightarrow> inbox" where
  "inbox_of d \<equiv> index_by rc_key stage_of (app_event_receipts d)"

section \<open>The simulation\<close>

lemma index_promoted:
  assumes "q_key q \<in> rc_key ` set rs"
  shows "index_by rc_key stage_of (promoted_receipt q rid rs)
     = (index_by rc_key stage_of rs)(q_key q \<mapsto> Started rid)"
proof -
  have "promoted_receipt q rid rs = update_where (\<lambda>r. rc_key r = q_key q)
     (\<lambda>r. r\<lparr>rc_disposition := Enqueued, rc_run := Some rid\<rparr>) rs"
    by (simp add: promoted_receipt_def)
  then show ?thesis using assms by (simp add: index_by_update stage_of_def del: prod.inject)
qed

text \<open>What an operation does to the receipts decides what it does to the inbox.\<close>

definition keeps_receipts :: "db \<Rightarrow> db \<Rightarrow> bool" where
  "keeps_receipts d d' = (app_event_receipts d' = app_event_receipts d)"

lemma upsert_state_receipts:
  "keeps_receipts d (snd (lift_db d (upsert_state ins upd d)))"
  by (simp add: keeps_receipts_def upsert_state_def lift_db_def)

lemma reorder_receipts: "keeps_receipts d (reorder_workflows ids d)"
proof -
  have "app_event_receipts (fold (\<lambda>(n, i) d. d\<lparr>workflows :=
       update_where (\<lambda>r. wf_id r = i) (\<lambda>r. r\<lparr>wf_sort_order := int n\<rparr>) (workflows d)\<rparr>) xs d)
     = app_event_receipts d" for xs
    by (induction xs arbitrary: d) (simp_all add: split_beta)
  then show ?thesis by (simp add: keeps_receipts_def reorder_workflows_def)
qed

lemma enqueue_receipts: "keeps_receipts d (snd (enqueue_run J w tr pl rid now d))"
  by (simp add: keeps_receipts_def enqueue_run_def insert_run_def split: option.split)

lemma insert_step_receipts: "keeps_receipts d (snd (insert_step J rid nid pv sk st inp outp err sid now d))"
  by (simp add: keeps_receipts_def insert_step_def index_run_step_def delete_run_step_index_def Let_def
      split: option.split)

lemma workflow_receipts:
  "keeps_receipts d (snd (create_workflow J cinp i now d))"
  "keeps_receipts d (snd (update_workflow J uinp now d))"
  by (simp_all add: keeps_receipts_def create_workflow_def update_workflow_def Let_def split: option.split)

lemma schedule_receipts:
  "keeps_receipts d (snd (upsert_schedule_row J w cron en next i now d))"
  "keeps_receipts d (set_schedule_next_run i next now d)"
  "keeps_receipts d (delete_schedule_for_workflow w d)"
  by (simp_all add: keeps_receipts_def upsert_schedule_row_def set_schedule_next_run_def
      delete_schedule_for_workflow_def Let_def split: option.split)

lemma trigger_receipts:
  "keeps_receipts d (snd (upsert_trigger J tinp fid fsec now d))"
  "keeps_receipts d (mark_trigger_fired i now d)"
  by (simp_all add: keeps_receipts_def upsert_trigger_def mark_trigger_fired_def Let_def split: option.split)

lemma connection_receipts:
  "keeps_receipts d (snd (upsert_app_connection J ainp i now d))"
  "keeps_receipts d (snd (set_app_connection_refresh_state i cst expires err now d))"
  "keeps_receipts d (snd (mark_app_connection_revoked i now d))"
  "keeps_receipts d (delete_app_connection_metadata i d)"
  by (auto simp: keeps_receipts_def upsert_app_connection_def save_connection_def
      set_app_connection_refresh_state_def mark_app_connection_revoked_def
      delete_app_connection_metadata_def Let_def split: option.splits if_splits sum.splits prod.splits)

lemma run_receipts:
  "keeps_receipts d (set_run_status rid st err now d)"
  "keeps_receipts d (snd (fail_interrupted_app_event_runs now d))"
  by (simp_all add: keeps_receipts_def set_run_status_def fail_interrupted_app_event_runs_def)

lemma state_receipts:
  "keeps_receipts d (snd (save_app_trigger_checkpoint t u now d))"
  "keeps_receipts d (snd (mark_app_trigger_error t code next now d))"
  by (simp_all add: save_app_trigger_checkpoint_def mark_app_trigger_error_def upsert_state_receipts)

lemmas receipts_kept = reorder_receipts enqueue_receipts insert_step_receipts workflow_receipts
  schedule_receipts trigger_receipts connection_receipts run_receipts state_receipts

lemma kept_simulates: "keeps_receipts d d' \<Longrightarrow> steps inbox_step (inbox_of d) (inbox_of d')"
  by (simp add: keeps_receipts_def steps_refl)

lemma steps_one: "step s t \<Longrightarrow> steps step s t"
  by (blast intro: steps.intros)

lemma record_app_event_simulates:
  "steps inbox_step (inbox_of d) (inbox_of (snd (record_app_event t e pl replayable cap now qid d)))"
proof (cases rule: record_app_event_cases [where t = t and e = e and payload = pl
      and replayable = replayable and cap = cap and now = now and qid = qid and d = d])
  case (dropped S)
  then have "rc_key (mk_receipt t e now DroppedOverrunD (Some ''pending_cap''))
      \<notin> rc_key ` set (app_event_receipts d)" by (simp add: receipt_keys_def mk_receipt_def)
  then show ?thesis unfolding dropped(4)
    by (auto simp: index_by_append mk_receipt_def stage_of_def index_by_None
        simp del: fun_upd_apply intro!: steps_one inbox_step.discard)
next
  case queued
  then have "rc_key (mk_receipt t e now Queued None) \<notin> rc_key ` set (app_event_receipts d)"
    by (simp add: receipt_keys_def mk_receipt_def)
  then show ?thesis unfolding queued(3)
    by (auto simp: index_by_append mk_receipt_def stage_of_def index_by_None
        simp del: fun_upd_apply intro!: steps_one inbox_step.accept)
qed (simp_all add: steps_refl)

lemma rejected_simulates:
  "steps inbox_step (inbox_of d) (inbox_of (snd (record_rejected_app_event t e reason now d)))"
proof (cases "snd (record_rejected_app_event t e reason now d) = d")
  case False
  let ?r = "mk_receipt t e now RejectedInvalid (Some reason)"
  have "rc_key ?r \<notin> rc_key ` set (app_event_receipts d)"
    and "snd (record_rejected_app_event t e reason now d)
       = d\<lparr>app_event_receipts := app_event_receipts d @ [?r]\<rparr>"
    using False by (auto simp: record_rejected_app_event_def insert_receipt_def mk_receipt_def split: if_splits)
  then show ?thesis
    by (auto simp: index_by_append mk_receipt_def stage_of_def index_by_None
        simp del: fun_upd_apply intro!: steps_one inbox_step.discard)
qed (simp add: steps_refl)

lemma promote_simulates:
  assumes inv: "ev_inv d"
  shows "steps inbox_step (inbox_of d) (inbox_of (snd (promote_next_app_event w rid now d)))"
proof (cases "\<exists>p. fst (promote_next_app_event w rid now d) = Inr (Some p)")
  case False
  then have "snd (promote_next_app_event w rid now d) = d"
    using promote_other [of w rid now d] by (metis prod.collapse)
  then show ?thesis by (simp add: steps_refl)
next
  case True
  then obtain p d' where pr: "promote_next_app_event w rid now d = (Inr (Some p), d')"
    by (metis prod.collapse)
  then obtain q where q: "next_queued w d = Some q" and new: "rid \<notin> run_id ` set (runs d)"
    and d': "app_event_receipts d' = promoted_receipt q rid (app_event_receipts d)"
    by (rule promote_Some) simp
  have dist: "distinct (map rc_key (app_event_receipts d))"
    using inv by (simp add: ev_inv_def fk_okE_receipts)
  have "q_key q \<in> rc_key ` {r \<in> set (app_event_receipts d). rc_disposition r = Queued}"
    using inv next_queued_mem(1) [OF q] unfolding ev_inv_def queue_matches_def by blast
  then obtain r where r: "r \<in> set (app_event_receipts d)" "rc_disposition r = Queued"
    "rc_key r = q_key q" by (metis (mono_tags, lifting) imageE mem_Collect_eq)
  have "inbox_of d (q_key q) = Some Waiting"
    using r dist by (subst index_by_Some) (auto simp: stage_of_def)
  moreover have "inbox_of d j \<noteq> Some (Started rid)" for j
  proof
    assume "inbox_of d j = Some (Started rid)"
    then obtain x where x: "x \<in> set (app_event_receipts d)" "stage_of x = Started rid"
      using dist by (subst (asm) index_by_Some) auto
    then have "rc_disposition x = Enqueued" by (simp add: stage_of_def split: disposition.splits)
    with inv x have "rc_run x = Some rid"
      by (auto simp: stage_of_def ev_inv_def receipts_linked_def run_iff_enqueued_def)
    moreover have "case rc_run x of None \<Rightarrow> True | Some i \<Rightarrow> app_run_of d (rc_trigger x) i"
      using inv x(1) unfolding ev_inv_def receipts_linked_def runs_resolve_def by blast
    ultimately have "app_run_of d (rc_trigger x) rid" by simp
    with new show False by (auto simp: app_run_of_def)
  qed
  ultimately have "inbox_step (inbox_of d) ((inbox_of d)(q_key q \<mapsto> Started rid))"
    by (intro inbox_step.start)
  moreover have "q_key q \<in> rc_key ` set (app_event_receipts d)" 
    by (rule image_eqI [where x = r]) (simp_all only: r)
  ultimately show ?thesis unfolding pr snd_conv d' by (simp add: index_promoted steps_one del: prod.inject)
qed

lemma prune_simulates:
  assumes inv: "ev_inv d"
  shows "steps inbox_step (inbox_of d) (inbox_of (snd (prune_app_event_receipts cutoff d)))"
proof -
  obtain P where P: "snd (prune_app_event_receipts cutoff d)
       = d\<lparr>app_event_receipts := filter P (app_event_receipts d)\<rparr>"
    and keep: "\<And>r. rc_disposition r = Queued \<Longrightarrow> P r"
    using prune_app_event_receipts_filter by blast
  have dist: "distinct (map rc_key (app_event_receipts d))"
    using inv by (simp add: ev_inv_def fk_okE_receipts)
  have "inbox_of d k \<noteq> Some Waiting" if "k \<in> rc_key ` {r \<in> set (app_event_receipts d). \<not> P r}" for k
  proof
    from that obtain r where r: "r \<in> set (app_event_receipts d)" "\<not> P r" "rc_key r = k"
      by (metis (mono_tags, lifting) imageE mem_Collect_eq)
    assume "inbox_of d k = Some Waiting"
    then obtain x where x: "x \<in> set (app_event_receipts d)" "rc_key x = k" "stage_of x = Waiting"
      using dist by (subst (asm) index_by_Some) auto
    have "x = r" using distinct_map_eq [OF dist x(1) r(1)] x(2) r(3) by simp
    with x(3) keep r(2) show False by (auto simp: stage_of_def split: disposition.splits)
  qed
  then have "inbox_step (inbox_of d)
      (inbox_of d |` (- rc_key ` {r \<in> set (app_event_receipts d). \<not> P r}))" by (rule inbox_step.forget)
  then show ?thesis unfolding P by (simp add: index_by_filter [OF dist] steps_one)
qed

lemma keep_triggers_simulates:
  assumes "app_event_receipts d' = filter (\<lambda>r. rc_trigger r \<notin> T) (app_event_receipts d)"
  shows "steps inbox_step (inbox_of d) (inbox_of d')"
proof -
  have "filter (\<lambda>r. rc_trigger r \<notin> T) rs = filter (\<lambda>r. fst (rc_key r) \<notin> T) rs" for rs by simp
  then have "inbox_of d' = inbox_of d |` {k. fst k \<notin> T}"
    unfolding assms by (simp only: index_by_filter_key [where P = "\<lambda>k. fst k \<notin> T"])
  then show ?thesis by (simp add: steps_one inbox_step.drop_triggers)
qed

lemma delete_simulates:
  "steps inbox_step (inbox_of d) (inbox_of (delete_trigger i d))"
  "steps inbox_step (inbox_of d) (inbox_of (snd (delete_workflow w d)))"
  by (rule keep_triggers_simulates [where T = "{i}"], simp add: delete_trigger_def keep_triggers_def)
     (rule keep_triggers_simulates [where T = "set (trigger_ids_of w d)"],
      simp add: delete_workflow_def remove_workflow_def keep_triggers_def)

lemma db_step_simulates:
  "ev_inv d \<Longrightarrow> db_step d d' \<Longrightarrow> steps inbox_step (inbox_of d) (inbox_of d')"
  by (erule db_step.cases)
     (simp_all only: receipts_kept kept_simulates record_app_event_simulates rejected_simulates
       promote_simulates prune_simulates delete_simulates)

text \<open>A simulation, stated once for any concrete and abstract machine: the invariant of the concrete
  one may be used, and a concrete step may be any number of abstract ones.\<close>

locale simulation = transition_invariant init step inv
  for init :: "'s \<Rightarrow> bool" and step :: "'s \<Rightarrow> 's \<Rightarrow> bool" and inv :: "'s \<Rightarrow> bool" +
  fixes abs_of :: "'s \<Rightarrow> 'a" and astep :: "'a \<Rightarrow> 'a \<Rightarrow> bool"
  assumes sim_step: "inv s \<Longrightarrow> step s t \<Longrightarrow> steps astep (abs_of s) (abs_of t)"
begin

lemma sim_steps: "steps step s t \<Longrightarrow> inv s \<Longrightarrow> steps astep (abs_of s) (abs_of t)"
  by (induction rule: steps.induct) (auto intro: steps_refl steps_trans sim_step inv_steps)

lemma sim_reachable: "init s \<Longrightarrow> steps step s t \<Longrightarrow> steps astep (abs_of s) (abs_of t)"
  by (blast intro: inv_init sim_steps)

end

interpretation store: simulation "\<lambda>d. d = empty_db" db_step ev_inv inbox_of inbox_step
  by unfold_locales (simp_all add: ev_inv_empty db_step_inv db_step_simulates)

section \<open>What the inbox promises\<close>

text \<open>No two events ever share a run.\<close>

definition unshared :: "inbox \<Rightarrow> bool" where
  "unshared b = (\<forall>j k r. b j = Some (Started r) \<longrightarrow> b k = Some (Started r) \<longrightarrow> j = k)"

interpretation inbox: transition_invariant "\<lambda>b. b = Map.empty" inbox_step unshared
  by unfold_locales
     (auto simp: unshared_def restrict_map_def elim!: inbox_step.cases split: if_splits)

text \<open>An event that waits stays or is started or its trigger is removed: it is never discarded or
  forgotten.\<close>

lemma inbox_step_waiting:
  "inbox_step b b' \<Longrightarrow> b k = Some Waiting \<Longrightarrow>
     b' k = Some Waiting \<or> (\<exists>r. b' k = Some (Started r)) \<or> (\<forall>e. b' (fst k, e) = None)"
  by (cases k, erule inbox_step.cases) (auto simp: restrict_map_def)

end
