(* ===== verification/App_Runtime.thy ===== *)
theory App_Runtime
  imports Run_Lifecycle Event_Sync
begin

text \<open>
  The connected-app event runtime, \<^verbatim>\<open>triggers/app.rs\<close>: the idle cache, the scan that recovers,
  prunes and drains the durable queue, the due check of a trigger, and the synchronisations a tick
  starts. Atomics are fields of the runtime record and keep their width (the revision wraps at
  64 bits); a cancellation handle is shared, so the flags live in a store. A semaphore is the
  number of its free permits.
\<close>

definition IDLE_RESCAN_TICKS :: "32 word" where "IDLE_RESCAN_TICKS = 60"

record AppEventRuntime =
  rt_revision :: "64 word"
  rt_stopped :: bool
  rt_in_flight :: "(rstring \<times> nat) list"
  rt_flags :: "bool list"
  rt_last_pruned_day :: int
  rt_recovered :: bool
  rt_polling_concurrency :: nat
  rt_socket_concurrency :: nat
  rt_idle_at_revision :: "64 word"
  rt_skipped_ticks :: "32 word"

definition AppEventRuntime_default :: AppEventRuntime where
  "AppEventRuntime_default = \<lparr>rt_revision = 0, rt_stopped = False, rt_in_flight = [],
     rt_flags = [], rt_last_pruned_day = 0, rt_recovered = False, rt_polling_concurrency = 4,
     rt_socket_concurrency = 16, rt_idle_at_revision = 0, rt_skipped_ticks = 0\<rparr>"

definition set_flag :: "nat \<Rightarrow> AppEventRuntime \<Rightarrow> AppEventRuntime" where
  "set_flag k rt = rt\<lparr>rt_flags := (rt_flags rt)[k := True]\<rparr>"

definition reload :: "AppEventRuntime \<Rightarrow> AppEventRuntime" where
  "reload rt = fold set_flag (map snd (rt_in_flight rt)) (rt\<lparr>rt_revision := rt_revision rt + 1\<rparr>)"

definition shutdown :: "AppEventRuntime \<Rightarrow> AppEventRuntime" where
  "shutdown rt = rt\<lparr>rt_stopped := True, rt_revision := rt_revision rt + 1\<rparr>"

definition sync_cancelled :: "nat \<Rightarrow> AppEventRuntime \<Rightarrow> bool" where
  "sync_cancelled k rt = (k < length (rt_flags rt) \<and> rt_flags rt ! k)"

definition sync_begin :: "rstring \<Rightarrow> AppEventRuntime \<Rightarrow> nat option \<times> AppEventRuntime" where
  "sync_begin t rt =
     (if t \<in> set (map fst (rt_in_flight rt)) then (None, rt)
      else let k = length (rt_flags rt) in
        (Some k, rt\<lparr>rt_flags := rt_flags rt @ [False], rt_in_flight := (t, k) # rt_in_flight rt\<rparr>))"

definition sync_finish :: "rstring \<Rightarrow> AppEventRuntime \<Rightarrow> AppEventRuntime" where
  "sync_finish t rt = rt\<lparr>rt_in_flight := filter (\<lambda>p. fst p \<noteq> t) (rt_in_flight rt)\<rparr>"

text \<open>\<^verbatim>\<open>fetch_add\<close> returns the old value and wraps; the counter is reset when the old value has
  reached the limit.\<close>

definition skip_idle_scan :: "64 word \<Rightarrow> AppEventRuntime \<Rightarrow> bool \<times> AppEventRuntime" where
  "skip_idle_scan revision rt =
     (if rt_idle_at_revision rt \<noteq> revision + 1 then (False, rt)
      else if IDLE_RESCAN_TICKS \<le> rt_skipped_ticks rt then (False, rt\<lparr>rt_skipped_ticks := 0\<rparr>)
      else (True, rt\<lparr>rt_skipped_ticks := rt_skipped_ticks rt + 1\<rparr>))"

definition note_scan :: "64 word \<Rightarrow> bool \<Rightarrow> AppEventRuntime \<Rightarrow> AppEventRuntime" where
  "note_scan revision idle rt = rt\<lparr>rt_skipped_ticks := 0,
     rt_idle_at_revision := (if idle \<and> rt_revision rt = revision then revision + 1 else 0)\<rparr>"

section \<open>Draining the queue\<close>

definition drain_pending :: "serde \<Rightarrow> PromotedAppEventRun list \<Rightarrow> sys \<Rightarrow> sys" where
  "drain_pending J ps y = fold (\<lambda>p s. if has_workflow (pr_workflow_id p) (sys_active s) then s
     else snd (start_pending_app_event_run J p s)) ps y"

text \<open>\<open>clk i\<close> and \<open>fresh i\<close> are the clock reading and the run id drawn for the \<open>i\<close>-th workflow.\<close>

fun drain_workflows ::
  "serde \<Rightarrow> (nat \<Rightarrow> rstring) \<Rightarrow> (nat \<Rightarrow> rstring) \<Rightarrow> nat \<Rightarrow> rstring list \<Rightarrow> sys
    \<Rightarrow> (rstring + unit) \<times> sys" where
  "drain_workflows J clk fresh i [] y = (Inr (), y)"
| "drain_workflows J clk fresh i (w # ws) y =
     (if has_workflow w (sys_active y) then drain_workflows J clk fresh (Suc i) ws y
      else case promote_next_app_event w (fresh i) (clk i) (sys_db y) of
          (Inl e, d) \<Rightarrow> (Inl (db_error_text e), y\<lparr>sys_db := d\<rparr>)
        | (Inr None, d) \<Rightarrow> drain_workflows J clk fresh (Suc i) ws (y\<lparr>sys_db := d\<rparr>)
        | (Inr (Some p), d) \<Rightarrow> drain_workflows J clk fresh (Suc i) ws
            (snd (start_pending_app_event_run J p (y\<lparr>sys_db := d\<rparr>))))"

definition drain_queue ::
  "serde \<Rightarrow> (nat \<Rightarrow> rstring) \<Rightarrow> (nat \<Rightarrow> rstring) \<Rightarrow> sys \<Rightarrow> (rstring + bool) \<times> sys" where
  "drain_queue J clk fresh y =
     (let ps = list_pending_app_event_runs (sys_db y);
          y1 = drain_pending J ps y;
          ws = app_event_queue_workflow_ids (sys_db y1)
      in case drain_workflows J clk fresh 0 ws y1 of
           (Inl e, y2) \<Rightarrow> (Inl e, y2)
         | (Inr _, y2) \<Rightarrow> (Inr (ps = [] \<and> ws = []), y2))"

section \<open>The scan\<close>

definition recover_once :: "rstring \<Rightarrow> AppEventRuntime \<Rightarrow> sys \<Rightarrow> AppEventRuntime \<times> sys" where
  "recover_once now rt y = (if rt_recovered rt then (rt, y)
     else (rt\<lparr>rt_recovered := True\<rparr>,
           y\<lparr>sys_db := snd (fail_interrupted_app_event_runs now (sys_db y))\<rparr>))"

definition prune_daily :: "int \<Rightarrow> rstring \<Rightarrow> AppEventRuntime \<Rightarrow> sys \<Rightarrow> AppEventRuntime \<times> sys" where
  "prune_daily day cutoff rt y = (if rt_last_pruned_day rt = day then (rt, y)
     else (rt\<lparr>rt_last_pruned_day := day\<rparr>,
           y\<lparr>sys_db := snd (prune_app_event_receipts cutoff (sys_db y))\<rparr>))"

text \<open>\<open>reloads\<close> is the number of \<^verbatim>\<open>reload()\<close> calls of other threads that land between the reading of
  the revision and \<^verbatim>\<open>note_scan\<close>.\<close>

definition scan ::
  "serde \<Rightarrow> int \<Rightarrow> rstring \<Rightarrow> (nat \<Rightarrow> rstring) \<Rightarrow> (nat \<Rightarrow> rstring) \<Rightarrow> nat
    \<Rightarrow> AppEventRuntime \<Rightarrow> sys \<Rightarrow> (rstring + Trigger list) \<times> AppEventRuntime \<times> sys" where
  "scan J day cutoff clk fresh reloads rt y =
     (let (rt1, y1) = recover_once (clk 0) rt y;
          (rt2, y2) = prune_daily day cutoff rt1 y1;
          revision = rt_revision rt2;
          (skip, rt3) = skip_idle_scan revision rt2
      in if skip then (Inr [], rt3, y2)
         else case drain_queue J clk fresh y2 of
             (Inl e, y3) \<Rightarrow> (Inl e, rt3, y3)
           | (Inr queue_empty, y3) \<Rightarrow>
             (let ts = list_enabled_triggers J (Some ''app'') (sys_db y3);
                  rt4 = (reload ^^ reloads) rt3
              in (Inr ts, note_scan revision (queue_empty \<and> ts = []) rt4, y3)))"

section \<open>When a trigger is due\<close>

definition uses_socket_delivery :: "libs \<Rightarrow> AppEventRegistry \<Rightarrow> Trigger \<Rightarrow> bool" where
  "uses_socket_delivery L R t = (case config_of_json L (t_config t) of None \<Rightarrow> False
     | Some cf \<Rightarrow> (case rg_descriptor R (cf_provider_id cf) (cf_event_type cf) of None \<Rightarrow> False
         | Some de \<Rightarrow> Polling \<notin> set (de_delivery_modes de)))"

definition is_future :: "chrono \<Rightarrow> int \<Rightarrow> rstring \<Rightarrow> bool" where
  "is_future C now v = (case parse_rfc3339 C v of Some t \<Rightarrow> now < t | None \<Rightarrow> False)"

text \<open>Elapsed whole seconds, truncated toward zero (\<^verbatim>\<open>num_seconds\<close>).\<close>

definition num_seconds :: "int \<Rightarrow> int" where
  "num_seconds dt = (if 0 \<le> dt then dt div 1000000000 else - ((- dt) div 1000000000))"

definition poll_interval :: "AppEventDescriptor \<Rightarrow> nat" where
  "poll_interval de = (if Polling \<in> set (de_delivery_modes de)
     then max (de_poll_interval_seconds de) 5 else 1)"

definition is_due :: "libs \<Rightarrow> AppEventRegistry \<Rightarrow> int \<Rightarrow> db \<Rightarrow> Trigger \<Rightarrow> bool" where
  "is_due L R now d t =
     (case config_of_json L (t_config t) of
        None \<Rightarrow> True
      | Some cf \<Rightarrow>
        (case rg_descriptor R (cf_provider_id cf) (cf_event_type cf) of
           None \<Rightarrow> True
         | Some de \<Rightarrow>
           (let state = get_app_trigger_state (t_id t) d in
            if (case Option.bind state st_next_attempt_at of
                  Some v \<Rightarrow> is_future (lib_chrono L) now v | None \<Rightarrow> False)
            then False
            else \<not> (case Option.bind (Option.bind state st_last_polled_at)
                           (parse_rfc3339 (lib_chrono L)) of
                     Some polled \<Rightarrow> num_seconds (now - polled) < int (poll_interval de)
                   | None \<Rightarrow> False))))"

section \<open>Synchronisations started by a tick\<close>

record sync_task =
  sk_trigger :: Trigger
  sk_flag :: nat
  sk_revision :: "64 word"
  sk_socket :: bool

definition take_permit :: "bool \<Rightarrow> AppEventRuntime \<Rightarrow> AppEventRuntime option" where
  "take_permit socket rt =
     (if socket then
        (if rt_socket_concurrency rt = 0 then None
         else Some (rt\<lparr>rt_socket_concurrency := rt_socket_concurrency rt - 1\<rparr>))
      else
        (if rt_polling_concurrency rt = 0 then None
         else Some (rt\<lparr>rt_polling_concurrency := rt_polling_concurrency rt - 1\<rparr>)))"

definition release_permit :: "bool \<Rightarrow> AppEventRuntime \<Rightarrow> AppEventRuntime" where
  "release_permit socket rt =
     (if socket then rt\<lparr>rt_socket_concurrency := rt_socket_concurrency rt + 1\<rparr>
      else rt\<lparr>rt_polling_concurrency := rt_polling_concurrency rt + 1\<rparr>)"

definition schedule_trigger ::
  "libs \<Rightarrow> AppEventRegistry \<Rightarrow> int \<Rightarrow> db \<Rightarrow> Trigger \<Rightarrow> sync_task list \<times> AppEventRuntime
    \<Rightarrow> sync_task list \<times> AppEventRuntime" where
  "schedule_trigger L R now d t acc = (case acc of (tasks, rt) \<Rightarrow>
     if \<not> is_due L R now d t then (tasks, rt)
     else let socket = uses_socket_delivery L R t in
       (case take_permit socket rt of
          None \<Rightarrow> (tasks, rt)
        | Some rt1 \<Rightarrow>
          (case sync_begin (t_id t) rt1 of
             (None, _) \<Rightarrow> (tasks, rt)
           | (Some k, rt2) \<Rightarrow> (tasks @ [\<lparr>sk_trigger = t, sk_flag = k,
               sk_revision = rt_revision rt2, sk_socket = socket\<rparr>], rt2))))"

definition app_tick ::
  "libs \<Rightarrow> AppEventRegistry \<Rightarrow> int \<Rightarrow> int \<Rightarrow> rstring \<Rightarrow> (nat \<Rightarrow> rstring) \<Rightarrow> (nat \<Rightarrow> rstring)
    \<Rightarrow> nat \<Rightarrow> AppEventRuntime \<Rightarrow> sys \<Rightarrow> (rstring + sync_task list) \<times> AppEventRuntime \<times> sys" where
  "app_tick L R now day cutoff clk fresh reloads rt y =
     (if rt_stopped rt then (Inr [], rt, y)
      else case scan (lib_serde L) day cutoff clk fresh reloads rt y of
          (Inl e, rt1, y1) \<Rightarrow> (Inl e, rt1, y1)
        | (Inr ts, rt1, y1) \<Rightarrow>
          (case fold (schedule_trigger L R now (sys_db y1)) ts ([], rt1) of
             (tasks, rt2) \<Rightarrow> (Inr tasks, rt2, y1)))"

text \<open>The spawned task: it gives up when the runtime stopped or was reloaded after the tick, and
  records the failure of a synchronisation that was not cancelled. The permit is released and the
  in-flight mark removed on every path.\<close>

definition record_sync_error ::
  "libs \<Rightarrow> rstring \<Rightarrow> AppEventError \<Rightarrow> (nat \<Rightarrow> nat) \<Rightarrow> int \<Rightarrow> rstring \<Rightarrow> db \<Rightarrow> db" where
  "record_sync_error L t e jitter now nows d =
     (if ee_code e = EvCancelled then d
      else let retry_count = (case get_app_trigger_state t d of None \<Rightarrow> 0
                 | Some st \<Rightarrow> unat (st_retry_count st))
        in snd (mark_app_trigger_error t (AppEventErrorCode_as_str (ee_code e))
             (Some (next_retry_at (lib_chrono L) e retry_count jitter now)) nows d))"

definition run_sync_task ::
  "libs \<Rightarrow> AppEventRegistry \<Rightarrow> (rstring \<Rightarrow> TokenStoreError + CredentialEnvelope) \<Rightarrow> (nat \<Rightarrow> nat) \<Rightarrow> int
    \<Rightarrow> (db \<Rightarrow> db) \<Rightarrow> (nat \<Rightarrow> nat \<Rightarrow> rstring) \<Rightarrow> (nat \<Rightarrow> nat \<Rightarrow> rstring) \<Rightarrow> bool \<Rightarrow> sync_task
    \<Rightarrow> AppEventRuntime \<Rightarrow> sys \<Rightarrow> AppEventRuntime \<times> sys" where
  "run_sync_task L R store jitter now meanwhile clk fresh cancelled_later k rt y =
     (let t = sk_trigger k;
          done = release_permit (sk_socket k) (sync_finish (t_id t) rt)
      in if rt_stopped rt \<or> rt_revision rt \<noteq> sk_revision k then (done, y)
         else (case sync_trigger_cancellable L R store t (sync_cancelled (sk_flag k) rt)
                      cancelled_later now meanwhile clk fresh (sys_db y) of
             (Inr _, d) \<Rightarrow> (done, y\<lparr>sys_db := d\<rparr>)
           | (Inl e, d) \<Rightarrow>
             (done, y\<lparr>sys_db := record_sync_error L (t_id t) e jitter now (clk 0 0) d\<rparr>)))"

section \<open>Invariants\<close>

lemma drain_pending_inv: "sys_inv y \<Longrightarrow> sys_inv (drain_pending J ps y)"
  unfolding drain_pending_def
  by (induction ps arbitrary: y) (simp_all add: start_pending_app_event_run_inv)

lemma drain_workflows_inv: "sys_inv y \<Longrightarrow> sys_inv (snd (drain_workflows J clk fresh i ws y))"
proof (induction ws arbitrary: i y)
  case (Cons w ws)
  have "ev_inv (snd (promote_next_app_event w (fresh i) (clk i) (sys_db y)))"
    using Cons.prems by (simp add: sys_inv_def promote_next_app_event_inv)
  then have "sys_inv (y\<lparr>sys_db := snd (promote_next_app_event w (fresh i) (clk i) (sys_db y))\<rparr>)"
    using Cons.prems by (simp add: sys_inv_db)
  with Cons show ?case
    by (auto simp: start_pending_app_event_run_inv split: prod.split sum.split option.split)
qed simp

lemma drain_queue_inv:
  assumes "sys_inv y"
  shows "sys_inv (snd (drain_queue J clk fresh y))"
proof -
  let ?y1 = "drain_pending J (list_pending_app_event_runs (sys_db y)) y"
  have "sys_inv (snd (drain_workflows J clk fresh 0 (app_event_queue_workflow_ids (sys_db ?y1)) ?y1))"
    using assms by (intro drain_workflows_inv drain_pending_inv)
  then show ?thesis
    by (auto simp: drain_queue_def Let_def split: prod.split sum.split)
qed

lemma recover_once_inv: "sys_inv y \<Longrightarrow> sys_inv (snd (recover_once now rt y))"
  by (simp add: recover_once_def sys_inv_def fail_interrupted_app_event_runs_inv)

lemma prune_daily_inv: "sys_inv y \<Longrightarrow> sys_inv (snd (prune_daily day cutoff rt y))"
  by (simp add: prune_daily_def sys_inv_def prune_app_event_receipts_inv)

lemma scan_inv:
  assumes "sys_inv y"
  shows "sys_inv (snd (snd (scan J day cutoff clk fresh reloads rt y)))"
proof -
  obtain rt1 y1 where 1: "recover_once (clk 0) rt y = (rt1, y1)" by (metis prod.exhaust)
  obtain rt2 y2 where 2: "prune_daily day cutoff rt1 y1 = (rt2, y2)" by (metis prod.exhaust)
  have "sys_inv y1" using recover_once_inv [OF assms, of "clk 0" rt] 1 by simp
  then have "sys_inv y2" using prune_daily_inv [of y1 day cutoff rt1] 2 by simp
  then have "sys_inv (snd (drain_queue J clk fresh y2))" by (rule drain_queue_inv)
  with \<open>sys_inv y2\<close> show ?thesis
    by (auto simp: scan_def 1 2 Let_def split: prod.split sum.split)
qed

lemma app_tick_inv:
  "sys_inv y \<Longrightarrow> sys_inv (snd (snd (app_tick L R now day cutoff clk fresh reloads rt y)))"
  using scan_inv [of y "lib_serde L" day cutoff clk fresh reloads rt]
  by (auto simp: app_tick_def split: prod.split sum.split)

lemma record_sync_error_inv: "ev_inv d \<Longrightarrow> ev_inv (record_sync_error L t e jitter now nows d)"
  by (simp add: record_sync_error_def Let_def mark_app_trigger_error_inv)

lemma run_sync_task_inv:
  assumes "sys_inv y" and "\<And>d. ev_inv d \<Longrightarrow> ev_inv (meanwhile d)"
  shows "sys_inv (snd (run_sync_task L R store jitter now meanwhile clk fresh later k rt y))"
proof -
  have ev: "ev_inv (sys_db y)" using assms(1) by (simp add: sys_inv_def)
  have "ev_inv (snd (sync_trigger_cancellable L R store t c later now meanwhile clk fresh (sys_db y)))"
    for t c using ev assms(2) by (intro sync_trigger_inv)
  then show ?thesis
    using assms(1)
    by (auto simp: run_sync_task_def Let_def sys_inv_db record_sync_error_inv
        split: prod.split sum.split, (metis snd_conv sys_inv_db record_sync_error_inv)+)
qed

section \<open>What a promotion and a recovery leave behind\<close>

lemma promoted_run_pending:
  assumes "ev_inv d" and "promote_next_app_event w rid now d = (Inr (Some p), d')"
  shows "p \<in> set (list_pending_app_event_runs d')"
proof -
  obtain q where q: "next_queued w d = Some q"
    and p: "p = \<lparr>pr_run_id = rid, pr_workflow_id = w, pr_created_at = now\<rparr>"
    and d': "d' = d\<lparr>runs := runs d @ [pending_run rid w ''app'' (Some (q_json q)) now],
       app_event_receipts := promoted_receipt q rid (app_event_receipts d),
       app_event_queue := filter (\<lambda>x. q_id x \<noteq> q_id q) (app_event_queue d)\<rparr>"
    using assms(2) by (rule promote_Some)
  let ?r = "pending_run rid w ''app'' (Some (q_json q)) now"
  have "q_key q \<in> rc_key ` {r \<in> set (app_event_receipts d). rc_disposition r = Queued}"
    using next_queued_mem(1) [OF q] assms(1) unfolding ev_inv_def queue_matches_def by blast
  then obtain c where c: "c \<in> set (app_event_receipts d)" "rc_key c = q_key q" by auto
  then have "c\<lparr>rc_disposition := Enqueued, rc_run := Some rid\<rparr>
      \<in> set (promoted_receipt q rid (app_event_receipts d))"
    by (auto simp: promoted_receipt_def update_where_def image_iff intro!: bexI [of _ c])
  then have "\<exists>x \<in> set (promoted_receipt q rid (app_event_receipts d)). rc_run x = Some rid"
    by (rule bexI [rotated]) simp
  then have "has_receipt d' ?r" by (simp add: has_receipt_def d' list_ex_iff pending_run_def)
  moreover have "?r \<in> set (runs d')" by (simp add: d')
  ultimately show ?thesis
    by (auto simp: list_pending_app_event_runs_def p pending_run_def image_iff
        intro!: bexI [of _ ?r])
qed

section \<open>The idle cache\<close>

text \<open>The cached revision is never ahead of the current one (before the counter wraps).\<close>

definition cache_inv :: "AppEventRuntime \<Rightarrow> bool" where
  "cache_inv rt = (unat (rt_idle_at_revision rt) \<le> unat (rt_revision rt) + 1)"

lemma fold_set_flag:
  "rt_revision (fold set_flag ks rt) = rt_revision rt"
  "rt_idle_at_revision (fold set_flag ks rt) = rt_idle_at_revision rt"
  "rt_skipped_ticks (fold set_flag ks rt) = rt_skipped_ticks rt"
  "rt_in_flight (fold set_flag ks rt) = rt_in_flight rt"
  by (induction ks arbitrary: rt) (simp_all add: set_flag_def)

lemma reload_fields:
  "rt_revision (reload rt) = rt_revision rt + 1"
  "rt_idle_at_revision (reload rt) = rt_idle_at_revision rt"
  by (simp_all add: reload_def fold_set_flag)

lemma unat_Suc_word: "unat w + 1 < 2 ^ 64 \<Longrightarrow> unat (w + 1) = unat (w :: 64 word) + 1"
  by (simp add: unat_word_ariths)

lemma cache_inv_reload: "cache_inv rt \<Longrightarrow> unat (rt_revision rt) + 1 < 2 ^ 64 \<Longrightarrow> cache_inv (reload rt)"
  by (simp add: cache_inv_def reload_fields unat_Suc_word)

lemma cache_inv_note_scan:
  "cache_inv rt \<Longrightarrow> unat (rt_revision rt) + 1 < 2 ^ 64 \<Longrightarrow> cache_inv (note_scan v idle rt)"
  using unat_Suc_word [of "rt_revision rt"] by (auto simp: cache_inv_def note_scan_def)

lemma cache_inv_skip: "cache_inv rt \<Longrightarrow> cache_inv (snd (skip_idle_scan v rt))"
  by (auto simp: cache_inv_def skip_idle_scan_def)

lemma drain_queue_empty:
  assumes "drain_queue J clk fresh y = (Inr True, y')"
  shows "y' = y" and "list_pending_app_event_runs (sys_db y) = []"
    and "app_event_queue_workflow_ids (sys_db y) = []"
proof -
  let ?ps = "list_pending_app_event_runs (sys_db y)"
  let ?y1 = "drain_pending J ?ps y"
  let ?ws = "app_event_queue_workflow_ids (sys_db ?y1)"
  have "?ps = [] \<and> ?ws = [] \<and> drain_workflows J clk fresh 0 ?ws ?y1 = (Inr (), y')"
    using assms by (auto simp: drain_queue_def Let_def split: prod.splits sum.splits)
  moreover from this have "?y1 = y" by (simp add: drain_pending_def)
  ultimately show "y' = y" "?ps = []" "app_event_queue_workflow_ids (sys_db y) = []" by auto
qed

section \<open>A sample queue\<close>

definition ex_trigger_row :: trigger_row where
  "ex_trigger_row = \<lparr>tr_id = ''t'', tr_workflow = ''w'', tr_source = ''app'', tr_label = [],
     tr_config_json = [], tr_secret = None, tr_enabled = True, tr_last_fired = None,
     tr_created = ''1'', tr_updated = ''1''\<rparr>"

definition ex_queue_row :: queue_row where
  "ex_queue_row = \<lparr>q_id = ''q'', q_trigger = ''t'', q_event = ''e'', q_json = ''{}'', q_enqueued = ''2''\<rparr>"

definition ex_queue_db :: db where
  "ex_queue_db = ex_wf_db\<lparr>triggers := [ex_trigger_row],
     app_event_receipts := [mk_receipt ''t'' ''e'' ''2'' Queued None],
     app_event_queue := [ex_queue_row]\<rparr>"

lemmas ex_queue_defs = ex_queue_db_def ex_wf_db_def empty_db_def ex_trigger_row_def
  ex_queue_row_def mk_receipt_def

lemma ex_queue_db_inv: "ev_inv ex_queue_db"
  by (simp add: ev_inv_parts schema_defs ex_queue_defs workflow_exists_def trigger_exists_def
      Collect_conv_if queue_matches_def run_iff_enqueued_def runs_unshared_def runs_resolve_def)

lemma ex_promote:
  "\<exists>d'. promote_next_app_event ''w'' ''r'' ''3'' ex_queue_db =
     (Inr (Some \<lparr>pr_run_id = ''r'', pr_workflow_id = ''w'', pr_created_at = ''3''\<rparr>), d')"
  by (simp add: promote_next_app_event_def next_queued_def q_of_workflow_def ex_queue_defs
      insert_run_def pending_run_def workflow_exists_def)

section \<open>Properties\<close>

text \<open>Property C21 (a promoted event survives a crash): the run made from a queued event is listed
  among the pending runs that the next scan starts, so a crash between the promotion and the start
  does not lose it; and the event it was made from is the oldest queued event of the workflow's
  enabled triggers, has left the queue, and gave the run its payload.\<close>

theorem promotion_is_fifo_and_recoverable:
  assumes "ev_inv d" and "promote_next_app_event w rid now d = (Inr (Some p), d')"
  shows "p \<in> set (list_pending_app_event_runs d')
     \<and> (\<exists>q \<in> set (app_event_queue d). q_of_workflow w d q \<and> q \<notin> set (app_event_queue d')
          \<and> (\<forall>x \<in> set (app_event_queue d). q_of_workflow w d x
               \<longrightarrow> (q_enqueued q, q_id q) \<le> (q_enqueued x, q_id x))
          \<and> pending_run rid w ''app'' (Some (q_json q)) now \<in> set (runs d'))"
proof -
  obtain q where q: "next_queued w d = Some q"
    and d': "d' = d\<lparr>runs := runs d @ [pending_run rid w ''app'' (Some (q_json q)) now],
       app_event_receipts := promoted_receipt q rid (app_event_receipts d),
       app_event_queue := filter (\<lambda>x. q_id x \<noteq> q_id q) (app_event_queue d)\<rparr>"
    using assms(2) by (rule promote_Some)
  have "q \<in> set (app_event_queue d)" "q_of_workflow w d q" using next_queued_mem [OF q] by simp_all
  moreover have "q \<notin> set (app_event_queue d')" by (simp add: d')
  moreover have "pending_run rid w ''app'' (Some (q_json q)) now \<in> set (runs d')" by (simp add: d')
  ultimately show ?thesis
    using promoted_run_pending [OF assms] next_queued_oldest [OF q] by blast
qed

text \<open>Witness: the queued event of the sample queue.\<close>

theorem promotion_is_fifo_and_recoverable_witness:
  "\<lparr>pr_run_id = ''r'', pr_workflow_id = ''w'', pr_created_at = ''3''\<rparr>
     \<in> set (list_pending_app_event_runs (snd (promote_next_app_event ''w'' ''r'' ''3'' ex_queue_db)))"
proof -
  obtain d' where e: "promote_next_app_event ''w'' ''r'' ''3'' ex_queue_db =
     (Inr (Some \<lparr>pr_run_id = ''r'', pr_workflow_id = ''w'', pr_created_at = ''3''\<rparr>), d')"
    using ex_promote ..
  with promotion_is_fifo_and_recoverable [OF ex_queue_db_inv e] show ?thesis by simp
qed

text \<open>Recovery fails interrupted runs and starts nothing: after a restart no run that
  came from an event is left running; queue, receipts and the list of pending runs are as they
  were, so an interrupted run is not executed a second time.\<close>

theorem recovery_never_requeues:
  "let d' = snd (fail_interrupted_app_event_runs now d) in
     filter (interrupted d') (runs d') = []
     \<and> app_event_queue d' = app_event_queue d \<and> app_event_receipts d' = app_event_receipts d
     \<and> list_pending_app_event_runs d' = list_pending_app_event_runs d
     \<and> map run_id (runs d') = map run_id (runs d)"
proof -
  let ?d = "snd (fail_interrupted_app_event_runs now d)"
  let ?f = "\<lambda>r. r\<lparr>run_status := Failed, run_finished := Some now,
                run_error := Some ''Interrupted when Alfred exited''\<rparr>"
  have runs: "runs ?d = update_where (interrupted d) ?f (runs d)"
    by (simp add: fail_interrupted_app_event_runs_def)
  have rc: "app_event_receipts ?d = app_event_receipts d" "app_event_queue ?d = app_event_queue d"
    by (simp_all add: fail_interrupted_app_event_runs_def)
  have hr: "has_receipt ?d = has_receipt d" by (rule ext) (simp add: has_receipt_def rc)
  then have "interrupted ?d = interrupted d" by (rule_tac ext) (simp add: interrupted_def)
  then have "filter (interrupted ?d) (runs ?d) = []"
    unfolding runs by (auto simp: filter_empty_conv update_where_def interrupted_def)
  moreover have "filter (\<lambda>r. has_receipt ?d r \<and> run_trigger_kind r = ''app'' \<and> run_status r = Pending)
        (runs ?d)
      = filter (\<lambda>r. has_receipt d r \<and> run_trigger_kind r = ''app'' \<and> run_status r = Pending) (runs d)"
    unfolding runs hr by (rule filter_update_where) (simp add: interrupted_def)
  then have "list_pending_app_event_runs ?d = list_pending_app_event_runs d"
    unfolding list_pending_app_event_runs_def by simp
  moreover have "map run_id (runs ?d) = map run_id (runs d)" unfolding runs by simp
  ultimately show ?thesis using rc by (simp add: Let_def)
qed

text \<open>Property C27 (pruning never forgets a queued event): after old receipts are pruned, a provider
  that delivers an event again while it is still queued is told it is a duplicate, and nothing
  changes.\<close>

theorem prune_keeps_dedup_of_queued:
  assumes "ev_inv d" and "q \<in> set (app_event_queue d)"
    and "d' = snd (prune_app_event_receipts cutoff d)"
  shows "record_app_event (q_trigger q) (q_event q) payload replayable cap now qid d'
     = (Inr ODuplicate, d') \<and> app_event_queue d' = app_event_queue d"
proof -
  obtain P where d': "d' = d\<lparr>app_event_receipts := filter P (app_event_receipts d)\<rparr>"
    and P: "\<forall>r. rc_disposition r = Queued \<longrightarrow> P r"
    using prune_app_event_receipts_filter [of cutoff d] assms(3) by blast
  have "q_key q \<in> rc_key ` {r \<in> set (app_event_receipts d). rc_disposition r = Queued}"
    using assms(1,2) unfolding ev_inv_def queue_matches_def by blast
  then have "q_key q \<in> rc_key ` set (filter P (app_event_receipts d))" using P by auto
  then have "q_key q \<in> set (map rc_key (app_event_receipts d'))" by (simp add: d')
  then show ?thesis by (simp add: record_app_event_def d')
qed

text \<open>Witness: the queued event of the sample queue, pruned with a cutoff after its arrival.\<close>

theorem prune_keeps_dedup_of_queued_witness:
  "fst (record_app_event ''t'' ''e'' ''{}'' True 10 ''5'' ''q2''
     (snd (prune_app_event_receipts ''9'' ex_queue_db))) = Inr ODuplicate"
  using prune_keeps_dedup_of_queued [where d = ex_queue_db and q = ex_queue_row and cutoff = "''9''"
      and payload = "''{}''" and replayable = True and cap = 10 and now = "''5''" and qid = "''q2''",
      OF ex_queue_db_inv _ refl]
  by (simp add: ex_queue_db_def ex_queue_row_def)



text \<open>A reload is seen by the very next tick: after \<^verbatim>\<open>reload()\<close> the next scan reads the
  database, whatever was cached before.\<close>

theorem reload_forces_scan:
  assumes "cache_inv rt" and "unat (rt_revision rt) + 2 < 2 ^ 64"
  shows "\<not> fst (skip_idle_scan (rt_revision (reload rt)) (reload rt))"
proof -
  have "unat (rt_revision rt + 1) = unat (rt_revision rt) + 1"
    using assms(2) by (intro unat_Suc_word) simp
  then have "unat (rt_revision rt + 1 + 1) = unat (rt_revision rt) + 2"
    using unat_Suc_word [of "rt_revision rt + 1"] assms(2) by simp
  then have "unat (rt_idle_at_revision rt) \<noteq> unat (rt_revision rt + 1 + 1)"
    using assms(1) unfolding cache_inv_def by linarith
  then have "rt_idle_at_revision rt \<noteq> rt_revision rt + 1 + 1" by metis
  then show ?thesis by (simp add: skip_idle_scan_def reload_fields)
qed

text \<open>Witness: a runtime whose cache is armed at revision 7.\<close>

theorem reload_forces_scan_witness:
  "let rt = AppEventRuntime_default\<lparr>rt_revision := 7, rt_idle_at_revision := 8\<rparr> in
     fst (skip_idle_scan (rt_revision rt) rt)
     \<and> \<not> fst (skip_idle_scan (rt_revision (reload rt)) (reload rt))"
proof -
  let ?rt = "AppEventRuntime_default\<lparr>rt_revision := 7, rt_idle_at_revision := 8\<rparr>"
  have "cache_inv ?rt" by (simp add: cache_inv_def)
  moreover have "unat (rt_revision ?rt) + 2 < 2 ^ 64" by simp
  moreover have "fst (skip_idle_scan (rt_revision ?rt) ?rt)"
    by (simp add: skip_idle_scan_def AppEventRuntime_default_def IDLE_RESCAN_TICKS_def)
  ultimately show ?thesis using reload_forces_scan unfolding Let_def by blast
qed

lemma skip_iter:
  assumes "rt_idle_at_revision rt = v + 1" and "unat (rt_skipped_ticks rt) + i \<le> 60"
  shows "((snd \<circ> skip_idle_scan v) ^^ i) rt =
     rt\<lparr>rt_skipped_ticks := rt_skipped_ticks rt + word_of_nat i\<rparr>"
  using assms(2)
proof (induction i)
  case (Suc i)
  let ?w = "rt_skipped_ticks rt + word_of_nat i"
  have "unat ?w = unat (rt_skipped_ticks rt) + i"
    using Suc.prems by (simp add: unat_word_ariths unat_of_nat)
  then have "\<not> IDLE_RESCAN_TICKS \<le> ?w"
    using Suc.prems by (simp add: word_le_nat_alt IDLE_RESCAN_TICKS_def)
  with Suc assms(1) show ?case by (simp add: skip_idle_scan_def algebra_simps)
qed simp

text \<open>A stale cache costs at most a minute: among any 61 consecutive ticks at the same
  revision at least one reads the database, from any state of the cache.\<close>

theorem idle_rescan_within_61_ticks:
  "\<exists>i \<le> 60. \<not> fst (skip_idle_scan v (((snd \<circ> skip_idle_scan v) ^^ i) rt))"
proof (cases "rt_idle_at_revision rt = v + 1 \<and> unat (rt_skipped_ticks rt) \<le> 60")
  case True
  let ?i = "60 - unat (rt_skipped_ticks rt)"
  have "((snd \<circ> skip_idle_scan v) ^^ ?i) rt =
      rt\<lparr>rt_skipped_ticks := rt_skipped_ticks rt + word_of_nat ?i\<rparr>"
    using True by (intro skip_iter) simp_all
  moreover have "unat (rt_skipped_ticks rt + word_of_nat ?i) = 60"
    using True by (simp add: unat_word_ariths unat_of_nat)
  ultimately have "\<not> fst (skip_idle_scan v (((snd \<circ> skip_idle_scan v) ^^ ?i) rt))"
    by (simp add: skip_idle_scan_def IDLE_RESCAN_TICKS_def word_le_nat_alt)
  then show ?thesis by (intro exI [of _ ?i]) simp
next
  case False
  then have "\<not> fst (skip_idle_scan v rt)"
    by (auto simp: skip_idle_scan_def IDLE_RESCAN_TICKS_def word_le_nat_alt)
  then show ?thesis by (intro exI [of _ 0]) simp
qed

text \<open>An upsert leaves a row of its key that is either the inserted or an updated one.\<close>

lemma upsert_state_row:
  assumes "upsert_state ins upd d = Inr d'" and "\<And>r. ts_trigger (upd r) = ts_trigger r"
    and "\<And>r. P (upd r)" and "P ins"
  shows "\<exists>r \<in> set (app_trigger_state d'). ts_trigger r = ts_trigger ins \<and> P r"
proof (cases "ts_trigger ins \<in> set (map ts_trigger (app_trigger_state d))")
  case True
  then obtain x where x: "x \<in> set (app_trigger_state d)" "ts_trigger x = ts_trigger ins" by auto
  have "app_trigger_state d' =
      update_where (\<lambda>r. ts_trigger r = ts_trigger ins) upd (app_trigger_state d)"
    using assms(1) True by (auto simp: upsert_state_def)
  then have "upd x \<in> set (app_trigger_state d')" using x by (auto simp: set_update_where)
  then show ?thesis using assms(2,3) x(2) by (intro bexI [of _ "upd x"]) simp_all
next
  case False
  then have "app_trigger_state d' = app_trigger_state d @ [ins]"
    using assms(1) by (auto simp: upsert_state_def split: if_splits)
  then show ?thesis using assms(4) by simp
qed

text \<open>A failed trigger waits: once a failure was recorded with a retry deadline, a
  trigger whose event type is registered is not due before that deadline.\<close>

theorem backoff_is_respected:
  assumes "chrono_faithful (lib_chrono L)"
    and "mark_app_trigger_error (t_id t) code (Some (to_rfc3339 (lib_chrono L) deadline)) nows d
      = (Inr (), d')"
    and "ev_inv d"
    and "config_of_json L (t_config t) = Some cf"
    and "rg_descriptor R (cf_provider_id cf) (cf_event_type cf) = Some de" and "now < deadline"
  shows "\<not> is_due L R now d' t"
proof -
  let ?next = "Some (to_rfc3339 (lib_chrono L) deadline)"
  have "ev_inv d'" using mark_app_trigger_error_inv [OF assms(3)] assms(2) by (metis snd_conv)
  then have dist: "distinct (map ts_trigger (app_trigger_state d'))" by (simp add: ev_inv_def schema_defs)
  have "\<exists>r \<in> set (app_trigger_state d'). ts_trigger r = t_id t \<and> ts_next_attempt r = ?next"
  proof -
    let ?ins = "(new_state (t_id t) nows)\<lparr>ts_last_error := Some code, ts_next_attempt := ?next,
        ts_retry := 1\<rparr>"
    let ?upd = "\<lambda>r. r\<lparr>ts_last_error := Some code, ts_next_attempt := ?next,
        ts_retry := ts_retry r + 1, ts_updated := nows\<rparr>"
    have "upsert_state ?ins ?upd d = Inr d'"
      using assms(2) by (auto simp: mark_app_trigger_error_def lift_db_def split: sum.splits)
    from upsert_state_row [where P = "\<lambda>r. ts_next_attempt r = ?next", OF this] show ?thesis
      by (simp add: new_state_def)
  qed
  then obtain r where r: "r \<in> set (app_trigger_state d')" "ts_trigger r = t_id t"
    "ts_next_attempt r = ?next" by blast
  have "get_app_trigger_state (t_id t) d' = Some (map_state r)"
    using find_distinct [OF dist r(1)] r(2) by (simp add: get_app_trigger_state_def)
  moreover have "is_future (lib_chrono L) now (to_rfc3339 (lib_chrono L) deadline)"
    using assms(1,6) by (simp add: is_future_def chrono_faithful_def)
  ultimately show ?thesis
    using assms(4,5) r(3) by (simp add: is_due_def Let_def map_state_def)
qed

text \<open>Witness: the sample clock, the sample feed, a deadline one nanosecond away.\<close>

definition ex_runtime_libs :: libs where
  "ex_runtime_libs = ex_libs\<lparr>lib_chrono := unary_clock\<rparr>"

definition ex_trigger :: Trigger where
  "ex_trigger = \<lparr>t_id = ''t'', t_workflow_id = ''w'', t_source = ''app'', t_label = [],
     t_config = JObject [(''providerId'', JString ''gh''), (''eventType'', JString ''push''),
       (''connectionId'', JString ''c''), (''descriptorVersion'', JNumber ''1'')],
     t_secret = None, t_enabled = True, t_last_fired_at = None, t_created_at = ''1'',
     t_updated_at = ''1''\<rparr>"

definition ex_registry :: AppEventRegistry where
  "ex_registry = \<lparr>rg_events = [(event_key ''gh'' ''push'', (ex_desc,
     \<lparr>ad_poll = (\<lambda>_ _ _ _. Elapsed), ad_connect = (\<lambda>_ _ _. Elapsed),
      ad_renew = (\<lambda>_ _ _ _. Elapsed)\<rparr>))], rg_socket_syncs = []\<rparr>"

theorem backoff_is_respected_witness:
  "\<not> is_due ex_runtime_libs ex_registry 0
     (snd (mark_app_trigger_error ''t'' ''timed_out'' (Some (to_rfc3339 unary_clock 1)) ''2'' ex_queue_db))
     ex_trigger"
proof -
  have "chrono_faithful (lib_chrono ex_runtime_libs)"
    by (simp add: ex_runtime_libs_def unary_clock_faithful)
  moreover have "mark_app_trigger_error (t_id ex_trigger) ''timed_out''
      (Some (to_rfc3339 (lib_chrono ex_runtime_libs) 1)) ''2'' ex_queue_db
      = (Inr (), snd (mark_app_trigger_error ''t'' ''timed_out'' (Some (to_rfc3339 unary_clock 1)) ''2''
           ex_queue_db))"
    by (simp add: mark_app_trigger_error_def lift_db_def upsert_state_def new_state_def ex_trigger_def
        ex_queue_defs trigger_exists_def ex_runtime_libs_def)
  moreover have "config_of_json ex_runtime_libs (t_config ex_trigger) = Some \<lparr>cf_provider_id = ''gh'',
      cf_event_type = ''push'', cf_connection_id = ''c'', cf_filters = [], cf_descriptor_version = 1\<rparr>"
    by (simp add: config_of_json_def ex_trigger_def get_str_def ex_runtime_libs_def ex_libs_def)
  moreover have "rg_descriptor ex_registry ''gh'' ''push'' = Some ex_desc"
    by (simp add: rg_descriptor_def registration_def ex_registry_def)
  ultimately show ?thesis
    using backoff_is_respected [where d = ex_queue_db and now = 0 and deadline = 1 and t = ex_trigger
        and L = ex_runtime_libs and R = ex_registry and de = ex_desc, OF _ _ ex_queue_db_inv]
    by simp
qed

text \<open>A trigger that cannot be synchronised is retried every tick: when the stored
  configuration does not parse, or its event type is not registered, the trigger is due whatever
  retry deadline was recorded, so the backoff that is persisted for it has no effect.\<close>

theorem unusable_trigger_ignores_backoff:
  assumes "case config_of_json L (t_config t) of None \<Rightarrow> True
     | Some cf \<Rightarrow> rg_descriptor R (cf_provider_id cf) (cf_event_type cf) = None"
  shows "is_due L R now (record_sync_error L (t_id t) e jitter now nows d) t"
  using assms by (auto simp: is_due_def split: option.splits)

text \<open>Witness: the sample trigger with an empty registry.\<close>

theorem unusable_trigger_ignores_backoff_witness:
  "is_due ex_runtime_libs \<lparr>rg_events = [], rg_socket_syncs = []\<rparr> 0
     (record_sync_error ex_runtime_libs ''t'' (AppEventError_new EventNotFound) (\<lambda>_. 0) 0 ''2'' ex_queue_db)
     ex_trigger"
proof -
  have "case config_of_json ex_runtime_libs (t_config ex_trigger) of None \<Rightarrow> True
     | Some cf \<Rightarrow> rg_descriptor \<lparr>rg_events = [], rg_socket_syncs = []\<rparr> (cf_provider_id cf)
         (cf_event_type cf) = None"
    by (simp add: rg_descriptor_def registration_def split: option.split)
  from unusable_trigger_ignores_backoff [OF this] show ?thesis by (simp add: ex_trigger_def)
qed

end
