(* ===== verification/Scheduler.thy ===== *)
theory Scheduler
  imports Run_Lifecycle
begin

text \<open>
  Scheduled and event-driven starts: \<^verbatim>\<open>scheduler/mod.rs\<close> and \<^verbatim>\<open>triggers/mod.rs\<close> (\<^verbatim>\<open>fire\<close>). The \<^verbatim>\<open>cron\<close>
  crate is a parameter: \<open>cron_parse\<close> reads an expression or gives the text of its error, \<open>cron_next\<close>
  gives the first fire time after an instant. \<open>cron_later\<close> is its documented contract: an upcoming
  time is strictly after the given one.
\<close>

datatype SchedulerError = SchedMessage rstring

record 'c cron =
  cron_parse :: "rstring \<Rightarrow> rstring + 'c"
  cron_next :: "'c \<Rightarrow> int \<Rightarrow> int option"

definition cron_later :: "'c cron \<Rightarrow> bool" where
  "cron_later K = (\<forall>c a t. cron_next K c a = Some t \<longrightarrow> a < t)"

definition bq :: rstring where "bq = [CHR 0x60]"

definition next_run_from_cron :: "'c cron \<Rightarrow> rstring \<Rightarrow> int \<Rightarrow> SchedulerError + int" where
  "next_run_from_cron K cron after =
     (case cron_parse K (trim cron) of
        Inl e \<Rightarrow> Inl (SchedMessage (''invalid cron '' @ bq @ cron @ bq @ '': '' @ e))
      | Inr c \<Rightarrow> (case cron_next K c after of
          None \<Rightarrow> Inl (SchedMessage (''cron '' @ bq @ cron @ bq @ '' has no upcoming time''))
        | Some t \<Rightarrow> Inr t))"

definition upsert_schedule ::
  "serde \<Rightarrow> chrono \<Rightarrow> 'c cron \<Rightarrow> rstring \<Rightarrow> rstring \<Rightarrow> bool \<Rightarrow> int \<Rightarrow> rstring \<Rightarrow> rstring \<Rightarrow> db
    \<Rightarrow> (SchedulerError + schedule_row) \<times> db" where
  "upsert_schedule J C K wid cron enabled now i nows d =
     (let save = (\<lambda>next. case upsert_schedule_row J wid cron enabled next i nows d of
            (Inl e, d') \<Rightarrow> (Inl (SchedMessage (db_error_text e)), d')
          | (Inr s, d') \<Rightarrow> (Inr s, d'))
      in if enabled then (case next_run_from_cron K cron now of
              Inl e \<Rightarrow> (Inl e, d)
            | Inr t \<Rightarrow> save (Some (to_rfc3339 C t)))
         else save None)"

section \<open>The tick\<close>

definition next_of :: "chrono \<Rightarrow> schedule_row \<Rightarrow> int option" where
  "next_of C s = Option.bind (sc_next_run s) (parse_rfc3339 C)"

definition advance ::
  "chrono \<Rightarrow> 'c cron \<Rightarrow> int \<Rightarrow> rstring \<Rightarrow> schedule_row \<Rightarrow> sys \<Rightarrow> (SchedulerError + unit) \<times> sys" where
  "advance C K now nows s y = (case next_run_from_cron K (sc_cron s) now of
      Inl e \<Rightarrow> (Inl e, y)
    | Inr t \<Rightarrow> (Inr (), y\<lparr>sys_db :=
        set_schedule_next_run (sc_id s) (Some (to_rfc3339 C t)) nows (sys_db y)\<rparr>))"

definition runner_message :: "RunnerError \<Rightarrow> rstring" where
  "runner_message e = (case e of Message m \<Rightarrow> m)"

definition tick_schedule ::
  "serde \<Rightarrow> chrono \<Rightarrow> 'c cron \<Rightarrow> int \<Rightarrow> rstring \<Rightarrow> rstring \<Rightarrow> schedule_row \<Rightarrow> nat \<Rightarrow> sys
    \<Rightarrow> (SchedulerError + nat) \<times> sys" where
  "tick_schedule J C K now nows rid s fired y =
     (case next_of C s of
        None \<Rightarrow> (case advance C K now nows s y of
            (Inl e, y') \<Rightarrow> (Inl e, y') | (Inr _, y') \<Rightarrow> (Inr fired, y'))
      | Some next \<Rightarrow>
        if \<not> next \<le> now then (Inr fired, y)
        else (case start_run J (sc_workflow s) Schedule None rid nows y of
            (Inl e, y') \<Rightarrow> (Inl (SchedMessage (runner_message e)), y')
          | (Inr _, y') \<Rightarrow> (case advance C K now nows s y' of
              (Inl e, y'') \<Rightarrow> (Inl e, y'') | (Inr _, y'') \<Rightarrow> (Inr (fired + 1), y''))))"

fun tick_loop ::
  "serde \<Rightarrow> chrono \<Rightarrow> 'c cron \<Rightarrow> int \<Rightarrow> (nat \<Rightarrow> rstring) \<Rightarrow> (nat \<Rightarrow> rstring) \<Rightarrow> nat
    \<Rightarrow> schedule_row list \<Rightarrow> nat \<Rightarrow> sys \<Rightarrow> (SchedulerError + nat) \<times> sys" where
  "tick_loop J C K now clk fresh i [] fired y = (Inr fired, y)"
| "tick_loop J C K now clk fresh i (s # ss) fired y =
     (case tick_schedule J C K now (clk i) (fresh i) s fired y of
        (Inl e, y') \<Rightarrow> (Inl e, y')
      | (Inr n, y') \<Rightarrow> tick_loop J C K now clk fresh (Suc i) ss n y')"

definition tick ::
  "serde \<Rightarrow> chrono \<Rightarrow> 'c cron \<Rightarrow> int \<Rightarrow> (nat \<Rightarrow> rstring) \<Rightarrow> (nat \<Rightarrow> rstring) \<Rightarrow> sys
    \<Rightarrow> (SchedulerError + nat) \<times> sys" where
  "tick J C K now clk fresh y =
     tick_loop J C K now clk fresh 0 (list_enabled_schedules (sys_db y)) 0 y"

section \<open>Firing a trigger\<close>

definition fire ::
  "serde \<Rightarrow> (json \<Rightarrow> rstring option) \<Rightarrow> Trigger \<Rightarrow> json \<Rightarrow> rstring \<Rightarrow> rstring \<Rightarrow> sys
    \<Rightarrow> (rstring + rstring) \<times> sys" where
  "fire J pretty t payload rid now y =
     (case start_run J (t_workflow_id t) (Event (t_source t))
             (Some (unwrap_or ''{}'' (pretty payload))) rid now y of
        (Inl e, y') \<Rightarrow> (Inl (runner_message e), y')
      | (Inr s, y') \<Rightarrow> (Inr (rs_id s),
          y'\<lparr>sys_db := mark_trigger_fired (t_id t) now (sys_db y')\<rparr>))"

section \<open>Invariants\<close>

lemma advance_inv: "sys_inv y \<Longrightarrow> sys_inv (snd (advance C K now nows s y))"
  by (auto simp: advance_def sys_inv_def set_schedule_next_run_inv split: sum.split)

lemma tick_schedule_inv: "sys_inv y \<Longrightarrow> sys_inv (snd (tick_schedule J C K now nows rid s fired y))"
proof -
  assume inv: "sys_inv y"
  have a: "sys_inv (snd (advance C K now nows s y))" using inv by (rule advance_inv)
  have st: "sys_inv (snd (start_run J (sc_workflow s) Schedule None rid nows y))"
    using inv by (rule start_run_inv)
  then have "sys_inv (snd (advance C K now nows s (snd (start_run J (sc_workflow s) Schedule None rid nows y))))"
    by (rule advance_inv)
  with inv a st show ?thesis
    by (auto simp: tick_schedule_def split: option.split prod.split sum.split)
qed

lemma tick_loop_inv: "sys_inv y \<Longrightarrow> sys_inv (snd (tick_loop J C K now clk fresh i ss fired y))"
proof (induction ss arbitrary: i fired y)
  case (Cons s ss)
  have "sys_inv (snd (tick_schedule J C K now (clk i) (fresh i) s fired y))"
    using Cons.prems by (rule tick_schedule_inv)
  with Cons.IH show ?case by (auto split: prod.split sum.split)
qed simp

lemma tick_inv: "sys_inv y \<Longrightarrow> sys_inv (snd (tick J C K now clk fresh y))"
  unfolding tick_def by (rule tick_loop_inv)

lemma fire_inv:
  assumes "sys_inv y"
  shows "sys_inv (snd (fire J pretty t payload rid now y))"
proof -
  have "sys_inv (snd (start_run J (t_workflow_id t) (Event (t_source t))
      (Some (unwrap_or ''{}'' (pretty payload))) rid now y))" using assms by (rule start_run_inv)
  then show ?thesis
    by (auto simp: fire_def sys_inv_def mark_trigger_fired_inv split: prod.split sum.split)
qed

section \<open>No schedule is left due\<close>

lemma start_run_schedules: "schedules (sys_db (snd (start_run J w tr pl rid now y))) = schedules (sys_db y)"
proof -
  have "schedules (snd (enqueue_run J w tr pl rid now d)) = schedules d" for d
    by (rule enqueue_run_cases [of J w tr pl rid now d]) (simp_all add: insert_run_Inr)
  then show ?thesis
    by (auto simp: start_run_def start_run_guard_def start_run_body_def spawn_run_execution_eq
        split: prod.split sum.split, (metis snd_conv)+)
qed

lemma advance_Inr:
  assumes "advance C K now nows s y = (Inr u, y')"
  obtains t where "next_run_from_cron K (sc_cron s) now = Inr t"
    "schedules (sys_db y') = update_where (\<lambda>x. sc_id x = sc_id s)
       (\<lambda>x. x\<lparr>sc_next_run := Some (to_rfc3339 C t), sc_updated := nows\<rparr>) (schedules (sys_db y))"
  using assms by (auto simp: advance_def set_schedule_next_run_def split: sum.splits)

lemma next_run_later:
  "cron_later K \<Longrightarrow> next_run_from_cron K c now = Inr t \<Longrightarrow> now < t"
  by (auto simp: next_run_from_cron_def cron_later_def split: sum.splits option.splits)

text \<open>The rows that are not due.\<close>

definition later_row :: "chrono \<Rightarrow> int \<Rightarrow> schedule_row \<Rightarrow> bool" where
  "later_row C now s = (case next_of C s of Some t \<Rightarrow> now < t | None \<Rightarrow> False)"

lemma tick_schedule_rows:
  assumes "cron_later K" and "chrono_faithful C"
    and "tick_schedule J C K now nows rid s fired y = (Inr n, y')"
  shows "(later_row C now s \<and> y' = y)
     \<or> (\<exists>f. schedules (sys_db y') = update_where (\<lambda>x. sc_id x = sc_id s) f (schedules (sys_db y))
          \<and> (\<forall>x. later_row C now (f x) \<and> sc_id (f x) = sc_id x \<and> sc_enabled (f x) = sc_enabled x))"
proof -
  have adv: "\<exists>f. schedules (sys_db y2) = update_where (\<lambda>x. sc_id x = sc_id s) f (schedules (sys_db y1))
      \<and> (\<forall>x. later_row C now (f x) \<and> sc_id (f x) = sc_id x \<and> sc_enabled (f x) = sc_enabled x)"
    if adv: "advance C K now nows s y1 = (Inr u, y2)" for y1 y2 u
  proof -
    from adv obtain t where t: "next_run_from_cron K (sc_cron s) now = Inr t"
      and r: "schedules (sys_db y2) = update_where (\<lambda>x. sc_id x = sc_id s)
       (\<lambda>x. x\<lparr>sc_next_run := Some (to_rfc3339 C t), sc_updated := nows\<rparr>) (schedules (sys_db y1))"
      by (rule advance_Inr)
    have "now < t" using assms(1) t by (rule next_run_later)
    with assms(2) have "later_row C now (x\<lparr>sc_next_run := Some (to_rfc3339 C t), sc_updated := nows\<rparr>)" for x
      by (simp add: later_row_def next_of_def chrono_faithful_def)
    with r show ?thesis by fastforce
  qed
  show ?thesis
  proof (cases "later_row C now s")
    case True
    then have "y' = y"
      using assms(3) by (auto simp: tick_schedule_def later_row_def split: option.splits)
    with True show ?thesis by simp
  next
    case False
    then have "(\<exists>u. advance C K now nows s y = (Inr u, y'))
        \<or> (\<exists>u. advance C K now nows s (snd (start_run J (sc_workflow s) Schedule None rid nows y)) = (Inr u, y'))"
      using assms(3)
      by (auto simp: tick_schedule_def later_row_def split: option.splits prod.splits sum.splits if_splits)
    then show ?thesis using adv start_run_schedules by metis
  qed
qed

lemma tick_loop_rows:
  assumes "cron_later K" and "chrono_faithful C"
    and "tick_loop J C K now clk fresh i ss fired y = (Inr n, y')"
    and "distinct (map sc_id (schedules (sys_db y)))" and "set ss \<subseteq> set (schedules (sys_db y))"
    and "distinct (map sc_id ss)" and "x' \<in> set (schedules (sys_db y'))"
  shows "later_row C now x' \<or> (x' \<in> set (schedules (sys_db y)) \<and> sc_id x' \<notin> sc_id ` set ss)"
  using assms(3-)
proof (induction ss arbitrary: i fired y)
  case (Cons s ss)
  obtain m y1 where t: "tick_schedule J C K now (clk i) (fresh i) s fired y = (Inr m, y1)"
    and l: "tick_loop J C K now clk fresh (Suc i) ss m y1 = (Inr n, y')"
    using Cons.prems(1) by (auto split: prod.splits sum.splits)
  from tick_schedule_rows [OF assms(1,2) t] show ?case
  proof
    assume "later_row C now s \<and> y1 = y"
    moreover from this l Cons have "later_row C now x'
        \<or> (x' \<in> set (schedules (sys_db y)) \<and> sc_id x' \<notin> sc_id ` set ss)" by simp
    moreover have "x' = s" if "x' \<in> set (schedules (sys_db y))" "sc_id x' = sc_id s"
      using distinct_map_eq [OF Cons.prems(2) that(1) _ that(2)] Cons.prems(3) by simp
    ultimately show ?thesis by auto
  next
    assume "\<exists>f. schedules (sys_db y1) = update_where (\<lambda>x. sc_id x = sc_id s) f (schedules (sys_db y))
          \<and> (\<forall>x. later_row C now (f x) \<and> sc_id (f x) = sc_id x \<and> sc_enabled (f x) = sc_enabled x)"
    then obtain f where r: "schedules (sys_db y1) =
        update_where (\<lambda>x. sc_id x = sc_id s) f (schedules (sys_db y))"
      and f: "\<And>x. later_row C now (f x)" "\<And>x. sc_id (f x) = sc_id x" by blast
    have "distinct (map sc_id (schedules (sys_db y1)))" using Cons.prems(2) f(2) r by simp
    moreover have "set ss \<subseteq> set (schedules (sys_db y1))"
      using Cons.prems(3,4) unfolding r set_update_where by (force simp: image_iff)
    ultimately have "later_row C now x'
        \<or> (x' \<in> set (schedules (sys_db y1)) \<and> sc_id x' \<notin> sc_id ` set ss)"
      using Cons.IH [OF l] Cons.prems(4,5) by simp
    then show ?thesis using f unfolding r set_update_where by auto
  qed
qed simp

section \<open>Sample schedules\<close>

definition ex_schedule :: "rstring \<Rightarrow> rstring \<Rightarrow> schedule_row" where
  "ex_schedule i w = \<lparr>sc_id = i, sc_workflow = w, sc_cron = ''* * * * * *'', sc_enabled = True,
     sc_next_run = Some (to_rfc3339 unary_clock 0), sc_created = ''1'', sc_updated = ''1''\<rparr>"

definition ex_cron :: "unit cron" where
  "ex_cron = \<lparr>cron_parse = (\<lambda>_. Inr ()), cron_next = (\<lambda>_ a. Some (a + 1))\<rparr>"

definition ex_sched_db :: db where
  "ex_sched_db = ex_wf_db\<lparr>schedules := [ex_schedule ''s'' ''w'']\<rparr>"

definition ex_busy :: sys where
  "ex_busy = (init_sys ex_sched_db)\<lparr>sys_active := snd (register ''r'' ''w'' ''W'' active_empty)\<rparr>"

lemma ex_sched_db_inv: "ev_inv ex_sched_db"
  by (simp add: ev_inv_parts schema_defs ex_sched_db_def ex_wf_db_def empty_db_def ex_schedule_def
      workflow_exists_def queue_matches_def run_iff_enqueued_def runs_unshared_def runs_resolve_def)

lemma ex_cron_later: "cron_later ex_cron"
  by (simp add: cron_later_def ex_cron_def)

section \<open>Properties\<close>

text \<open>Property C29 (no double fire): after a tick that succeeds, every enabled schedule has a next run
  strictly after the instant the tick was run for, so the same occurrence cannot fire again.\<close>

theorem tick_leaves_nothing_due:
  assumes "cron_later K" and "chrono_faithful C" and "sys_inv y"
    and "tick J C K now clk fresh y = (Inr n, y')"
    and "s \<in> set (schedules (sys_db y'))" and "sc_enabled s"
  shows "\<exists>t. next_of C s = Some t \<and> now < t"
proof -
  let ?ss = "list_enabled_schedules (sys_db y)"
  have ids: "distinct (map sc_id (schedules (sys_db y)))"
    using assms(3) by (simp add: sys_inv_def ev_inv_def schema_defs)
  have "distinct (map sc_id ?ss)" unfolding list_enabled_schedules_def
    using distinct_map_filter_rows [OF ids] by (simp add: distinct_map)
  moreover have "set ?ss \<subseteq> set (schedules (sys_db y))" by (auto simp: list_enabled_schedules_def)
  ultimately have "later_row C now s \<or> (s \<in> set (schedules (sys_db y)) \<and> sc_id s \<notin> sc_id ` set ?ss)"
    using tick_loop_rows [OF assms(1,2) _ ids _ _ assms(5)] assms(4) unfolding tick_def by blast
  moreover have "s \<in> set ?ss" if "s \<in> set (schedules (sys_db y))"
    using that assms(6) by (simp add: list_enabled_schedules_def)
  ultimately have "later_row C now s" by blast
  then show ?thesis by (auto simp: later_row_def split: option.splits)
qed

text \<open>Witness: one due schedule.\<close>

theorem tick_leaves_nothing_due_witness:
  "let y' = snd (tick ex_serde unary_clock ex_cron 5 (\<lambda>_. ''2'') (\<lambda>_. ''r'') (init_sys ex_sched_db)) in
     schedules (sys_db y') \<noteq> []
     \<and> (\<forall>s \<in> set (schedules (sys_db y')). \<exists>t. next_of unary_clock s = Some t \<and> 5 < t)"
proof -
  let ?t = "tick ex_serde unary_clock ex_cron 5 (\<lambda>_. ''2'') (\<lambda>_. ''r'') (init_sys ex_sched_db)"
  let ?c = "to_rfc3339 unary_clock 6"
  have c: "parse_rfc3339 unary_clock (to_rfc3339 unary_clock 0) = Some 0"
    using unary_clock_faithful by (simp add: chrono_faithful_def)
  have ss: "list_enabled_schedules ex_sched_db = [ex_schedule ''s'' ''w'']"
    by (simp add: list_enabled_schedules_def ex_sched_db_def ex_schedule_def)
  have t: "fst ?t = Inr 1 \<and> schedules (sys_db (snd ?t)) =
      [(ex_schedule ''s'' ''w'')\<lparr>sc_next_run := Some ?c, sc_updated := ''2''\<rparr>]"
    using ss c
    by (simp add: tick_def init_sys_def tick_schedule_def next_of_def ex_schedule_def start_run_def
        start_run_guard_def has_workflow_def active_empty_def start_run_body_def enqueue_run_def
        get_workflow_def ex_sched_db_def ex_wf_db_def empty_db_def row_to_workflow_def insert_run_def
        pending_run_def workflow_exists_def spawn_run_execution_def register_def Let_def
        advance_def next_run_from_cron_def ex_cron_def set_schedule_next_run_def update_where_def)
  then have e: "?t = (Inr 1, snd ?t)" by (metis prod.collapse)
  have "sys_inv (init_sys ex_sched_db)" using ex_sched_db_inv by (rule sys_inv_init)
  from tick_leaves_nothing_due [OF ex_cron_later unary_clock_faithful this e] t
  show ?thesis by (simp add: Let_def ex_schedule_def)
qed

text \<open>A busy workflow blocks every later schedule: when the workflow of the first due
  schedule is running, the tick stops there: no schedule is started or advanced, in particular no
  later one, and the next tick meets the same schedule again.\<close>

theorem busy_schedule_starves_the_rest:
  assumes "list_enabled_schedules (sys_db y) = s # rest" and "next_of C s = Some t" and "t \<le> now"
    and "has_workflow (sc_workflow s) (sys_active y)"
  shows "tick J C K now clk fresh y = (Inl (SchedMessage ''This workflow is already running''), y)"
  using assms
  by (simp add: tick_def tick_schedule_def start_run_def start_run_guard_def already_running_def
      runner_message_def)

text \<open>Witness: the workflow of the only schedule is running.\<close>

theorem busy_schedule_starves_the_rest_witness:
  "tick ex_serde unary_clock ex_cron 5 (\<lambda>_. ''2'') (\<lambda>_. ''r2'') ex_busy
     = (Inl (SchedMessage ''This workflow is already running''), ex_busy)"
proof -
  have "list_enabled_schedules (sys_db ex_busy) = [ex_schedule ''s'' ''w'']"
    by (simp add: ex_busy_def init_sys_def list_enabled_schedules_def ex_sched_db_def ex_schedule_def)
  moreover have "next_of unary_clock (ex_schedule ''s'' ''w'') = Some 0"
    using unary_clock_faithful by (simp add: next_of_def ex_schedule_def chrono_faithful_def)
  moreover have "has_workflow (sc_workflow (ex_schedule ''s'' ''w'')) (sys_active ex_busy)"
    by (simp add: ex_busy_def register_def Let_def has_workflow_def ex_schedule_def)
  ultimately show ?thesis
    using busy_schedule_starves_the_rest [where y = ex_busy and s = "ex_schedule ''s'' ''w''"
        and rest = "[]" and C = unary_clock and t = 0 and now = 5] by simp
qed

end
