(* ===== verification/Alfred_System.thy ===== *)
theory Alfred_System
  imports Store_Steps App_Runtime Scheduler
begin

text \<open>
  The whole application as one state machine: the event runtime, the database, the registry of
  active runs and the spawned run tasks. A step is one call that the application makes from
  outside: a command of the user interface, a tick of the scheduler or of the event runtime, a
  synchronisation task, a trigger that fires, a status change or recorded step of a running task,
  the end of a task. Every composite call changes the tables only by steps of \<open>db_step\<close>
  (the locale \<open>db_closed\<close>), so the invariant and the simulation of the store carry over.
\<close>

locale db_closed =
  fixes Q :: "db \<Rightarrow> bool"
  assumes closed: "Q d \<Longrightarrow> db_step d d' \<Longrightarrow> Q d'"
begin

lemmas enqueue_run_Q = closed [OF _ db_step.enqueue]
lemmas set_run_status_Q = closed [OF _ db_step.run_status]
lemmas checkpoint_Q = closed [OF _ db_step.checkpoint]
lemmas error_Q = closed [OF _ db_step.trigger_error]
lemmas rejected_Q = closed [OF _ db_step.rejected]
lemmas event_Q = closed [OF _ db_step.event]
lemmas promote_Q = closed [OF _ db_step.promote]
lemmas recover_Q = closed [OF _ db_step.recover]
lemmas prune_Q = closed [OF _ db_step.prune]
lemmas next_run_Q = closed [OF _ db_step.next_run]
lemmas schedule_Q = closed [OF _ db_step.schedule]
lemmas fired_Q = closed [OF _ db_step.fired]
lemmas refresh_Q = closed [OF _ db_step.refresh]

lemma process_event_Q:
  assumes "Q d"
  shows "Q (snd (process_event L de t cf tokens replayable now qid c rep d))"
proof -
  have rej: "Q (snd (reject t i now rep d))" for i
    using assms by (simp add: reject_def rejected_Q)
  have "Q d'" if "record_app_event t i tx replayable cap now qid d = (r, d')" for i tx cap r d'
    using event_Q [OF assms, of t i tx replayable cap now qid] that by simp
  with assms rej show ?thesis
    by (simp add: process_event_def split: sum.split option.split prod.split)
qed

lemma process_events_Q:
  "Q d \<Longrightarrow> Q (snd (process_events L de t cf tokens replayable clk fresh i cs rep d))"
proof (induction cs arbitrary: i rep d)
  case (Cons c cs)
  have "Q (snd (process_event L de t cf tokens replayable (clk i) (fresh i) c rep d))"
    using Cons.prems by (rule process_event_Q)
  with Cons.IH show ?case by (auto split: prod.split sum.split)
qed simp

lemma process_batch_Q:
  assumes "Q d"
  shows "Q (snd (process_batch_for_trigger L de t cf tokens b replayable p clk fresh d))"
proof -
  let ?r = "process_events L de t cf tokens replayable clk fresh 0 (ba_events b) SyncReport_default d"
  have "Q (snd ?r)" using assms by (rule process_events_Q)
  moreover have "Q (snd (save_app_trigger_checkpoint t u now (snd ?r)))" for u now
    using calculation by (rule checkpoint_Q)
  ultimately show ?thesis
    unfolding process_batch_for_trigger_def
    by (cases ?r) (auto simp: Let_def split: sum.split prod.split, (metis snd_conv)+)
qed

lemma fan_out_Q:
  "Q d \<Longrightarrow> Q (snd (fan_out L de cf tokens b tid clk fresh k gs rep d))"
proof (induction gs arbitrary: k rep d)
  case (Cons g gs)
  have "Q (snd (process_batch_for_trigger L de (t_id g) gcf tokens b False p (clk k) (fresh k) d))"
    for gcf p using Cons.prems by (rule process_batch_Q)
  with Cons show ?case
    by (auto split: option.split prod.split sum.split, (metis snd_conv)+)
qed simp

lemma sync_trigger_Q:
  assumes "Q d" and "Q (meanwhile d)"
  shows "Q (snd (sync_trigger_cancellable L R store trig c0 c1 now meanwhile clk fresh d))"
proof -
  have "Q (snd (sync_commit L de cf conn tokens trig re p ans c1 clk fresh (meanwhile d)))"
    for de cf conn tokens re p ans
    using assms(2) by (simp add: sync_commit_def process_batch_Q fan_out_Q
        refresh_Q split: fut.split sum.split)
  with assms(1) show ?thesis
    by (simp add: sync_trigger_cancellable_def split: sum.split prod.split)
qed

lemma record_sync_error_Q: "Q d \<Longrightarrow> Q (record_sync_error L t e jitter now nows d)"
  by (simp add: record_sync_error_def Let_def error_Q)

lemma run_sync_task_Q:
  assumes "Q (sys_db y)" and "Q (meanwhile (sys_db y))"
  shows "Q (sys_db (snd (run_sync_task L R store jitter now meanwhile clk fresh later k rt y)))"
proof -
  have "Q (snd (sync_trigger_cancellable L R store t c later now meanwhile clk fresh (sys_db y)))"
    for t c using assms by (rule sync_trigger_Q)
  then show ?thesis
    using assms(1)
    by (auto simp: run_sync_task_def Let_def record_sync_error_Q
        split: prod.split sum.split, (metis snd_conv record_sync_error_Q)+)
qed

lemma spawn_run_execution_db: "sys_db (spawn_run_execution J s y) = sys_db y"
  by (simp add: spawn_run_execution_eq)

lemma start_run_Q:
  assumes "Q (sys_db y)"
  shows "Q (sys_db (snd (start_run J w tr pl rid now y)))"
  using enqueue_run_Q [OF assms, of J w tr pl rid now] assms
  by (auto simp: start_run_def start_run_body_def spawn_run_execution_db split: option.split
      prod.split sum.split)

lemma start_pending_Q: "Q (sys_db y) \<Longrightarrow> Q (sys_db (snd (start_pending_app_event_run J p y)))"
  by (simp add: start_pending_app_event_run_def Let_def spawn_run_execution_db)

lemma cancel_run_Q: "Q (sys_db y) \<Longrightarrow> Q (sys_db (snd (cancel_run rid now y)))"
  by (simp add: cancel_run_def set_run_status_Q split: prod.split)

lemma drain_pending_Q: "Q (sys_db y) \<Longrightarrow> Q (sys_db (drain_pending J ps y))"
  unfolding drain_pending_def
  by (induction ps arbitrary: y) (simp_all add: start_pending_Q)

lemma drain_workflows_Q:
  "Q (sys_db y) \<Longrightarrow> Q (sys_db (snd (drain_workflows J clk fresh i ws y)))"
proof (induction ws arbitrary: i y)
  case (Cons w ws)
  have "Q (snd (promote_next_app_event w (fresh i) (clk i) (sys_db y)))"
    using Cons.prems by (rule promote_Q)
  with Cons show ?case
    by (auto simp: start_pending_Q split: prod.split sum.split option.split)
qed simp

lemma drain_queue_Q: "Q (sys_db y) \<Longrightarrow> Q (sys_db (snd (drain_queue J clk fresh y)))"
  using drain_workflows_Q [OF drain_pending_Q]
  by (auto simp: drain_queue_def Let_def split: prod.split sum.split, (metis snd_conv)+)

lemma scan_Q:
  assumes "Q (sys_db y)"
  shows "Q (sys_db (snd (snd (scan J day cutoff clk fresh reloads rt y))))"
proof -
  have 1: "Q (sys_db (snd (recover_once (clk 0) rt y)))"
    using assms by (simp add: recover_once_def recover_Q)
  have 2: "Q (sys_db z) \<Longrightarrow> Q (sys_db (snd (prune_daily day cutoff rt' z)))" for rt' z
    by (simp add: prune_daily_def prune_Q)
  show ?thesis
    using 1 2 [of "snd (recover_once (clk 0) rt y)" "fst (recover_once (clk 0) rt y)"]
    by (auto simp: scan_def Let_def split_beta intro: drain_queue_Q split: sum.split)
qed

lemma app_tick_Q:
  "Q (sys_db y) \<Longrightarrow> Q (sys_db (snd (snd (app_tick L R now day cutoff clk fresh reloads rt y))))"
  using scan_Q [of y "lib_serde L" day cutoff clk fresh reloads rt]
  by (auto simp: app_tick_def split: prod.split sum.split)

lemma advance_Q: "Q (sys_db y) \<Longrightarrow> Q (sys_db (snd (advance C K now nows s y)))"
  by (simp add: advance_def next_run_Q split: sum.split)

lemma tick_schedule_Q:
  assumes "Q (sys_db y)"
  shows "Q (sys_db (snd (tick_schedule J C K now nows rid s fired y)))"
proof -
  have adv: "Q (sys_db z) \<Longrightarrow> advance C K now nows s z = (r, z') \<Longrightarrow> Q (sys_db z')" for z r z'
    using advance_Q [of z C K now nows s] by simp
  have st: "start_run J (sc_workflow s) Schedule None rid nows y = (r, z) \<Longrightarrow> Q (sys_db z)" for r z
    using start_run_Q [OF assms, of J "sc_workflow s" Schedule None rid nows] by simp
  show ?thesis using assms
    by (auto simp: tick_schedule_def dest: adv st split: option.split prod.split sum.split)
qed

lemma tick_loop_Q: "Q (sys_db y) \<Longrightarrow> Q (sys_db (snd (tick_loop J C K now clk fresh i ss fired y)))"
proof (induction ss arbitrary: i fired y)
  case (Cons s ss)
  have "Q (sys_db (snd (tick_schedule J C K now (clk i) (fresh i) s fired y)))"
    using Cons.prems by (rule tick_schedule_Q)
  with Cons.IH show ?case by (auto split: prod.split sum.split)
qed simp

lemma tick_Q: "Q (sys_db y) \<Longrightarrow> Q (sys_db (snd (tick J C K now clk fresh y)))"
  by (simp add: tick_def tick_loop_Q)

lemma fire_Q:
  assumes "Q (sys_db y)"
  shows "Q (sys_db (snd (fire J pretty t payload rid now y)))"
  using start_run_Q [OF assms]
  by (auto simp: fire_def fired_Q split: prod.split sum.split, (metis snd_conv fired_Q)+)

lemma upsert_schedule_Q:
  assumes "Q d"
  shows "Q (snd (upsert_schedule J C K wid cron en now i nows d))"
proof -
  have "upsert_schedule_row J wid cron en nx i nows d = (r, d') \<Longrightarrow> Q d'" for nx r d'
    using schedule_Q [OF assms, of J wid cron en nx i nows] by simp
  with assms show ?thesis by (auto simp: upsert_schedule_def Let_def split: prod.split sum.split)
qed

end

text \<open>The tables reachable from \<open>d0\<close> are closed, so every composite call is a sequence of store steps.\<close>

lemma steps_snoc: "steps step s t \<Longrightarrow> step t u \<Longrightarrow> steps step s u"
  by (rule steps.intros)

interpretation trace: db_closed "steps db_step d0" for d0
  by unfold_locales (rule steps_snoc)

interpretation consistent: db_closed ev_inv
  by unfold_locales (rule db_step_inv)

section \<open>Steps of the application\<close>

text \<open>The user interface changes workflows, schedules, triggers and connections (\<^verbatim>\<open>commands/\<close>); a change
  of the triggers calls \<^verbatim>\<open>reload\<close>.\<close>

inductive ui_step :: "'c cron \<Rightarrow> db \<Rightarrow> db \<Rightarrow> bool" for K where
  ui_create: "ui_step K d (snd (create_workflow J cinp i now d))"
| ui_update: "ui_step K d (snd (update_workflow J uinp now d))"
| ui_reorder: "ui_step K d (reorder_workflows ids d)"
| ui_delete: "ui_step K d (snd (delete_workflow w d))"
| ui_schedule: "ui_step K d (snd (upsert_schedule J C K wid cron en now i nows d))"
| ui_unschedule: "ui_step K d (delete_schedule_for_workflow w d)"
| ui_connect: "ui_step K d (snd (upsert_app_connection J ainp i now d))"
| ui_revoke: "ui_step K d (snd (mark_app_connection_revoked i now d))"
| ui_disconnect: "ui_step K d (delete_app_connection_metadata i d)"

type_synonym app_state = "AppEventRuntime \<times> sys"

inductive app_step :: "'c cron \<Rightarrow> app_state \<Rightarrow> app_state \<Rightarrow> bool" for K where
  ui: "ui_step K (sys_db y) d \<Longrightarrow> app_step K (rt, y) (rt, y\<lparr>sys_db := d\<rparr>)"
| save_trigger: "app_step K (rt, y)
    (reload rt, y\<lparr>sys_db := snd (upsert_trigger J tinp fid fsec now (sys_db y))\<rparr>)"
| remove_trigger: "app_step K (rt, y) (reload rt, y\<lparr>sys_db := delete_trigger i (sys_db y)\<rparr>)"
| stop: "app_step K (rt, y) (shutdown rt, y)"
| manual: "app_step K (rt, y) (rt, snd (start_run J w tr pl rid now y))"
| cancel: "app_step K (rt, y) (rt, snd (cancel_run rid now y))"
| event_fired: "app_step K (rt, y) (rt, snd (fire J pretty t payload rid now y))"
| cron_tick: "app_step K (rt, y) (rt, snd (tick J C K now' clk fresh y))"
| event_tick: "app_step K (rt, y) (snd (app_tick L R now' day cutoff clk fresh reloads rt y))"
| sync: "(\<And>d. steps db_step d (meanwhile d)) \<Longrightarrow>
    app_step K (rt, y) (run_sync_task L R store jitter now' meanwhile clk2 fresh2 later k rt y)"
| task_status: "t \<in> set (sys_tasks y) \<Longrightarrow>
    app_step K (rt, y) (rt, y\<lparr>sys_db := set_run_status (tk_run t) st err now (sys_db y)\<rparr>)"
| task_step: "t \<in> set (sys_tasks y) \<Longrightarrow> app_step K (rt, y)
    (rt, y\<lparr>sys_db := snd (insert_step J (tk_run t) nid pv sk sst inp outp err sid now (sys_db y))\<rparr>)"
| task_end: "t \<in> set (sys_tasks y) \<Longrightarrow> app_step K (rt, y) (rt, finish_task t y)"

lemma ui_step_trace: "ui_step K d d' \<Longrightarrow> steps db_step d d'"
  by (erule ui_step.cases)
     (auto intro: steps_one db_step.intros trace.upsert_schedule_Q steps_refl)

lemma app_step_trace: "app_step K x x' \<Longrightarrow> steps db_step (sys_db (snd x)) (sys_db (snd x'))"
proof (erule app_step.cases)
  fix meanwhile rt y L R store jitter now' clk2 fresh2 later k
  assume x: "x = (rt, y)"
    "x' = run_sync_task L R store jitter now' meanwhile clk2 fresh2 later k rt y"
    and m: "\<And>d. steps db_step d (meanwhile d)"
  show ?thesis unfolding x snd_conv
    by (rule trace.run_sync_task_Q) (rule steps_refl, rule m)
qed (auto simp: finish_task_def intro: steps_one db_step.intros steps_refl trace.start_run_Q
    trace.cancel_run_Q trace.fire_Q trace.tick_Q trace.app_tick_Q ui_step_trace)

section \<open>The application invariant\<close>

lemma ui_step_inv: "ui_step K d d' \<Longrightarrow> ev_inv d \<Longrightarrow> ev_inv d'"
  using store.inv_steps ui_step_trace by blast

lemma trace_inv: "steps db_step d d' \<Longrightarrow> ev_inv d \<Longrightarrow> ev_inv d'"
  by (rule store.inv_steps)

lemma app_step_inv: "sys_inv (snd x) \<Longrightarrow> app_step K x x' \<Longrightarrow> sys_inv (snd x')"
proof (erule app_step.cases)
  fix meanwhile rt y L R store jitter now' clk2 fresh2 later k
  assume inv: "sys_inv (snd x)" and x: "x = (rt, y)"
    "x' = run_sync_task L R store jitter now' meanwhile clk2 fresh2 later k rt y"
    and m: "\<And>d. steps db_step d (meanwhile d)"
  show ?thesis unfolding x(2)
    by (rule run_sync_task_inv) (use inv x(1) trace_inv [OF m] in simp_all)
next
  fix y rt d assume "sys_inv (snd x)" "x = (rt, y)" "x' = (rt, y\<lparr>sys_db := d\<rparr>)" "ui_step K (sys_db y) d"
  then show ?thesis by (auto intro: sys_inv_db ui_step_inv simp: sys_inv_def)
qed (auto simp: start_run_inv cancel_run_inv fire_inv tick_inv app_tick_inv finish_task_inv
    intro!: sys_inv_db upsert_trigger_inv delete_trigger_inv set_run_status_inv insert_step_inv,
    simp_all add: sys_inv_def)

abbreviation app_init :: app_state where
  "app_init \<equiv> (AppEventRuntime_default, init_sys empty_db)"

interpretation app: simulation "\<lambda>x. x = app_init" "app_step K" "\<lambda>x. sys_inv (snd x)"
    "\<lambda>x. inbox_of (sys_db (snd x))" inbox_step for K
proof unfold_locales
  fix s t :: app_state
  show "s = app_init \<Longrightarrow> sys_inv (snd s)" by (simp add: sys_inv_init ev_inv_empty)
  show "sys_inv (snd s) \<Longrightarrow> app_step K s t \<Longrightarrow> sys_inv (snd t)" by (rule app_step_inv)
  show "steps inbox_step (inbox_of (sys_db (snd s))) (inbox_of (sys_db (snd t)))"
    if "sys_inv (snd s)" "app_step K s t"
    using that by (intro store.sim_steps app_step_trace) (simp_all add: sys_inv_def)
qed

section \<open>Properties\<close>

text \<open>Property C1 (delivery invariant of the whole application): in every state the application can
  reach from an empty database, whatever the users, providers, clocks and failing calls did (each call of \<open>app_step\<close> taken as one
  step), an
  event has at most one receipt; it is queued exactly when its receipt says so; a receipt names a
  run exactly when it says the event was enqueued; that run exists, belongs to the workflow of the
  trigger and is named by no other receipt; and no workflow has two active runs.\<close>

theorem reachable_states_are_consistent:
  assumes "steps (app_step K) app_init (rt, y)"
  shows "distinct (map rc_key (app_event_receipts (sys_db y)))
    \<and> q_key ` set (app_event_queue (sys_db y)) =
        rc_key ` {r \<in> set (app_event_receipts (sys_db y)). rc_disposition r = Queued}
    \<and> (\<forall>r \<in> set (app_event_receipts (sys_db y)).
         (rc_disposition r = Enqueued \<longleftrightarrow> rc_run r \<noteq> None)
       \<and> (\<forall>i. rc_run r = Some i \<longrightarrow> app_run_of (sys_db y) (rc_trigger r) i
            \<and> (\<forall>s \<in> set (app_event_receipts (sys_db y)). rc_run s = Some i \<longrightarrow> rc_key s = rc_key r)))
    \<and> (\<forall>p \<in> active_pairs (sys_active y). \<forall>q \<in> active_pairs (sys_active y). snd p = snd q \<longrightarrow> p = q)"
proof -
  let ?d = "sys_db y" and ?rs = "app_event_receipts (sys_db y)"
  have inv: "sys_inv y" using app.inv_reachable [OF refl assms] by simp
  then have ev: "ev_inv ?d" by (simp add: sys_inv_def)
  have dist: "distinct (map rc_key ?rs)" using ev unfolding ev_inv_def by (blast intro: fk_okE_receipts)
  have queue: "q_key ` set (app_event_queue ?d) = rc_key ` {r \<in> set ?rs. rc_disposition r = Queued}"
    using ev unfolding ev_inv_def queue_matches_def by (elim conjE)
  have excl: "\<forall>p \<in> active_pairs (sys_active y). \<forall>q \<in> active_pairs (sys_active y).
      snd p = snd q \<longrightarrow> p = q"
    using inv unfolding sys_inv_def slots.exclusive_def by (elim conjE)
  have "\<forall>r \<in> set ?rs. (rc_disposition r = Enqueued \<longleftrightarrow> rc_run r \<noteq> None)"
    using ev unfolding ev_inv_def receipts_linked_def run_iff_enqueued_def by (elim conjE)
  moreover have "\<forall>r \<in> set ?rs. \<forall>i. rc_run r = Some i \<longrightarrow> app_run_of ?d (rc_trigger r) i"
    using ev unfolding ev_inv_def receipts_linked_def runs_resolve_def by fastforce
  moreover have "\<forall>r \<in> set ?rs. \<forall>i. rc_run r = Some i \<longrightarrow>
      (\<forall>s \<in> set ?rs. rc_run s = Some i \<longrightarrow> rc_key s = rc_key r)"
    using ev unfolding ev_inv_def receipts_linked_def runs_unshared_def by (elim conjE) blast
  ultimately have rows: "\<forall>r \<in> set ?rs. (rc_disposition r = Enqueued \<longleftrightarrow> rc_run r \<noteq> None)
      \<and> (\<forall>i. rc_run r = Some i \<longrightarrow> app_run_of ?d (rc_trigger r) i
           \<and> (\<forall>s \<in> set ?rs. rc_run s = Some i \<longrightarrow> rc_key s = rc_key r))" by blast
  show ?thesis by (intro conjI dist queue rows excl)
qed

text \<open>A reachable state: a workflow was created, and a run of it started.\<close>

definition ex_print :: serde where
  "ex_print = \<lparr>to_text = (\<lambda>_. Some ''{}''), from_text = (\<lambda>_. None)\<rparr>"

definition ex_started :: sys where
  "ex_started = snd (start_run ex_print ''w'' Manual None ''r'' ''2''
     ((init_sys empty_db)\<lparr>sys_db := snd (create_workflow ex_print
        \<lparr>cw_name = ''W'', cw_description = [], cw_working_directory = [], cw_folder_id = None,
         cw_graph = JNull\<rparr> ''w'' ''1'' empty_db)\<rparr>))"

lemma ex_started_reachable: "steps (app_step ex_cron) app_init (AppEventRuntime_default, ex_started)"
  unfolding ex_started_def
proof (rule steps_step [OF steps_one])
  show "app_step ex_cron app_init (AppEventRuntime_default, (init_sys empty_db)\<lparr>sys_db :=
      snd (create_workflow ex_print \<lparr>cw_name = ''W'', cw_description = [],
        cw_working_directory = [], cw_folder_id = None, cw_graph = JNull\<rparr> ''w'' ''1'' empty_db)\<rparr>)"
    by (rule app_step.ui) (simp add: init_sys_def ui_step.ui_create)
qed (rule app_step.manual)

lemma ex_started_active: "active_pairs (sys_active ex_started) = {(''r'', ''w'')}"
  by (simp add: ex_started_def create_workflow_def ex_print_def missing_folder_def empty_db_def
      start_run_def start_run_guard_def start_run_body_def enqueue_run_def get_workflow_def
      init_sys_def row_to_workflow_def insert_run_def pending_run_def workflow_exists_def
      spawn_run_execution_def register_def Let_def active_pairs_def active_empty_def has_workflow_def)

theorem reachable_states_are_consistent_witness:
  "distinct (map rc_key (app_event_receipts (sys_db ex_started)))
   \<and> active_pairs (sys_active ex_started) = {(''r'', ''w'')}"
  using reachable_states_are_consistent [OF ex_started_reachable] ex_started_active by blast



end
