(* ===== verification/License_Client.thy ===== *)
theory License_Client
  imports Json
begin

text \<open>
  The outer edge of licensing: the publisher's configuration (\<^verbatim>\<open>licensing/config.rs\<close>), the client of
  the license service (\<^verbatim>\<open>licensing/client.rs\<close>) and the credential store (\<^verbatim>\<open>licensing/store.rs\<close>).

  Parameters stand for the code outside the repository: parsing of identifiers (\<^verbatim>\<open>uuid\<close>), of addresses
  (\<^verbatim>\<open>url\<close>), of JSON and of instants, the network (\<open>net_send\<close>, which carries a state of its own) and the
  keyring of the operating system. A UUID is its canonical text.
\<close>

datatype LicenseProduct = NoProduct | Individual | Teams

section \<open>Configuration\<close>

datatype PolarEnvironment = Production | Sandbox

datatype PolarConfigError = Incomplete | InvalidEnvironment | InvalidIdentifier | InvalidApiBase

fun PolarConfigError_code :: "PolarConfigError \<Rightarrow> rstring" where
  "PolarConfigError_code Incomplete = ''polar_config_incomplete''"
| "PolarConfigError_code InvalidEnvironment = ''polar_environment_invalid''"
| "PolarConfigError_code InvalidIdentifier = ''polar_identifier_invalid''"
| "PolarConfigError_code InvalidApiBase = ''polar_api_base_invalid''"

record url =
  url_text :: rstring
  url_scheme :: rstring
  url_host :: "rstring option"
  url_path :: rstring
  url_query :: "rstring option"
  url_fragment :: "rstring option"

record PolarConfig =
  pc_api_base :: url
  pc_organization_id :: rstring
  pc_benefits :: "(rstring \<times> LicenseProduct) list"

record ident =
  parse_uuid :: "rstring \<Rightarrow> rstring option"
  uuid_version :: "rstring \<Rightarrow> nat"
  parse_url :: "rstring \<Rightarrow> url option"
  url_join :: "url \<Rightarrow> rstring \<Rightarrow> url option"

definition PRODUCTION_API_BASE :: rstring where "PRODUCTION_API_BASE = ''https://api.polar.sh''"
definition SANDBOX_API_BASE :: rstring where "SANDBOX_API_BASE = ''https://sandbox-api.polar.sh''"
definition ALLOWED_HOSTS :: "rstring list" where
  "ALLOWED_HOSTS = [''api.polar.sh'', ''sandbox-api.polar.sh'']"

definition parse_v4 :: "ident \<Rightarrow> rstring \<Rightarrow> PolarConfigError + rstring" where
  "parse_v4 I v = (case parse_uuid I v of None \<Rightarrow> Inl InvalidIdentifier
     | Some u \<Rightarrow> if uuid_version I u \<noteq> 4 then Inl InvalidIdentifier else Inr u)"

text \<open>The loop over the two benefits; an identifier bound twice is an error.\<close>

fun bind_benefits ::
  "ident \<Rightarrow> (rstring option \<times> LicenseProduct) list \<Rightarrow> (rstring \<times> LicenseProduct) list
    \<Rightarrow> PolarConfigError + (rstring \<times> LicenseProduct) list" where
  "bind_benefits I [] acc = Inr acc"
| "bind_benefits I ((None, _) # rest) acc = bind_benefits I rest acc"
| "bind_benefits I ((Some v, p) # rest) acc = (case parse_v4 I v of Inl e \<Rightarrow> Inl e
     | Inr u \<Rightarrow> if map_of acc u \<noteq> None then Inl InvalidIdentifier
               else bind_benefits I rest ((u, p) # acc))"

definition api_base_ok :: "PolarEnvironment \<Rightarrow> rstring \<Rightarrow> url \<Rightarrow> bool" where
  "api_base_ok env host u = (url_scheme u = ''https'' \<and> host \<in> set ALLOWED_HOSTS
     \<and> url_path u = ''/'' \<and> url_query u = None \<and> url_fragment u = None
     \<and> (env = Production \<longrightarrow> host = ''api.polar.sh'')
     \<and> (env = Sandbox \<longrightarrow> host = ''sandbox-api.polar.sh''))"

definition from_parts ::
  "ident \<Rightarrow> PolarEnvironment \<Rightarrow> rstring \<Rightarrow> rstring \<Rightarrow> rstring \<Rightarrow> rstring option
    \<Rightarrow> PolarConfigError + PolarConfig" where
  "from_parts I env base org individual teams =
     (case parse_url I base of
        None \<Rightarrow> Inl InvalidApiBase
      | Some u \<Rightarrow> (case url_host u of
          None \<Rightarrow> Inl InvalidApiBase
        | Some host \<Rightarrow>
          if \<not> api_base_ok env host u then Inl InvalidApiBase
          else (case parse_v4 I org of
              Inl e \<Rightarrow> Inl e
            | Inr o' \<Rightarrow> (case bind_benefits I [(Some individual, Individual), (teams, Teams)] [] of
                Inl e \<Rightarrow> Inl e
              | Inr bs \<Rightarrow> Inr \<lparr>pc_api_base = u, pc_organization_id = o', pc_benefits = bs\<rparr>))))"

definition PolarConfig_new ::
  "ident \<Rightarrow> PolarEnvironment \<Rightarrow> rstring \<Rightarrow> rstring \<Rightarrow> rstring option \<Rightarrow> PolarConfigError + PolarConfig" where
  "PolarConfig_new I env org individual teams = from_parts I env
     (case env of Production \<Rightarrow> PRODUCTION_API_BASE | Sandbox \<Rightarrow> SANDBOX_API_BASE) org individual teams"

definition nonblank :: "rstring option \<Rightarrow> rstring option" where
  "nonblank v = (case v of None \<Rightarrow> None | Some s \<Rightarrow> if trim s = [] then None else Some (trim s))"

definition resolve_config ::
  "ident \<Rightarrow> rstring option \<Rightarrow> rstring option \<Rightarrow> rstring option \<Rightarrow> rstring option
    \<Rightarrow> PolarConfigError + PolarConfig option" where
  "resolve_config I environment0 organization0 individual0 teams0 =
     (let environment = nonblank environment0; organization = nonblank organization0;
          individual = nonblank individual0; teams = nonblank teams0
      in if environment = None \<and> organization = None \<and> individual = None \<and> teams = None
         then Inr None
         else case (environment, organization, individual) of
             (Some e, Some org, Some ind) \<Rightarrow>
               (if e = ''production'' then map_sum id Some (PolarConfig_new I Production org ind teams)
                else if e = ''sandbox'' then map_sum id Some (PolarConfig_new I Sandbox org ind teams)
                else Inl InvalidEnvironment)
           | _ \<Rightarrow> Inl Incomplete)"

definition product_for_benefit :: "ident \<Rightarrow> PolarConfig \<Rightarrow> rstring \<Rightarrow> LicenseProduct option" where
  "product_for_benefit I c b = Option.bind (parse_uuid I b) (map_of (pc_benefits c))"

section \<open>The client\<close>

datatype PolarLicenseState = Granted | PRevoked | PDisabled

record PolarLicenseResult =
  pl_benefit_id :: rstring
  pl_status :: PolarLicenseState
  pl_expires_at :: "int option"

record PolarActivationResult =
  pa_activation_id :: rstring
  pa_label :: rstring
  pa_license :: PolarLicenseResult

datatype PolarClientError = InvalidLicense | ActivationsUnsupported | DeviceLimitReached | Timeout
  | Connectivity | RateLimited | ServiceUnavailable | ResponseTooLarge | InvalidResponse

definition is_transient :: "PolarClientError \<Rightarrow> bool" where
  "is_transient e = (e \<in> {Timeout, Connectivity, RateLimited, ServiceUnavailable})"

fun PolarClientError_code :: "PolarClientError \<Rightarrow> rstring" where
  "PolarClientError_code InvalidLicense = ''invalid_license''"
| "PolarClientError_code ActivationsUnsupported = ''activations_unsupported''"
| "PolarClientError_code DeviceLimitReached = ''device_limit''"
| "PolarClientError_code Timeout = ''polar_timeout''"
| "PolarClientError_code Connectivity = ''polar_connectivity''"
| "PolarClientError_code RateLimited = ''polar_rate_limited''"
| "PolarClientError_code ServiceUnavailable = ''polar_unavailable''"
| "PolarClientError_code ResponseTooLarge = ''polar_response_too_large''"
| "PolarClientError_code InvalidResponse = ''polar_invalid_response''"

definition MAX_RESPONSE_BYTES :: nat where "MAX_RESPONSE_BYTES = 64 * 1024"

text \<open>What \<^verbatim>\<open>reqwest\<close> says of a failed request; a response is its status, its declared length and the
  chunks its body arrives in, any of which may fail.\<close>

record reqwest_error =
  rq_timeout :: bool
  rq_connect :: bool
  rq_request :: bool
  rq_body :: bool

record response =
  re_status :: nat
  re_content_length :: "nat option"
  re_chunks :: "(reqwest_error + rstring) list"

record 'p net =
  net_send :: "rstring \<Rightarrow> json \<Rightarrow> 'p \<Rightarrow> (reqwest_error + response) \<times> 'p"

definition map_reqwest_error :: "reqwest_error \<Rightarrow> PolarClientError" where
  "map_reqwest_error e = (if rq_timeout e then Timeout
     else if rq_connect e \<or> rq_request e \<or> rq_body e then Connectivity else InvalidResponse)"

fun read_chunks :: "(reqwest_error + rstring) list \<Rightarrow> rstring \<Rightarrow> PolarClientError + rstring" where
  "read_chunks [] payload = Inr payload"
| "read_chunks (Inl e # rest) payload = Inl (map_reqwest_error e)"
| "read_chunks (Inr bytes # rest) payload =
     (if MAX_RESPONSE_BYTES < length payload + length bytes then Inl ResponseTooLarge
      else read_chunks rest (payload @ bytes))"

definition declared_too_large :: "response \<Rightarrow> bool" where
  "declared_too_large r = (case re_content_length r of None \<Rightarrow> False | Some n \<Rightarrow> MAX_RESPONSE_BYTES < n)"

definition read_json :: "serde \<Rightarrow> response \<Rightarrow> PolarClientError + json" where
  "read_json J r = (if declared_too_large r then Inl ResponseTooLarge
     else case read_chunks (re_chunks r) [] of Inl e \<Rightarrow> Inl e
       | Inr payload \<Rightarrow> (case from_text J payload of None \<Rightarrow> Inl InvalidResponse | Some v \<Rightarrow> Inr v))"

definition read_error_detail :: "serde \<Rightarrow> response \<Rightarrow> rstring option" where
  "read_error_detail J r = (if declared_too_large r then None
     else case read_chunks (re_chunks r) [] of Inl e \<Rightarrow> None
       | Inr payload \<Rightarrow> (case from_text J payload of None \<Rightarrow> None
           | Some v \<Rightarrow> (case get_str ''detail'' v of Some s \<Rightarrow> Some s | None \<Rightarrow> get_str ''error'' v)))"

definition activations_are_unsupported :: "rstring \<Rightarrow> bool" where
  "activations_are_unsupported detail = (let d = to_ascii_lowercase detail in
     contains d ''does not support activations'' \<or> contains d ''activation not supported''
     \<or> contains d ''activations not supported'')"

definition post ::
  "serde \<Rightarrow> ident \<Rightarrow> 'p net \<Rightarrow> PolarConfig \<Rightarrow> rstring \<Rightarrow> json \<Rightarrow> 'p
    \<Rightarrow> (PolarClientError + response) \<times> 'p" where
  "post J I N c path body p =
     (case url_join I (pc_api_base c) path of
        None \<Rightarrow> (Inl InvalidResponse, p)
      | Some endpoint \<Rightarrow>
        (case net_send N (url_text endpoint) body p of
           (Inl e, p') \<Rightarrow> (Inl (map_reqwest_error e), p')
         | (Inr r, p') \<Rightarrow>
           (if 200 \<le> re_status r \<and> re_status r < 300 then Inr r
            else if re_status r = 403 then
              (case read_error_detail J r of
                 Some d \<Rightarrow> Inl (if activations_are_unsupported d then ActivationsUnsupported
                               else DeviceLimitReached)
               | None \<Rightarrow> Inl DeviceLimitReached)
            else if re_status r = 404 \<or> re_status r = 422 then Inl InvalidLicense
            else if re_status r = 429 then Inl RateLimited
            else if 500 \<le> re_status r \<and> re_status r < 600 then Inl ServiceUnavailable
            else Inl InvalidResponse, p')))"

text \<open>The derived readers of the response types. \<open>de_time\<close> reads an instant as \<^verbatim>\<open>chrono\<close>'s \<^verbatim>\<open>Deserialize\<close>
  does; an absent or null \<^verbatim>\<open>expires_at\<close> is \<open>None\<close>.\<close>

fun license_state :: "rstring \<Rightarrow> PolarLicenseState option" where
  "license_state s = (if s = ''granted'' then Some Granted else if s = ''revoked'' then Some PRevoked
     else if s = ''disabled'' then Some PDisabled else None)"

definition expiry_field :: "(rstring \<Rightarrow> int option) \<Rightarrow> json \<Rightarrow> int option option" where
  "expiry_field de_time v = (case json_get ''expires_at'' v of
      None \<Rightarrow> Some None
    | Some JNull \<Rightarrow> Some None
    | Some (JString s) \<Rightarrow> map_option Some (de_time s)
    | Some _ \<Rightarrow> None)"

definition LicenseResponse_read ::
  "ident \<Rightarrow> (rstring \<Rightarrow> int option) \<Rightarrow> json \<Rightarrow> PolarLicenseResult option" where
  "LicenseResponse_read I de_time v =
     (case (Option.bind (get_str ''benefit_id'' v) (parse_uuid I),
            Option.bind (get_str ''status'' v) license_state, expiry_field de_time v) of
        (Some b, Some s, Some e) \<Rightarrow> Some \<lparr>pl_benefit_id = b, pl_status = s, pl_expires_at = e\<rparr>
      | _ \<Rightarrow> None)"

definition ActivateResponse_read ::
  "ident \<Rightarrow> (rstring \<Rightarrow> int option) \<Rightarrow> json \<Rightarrow> PolarActivationResult option" where
  "ActivateResponse_read I de_time v =
     (case (Option.bind (get_str ''id'' v) (parse_uuid I), get_str ''label'' v,
            Option.bind (json_get ''license_key'' v) (LicenseResponse_read I de_time)) of
        (Some i, Some l, Some k) \<Rightarrow> Some \<lparr>pa_activation_id = i, pa_label = l, pa_license = k\<rparr>
      | _ \<Rightarrow> None)"

record 'p polar =
  po_serde :: serde
  po_ident :: ident
  po_net :: "'p net"
  po_time :: "rstring \<Rightarrow> int option"

definition typed_answer ::
  "serde \<Rightarrow> (json \<Rightarrow> 'a option) \<Rightarrow> (PolarClientError + response) \<times> 'p \<Rightarrow> (PolarClientError + 'a) \<times> 'p" where
  "typed_answer J rd a = (case a of
      (Inl e, p) \<Rightarrow> (Inl e, p)
    | (Inr r, p) \<Rightarrow> (case read_json J r of Inl e \<Rightarrow> Inl e
        | Inr v \<Rightarrow> (case rd v of None \<Rightarrow> Inl InvalidResponse | Some x \<Rightarrow> Inr x), p))"

definition polar_activate ::
  "'p polar \<Rightarrow> PolarConfig \<Rightarrow> rstring \<Rightarrow> rstring \<Rightarrow> 'p \<Rightarrow> (PolarClientError + PolarActivationResult) \<times> 'p" where
  "polar_activate P c key label p =
     typed_answer (po_serde P) (ActivateResponse_read (po_ident P) (po_time P))
       (post (po_serde P) (po_ident P) (po_net P) c ''v1/customer-portal/license-keys/activate''
         (JObject [(''key'', JString key), (''organization_id'', JString (pc_organization_id c)),
                   (''label'', JString label)]) p)"

definition polar_validate ::
  "'p polar \<Rightarrow> PolarConfig \<Rightarrow> rstring \<Rightarrow> rstring option \<Rightarrow> 'p \<Rightarrow> (PolarClientError + PolarLicenseResult) \<times> 'p" where
  "polar_validate P c key activation p =
     typed_answer (po_serde P) (LicenseResponse_read (po_ident P) (po_time P))
       (post (po_serde P) (po_ident P) (po_net P) c ''v1/customer-portal/license-keys/validate''
         (JObject ([(''key'', JString key), (''organization_id'', JString (pc_organization_id c))]
           @ (case activation of None \<Rightarrow> [] | Some a \<Rightarrow> [(''activation_id'', JString a)]))) p)"

definition polar_deactivate ::
  "'p polar \<Rightarrow> PolarConfig \<Rightarrow> rstring \<Rightarrow> rstring \<Rightarrow> 'p \<Rightarrow> (PolarClientError + unit) \<times> 'p" where
  "polar_deactivate P c key activation p =
     (case post (po_serde P) (po_ident P) (po_net P) c ''v1/customer-portal/license-keys/deactivate''
             (JObject [(''key'', JString key), (''organization_id'', JString (pc_organization_id c)),
                       (''activation_id'', JString activation)]) p of
        (Inl e, p') \<Rightarrow> (Inl e, p')
      | (Inr r, p') \<Rightarrow> (if re_status r = 204 then Inr () else Inl InvalidResponse, p'))"

section \<open>The credential store\<close>

record LicenseCredentialEnvelope =
  le_version :: nat
  le_license_key :: rstring
  le_activation_id :: "rstring option"

definition CURRENT_VERSION :: nat where "CURRENT_VERSION = 1"

definition envelope_new :: "rstring \<Rightarrow> rstring \<Rightarrow> LicenseCredentialEnvelope" where
  "envelope_new key activation = \<lparr>le_version = CURRENT_VERSION, le_license_key = key,
     le_activation_id = Some activation\<rparr>"

definition without_activation :: "rstring \<Rightarrow> LicenseCredentialEnvelope" where
  "without_activation key = \<lparr>le_version = CURRENT_VERSION, le_license_key = key,
     le_activation_id = None\<rparr>"

datatype LicenseStoreError = StMissing | StLocked | StInvalid | StFailed

datatype keyring_error = NoEntry | NoStorageAccess | NoDefaultStore | KeyringOther

fun map_keyring_error :: "keyring_error \<Rightarrow> LicenseStoreError" where
  "map_keyring_error NoEntry = StMissing"
| "map_keyring_error NoStorageAccess = StLocked"
| "map_keyring_error NoDefaultStore = StLocked"
| "map_keyring_error KeyringOther = StFailed"

text \<open>The keyring crate: opening an entry may fail; secrets are bytes. \<open>env_write\<close> and \<open>env_read\<close> are
  the derived JSON encoding of an envelope, which either succeeds or not.\<close>

record 'k keyring =
  kr_entry :: "rstring \<Rightarrow> keyring_error option"
  kr_set :: "rstring \<Rightarrow> rstring \<Rightarrow> 'k \<Rightarrow> (keyring_error + unit) \<times> 'k"
  kr_get :: "rstring \<Rightarrow> 'k \<Rightarrow> keyring_error + rstring"
  kr_delete :: "rstring \<Rightarrow> 'k \<Rightarrow> (keyring_error + unit) \<times> 'k"
  env_write :: "LicenseCredentialEnvelope \<Rightarrow> rstring option"
  env_read :: "rstring \<Rightarrow> LicenseCredentialEnvelope option"

definition store_put ::
  "'k keyring \<Rightarrow> rstring \<Rightarrow> LicenseCredentialEnvelope \<Rightarrow> 'k \<Rightarrow> (LicenseStoreError + unit) \<times> 'k" where
  "store_put K ref cred k = (case env_write K cred of
      None \<Rightarrow> (Inl StInvalid, k)
    | Some payload \<Rightarrow> (case kr_entry K ref of
        Some e \<Rightarrow> (Inl (map_keyring_error e), k)
      | None \<Rightarrow> apfst (map_sum map_keyring_error id) (kr_set K ref payload k)))"

definition store_get ::
  "'k keyring \<Rightarrow> rstring \<Rightarrow> 'k \<Rightarrow> LicenseStoreError + LicenseCredentialEnvelope" where
  "store_get K ref k = (case kr_entry K ref of
      Some e \<Rightarrow> Inl (map_keyring_error e)
    | None \<Rightarrow> (case kr_get K ref k of
        Inl e \<Rightarrow> Inl (map_keyring_error e)
      | Inr payload \<Rightarrow> (case env_read K payload of
          None \<Rightarrow> Inl StInvalid
        | Some c \<Rightarrow> if le_version c \<noteq> CURRENT_VERSION then Inl StInvalid else Inr c)))"

definition store_delete :: "'k keyring \<Rightarrow> rstring \<Rightarrow> 'k \<Rightarrow> (LicenseStoreError + unit) \<times> 'k" where
  "store_delete K ref k = (case kr_entry K ref of
      Some e \<Rightarrow> (Inl (map_keyring_error e), k)
    | None \<Rightarrow> apfst (map_sum map_keyring_error id) (kr_delete K ref k))"

section \<open>The contract of a credential store\<close>

locale credential_store =
  fixes put :: "rstring \<Rightarrow> 'c \<Rightarrow> 'k \<Rightarrow> ('e + unit) \<times> 'k"
    and fetch :: "rstring \<Rightarrow> 'k \<Rightarrow> 'e + 'c"
    and remove :: "rstring \<Rightarrow> 'k \<Rightarrow> ('e + unit) \<times> 'k"
    and valid :: "'c \<Rightarrow> bool"
    and missing :: 'e
  assumes fetch_put: "put r c k = (Inr (), k') \<Longrightarrow> valid c \<Longrightarrow> fetch r k' = Inr c"
    and fetch_put_other: "put r c k = (x, k') \<Longrightarrow> s \<noteq> r \<Longrightarrow> fetch s k' = fetch s k"
    and fetch_remove: "remove r k = (Inr (), k') \<Longrightarrow> fetch r k' = Inl missing"
    and fetch_remove_other: "remove r k = (x, k') \<Longrightarrow> s \<noteq> r \<Longrightarrow> fetch s k' = fetch s k"
begin

text \<open>Storing under a new reference and rolling back leaves every other credential as it was.\<close>

lemma rollback:
  assumes "put r c k = (x, k1)" and "remove r k1 = (Inr (), k2)"
  shows "fetch r k2 = Inl missing" and "s \<noteq> r \<Longrightarrow> fetch s k2 = fetch s k"
  using assms fetch_remove fetch_remove_other fetch_put_other by metis+

end

text \<open>What the keyring promises: an entry that was set is read back, one that was deleted is missing,
  other entries are not touched; and an envelope that was written is read back.\<close>

definition keyring_faithful :: "'k keyring \<Rightarrow> bool" where
  "keyring_faithful K = (
     (\<forall>r v k k'. kr_set K r v k = (Inr (), k') \<longrightarrow> kr_get K r k' = Inr v)
   \<and> (\<forall>r v k s. s \<noteq> r \<longrightarrow> kr_get K s (snd (kr_set K r v k)) = kr_get K s k)
   \<and> (\<forall>r k k'. kr_delete K r k = (Inr (), k') \<longrightarrow> kr_get K r k' = Inl NoEntry)
   \<and> (\<forall>r k s. s \<noteq> r \<longrightarrow> kr_get K s (snd (kr_delete K r k)) = kr_get K s k)
   \<and> (\<forall>c v. env_write K c = Some v \<longrightarrow> env_read K v = Some c))"

lemma kf_set: "keyring_faithful K \<Longrightarrow> kr_set K r v k = (Inr (), k') \<Longrightarrow> kr_get K r k' = Inr v"
  unfolding keyring_faithful_def by (drule conjunct1) blast

lemma kf_set_other: "keyring_faithful K \<Longrightarrow> s \<noteq> r \<Longrightarrow> kr_get K s (snd (kr_set K r v k)) = kr_get K s k"
  unfolding keyring_faithful_def by (drule conjunct2 [THEN conjunct1]) blast

lemma kf_delete: "keyring_faithful K \<Longrightarrow> kr_delete K r k = (Inr (), k') \<Longrightarrow> kr_get K r k' = Inl NoEntry"
  unfolding keyring_faithful_def by (drule conjunct2 [THEN conjunct2, THEN conjunct1]) blast

lemma kf_delete_other: "keyring_faithful K \<Longrightarrow> s \<noteq> r \<Longrightarrow> kr_get K s (snd (kr_delete K r k)) = kr_get K s k"
  unfolding keyring_faithful_def by (drule conjunct2 [THEN conjunct2, THEN conjunct2, THEN conjunct1]) blast

lemma kf_envelope: "keyring_faithful K \<Longrightarrow> env_write K c = Some v \<Longrightarrow> env_read K v = Some c"
  unfolding keyring_faithful_def by (drule conjunct2 [THEN conjunct2, THEN conjunct2, THEN conjunct2]) blast

lemma apfst_map_sum_Inr: "apfst (map_sum f id) x = (Inr u, k) \<longleftrightarrow> x = (Inr u, k)"
  by (cases x; cases "fst x") auto

lemma store_put_Inr:
  "store_put K r c k = (Inr u, k') \<longleftrightarrow>
     (\<exists>v. env_write K c = Some v \<and> kr_entry K r = None \<and> kr_set K r v k = (Inr u, k'))"
  by (simp add: store_put_def apfst_map_sum_Inr split: option.split)

lemma store_delete_Inr:
  "store_delete K r k = (Inr u, k') \<longleftrightarrow> kr_entry K r = None \<and> kr_delete K r k = (Inr u, k')"
  by (simp add: store_delete_def apfst_map_sum_Inr split: option.split)

lemma store_get_cong: "kr_get K s k' = kr_get K s k \<Longrightarrow> store_get K s k' = store_get K s k"
  unfolding store_get_def by (cases "kr_entry K s") simp_all

lemma store_is_credential_store:
  assumes "keyring_faithful K"
  shows "credential_store (store_put K) (store_get K) (store_delete K) (\<lambda>c. le_version c = CURRENT_VERSION) StMissing"
proof
  fix r c k k'
  assume "store_put K r c k = (Inr (), k')" and v: "le_version c = CURRENT_VERSION"
  then obtain w where w: "env_write K c = Some w" "kr_entry K r = None" "kr_set K r w k = (Inr (), k')"
    by (auto simp: store_put_Inr)
  show "store_get K r k' = Inr c"
    using v w(2) kf_set [OF assms w(3)] kf_envelope [OF assms w(1)] by (simp add: store_get_def)
next
  fix r c k x k' s
  assume put: "store_put K r c k = (x, k')" and "s \<noteq> r"
  have "kr_get K s (snd (store_put K r c k)) = kr_get K s k"
    using \<open>s \<noteq> r\<close>
    by (simp add: store_put_def kf_set_other [OF assms] split: option.split)
  with put show "store_get K s k' = store_get K s k" by (intro store_get_cong) simp
next
  fix r k k'
  assume "store_delete K r k = (Inr (), k')"
  then have d: "kr_entry K r = None" "kr_delete K r k = (Inr (), k')" by (simp_all add: store_delete_Inr)
  show "store_get K r k' = Inl StMissing"
    using d(1) kf_delete [OF assms d(2)] by (simp add: store_get_def)
next
  fix r k x k' s
  assume del: "store_delete K r k = (x, k')" and "s \<noteq> r"
  have "kr_get K s (snd (store_delete K r k)) = kr_get K s k"
    using \<open>s \<noteq> r\<close>
    by (simp add: store_delete_def kf_delete_other [OF assms] split: option.split)
  with del show "store_get K s k' = store_get K s k" by (intro store_get_cong) simp
qed

text \<open>The store over a keyring that is a map in memory (\<^verbatim>\<open>InMemoryLicenseCredentialStore\<close>); the envelope is
  written with its parts separated by a byte that UTF-8 text does not contain.\<close>

definition map_keyring :: "(rstring \<rightharpoonup> rstring) keyring" where
  "map_keyring = \<lparr>kr_entry = (\<lambda>_. None),
     kr_set = (\<lambda>r v k. (Inr (), k(r \<mapsto> v))),
     kr_get = (\<lambda>r k. case k r of None \<Rightarrow> Inl NoEntry | Some v \<Rightarrow> Inr v),
     kr_delete = (\<lambda>r k. case k r of None \<Rightarrow> (Inl NoEntry, k) | Some _ \<Rightarrow> (Inr (), k(r := None))),
     env_write = (\<lambda>c. if le_version c = CURRENT_VERSION \<and> CHR 0xFF \<notin> set (le_license_key c)
         then Some (le_license_key c @ CHR 0xFF #
                (case le_activation_id c of None \<Rightarrow> [] | Some a \<Rightarrow> CHR 0xFF # a))
         else None),
     env_read = (\<lambda>v. case dropWhile (\<lambda>x. x \<noteq> CHR 0xFF) v of
         _ # rest \<Rightarrow> Some \<lparr>le_version = CURRENT_VERSION,
           le_license_key = takeWhile (\<lambda>x. x \<noteq> CHR 0xFF) v,
           le_activation_id = (case rest of [] \<Rightarrow> None | _ # a \<Rightarrow> Some a)\<rparr>
       | [] \<Rightarrow> None)\<rparr>"

lemma cut_at:
  "c \<notin> set xs \<Longrightarrow> takeWhile (\<lambda>x. x \<noteq> c) (xs @ c # ys) = xs"
  "c \<notin> set xs \<Longrightarrow> dropWhile (\<lambda>x. x \<noteq> c) (xs @ c # ys) = c # ys"
  by (induction xs) auto

lemma map_keyring_faithful: "keyring_faithful map_keyring"
proof -
  have "env_read map_keyring v = Some c" if "env_write map_keyring c = Some v" for c v
  proof -
    let ?tail = "case le_activation_id c of None \<Rightarrow> [] | Some a \<Rightarrow> CHR 0xFF # a"
    have v: "v = le_license_key c @ CHR 0xFF # ?tail" and ver: "le_version c = CURRENT_VERSION"
      and n: "CHR 0xFF \<notin> set (le_license_key c)"
      using that by (simp_all add: map_keyring_def split: if_splits)
    have "takeWhile (\<lambda>x. x \<noteq> CHR 0xFF) v = le_license_key c"
      and "dropWhile (\<lambda>x. x \<noteq> CHR 0xFF) v = CHR 0xFF # ?tail"
      unfolding v using n by (simp_all add: cut_at)
    then show ?thesis using ver by (cases c) (simp add: map_keyring_def split: option.split)
  qed
  then show ?thesis
    by (auto simp: keyring_faithful_def map_keyring_def split: option.splits)
qed

interpretation memory_store: credential_store "store_put map_keyring" "store_get map_keyring"
  "store_delete map_keyring" "\<lambda>c. le_version c = CURRENT_VERSION" StMissing
  by (rule store_is_credential_store [OF map_keyring_faithful])

section \<open>The body of an answer is bounded\<close>

lemma read_chunks_bound:
  "read_chunks cs payload = Inr out \<Longrightarrow> length payload \<le> MAX_RESPONSE_BYTES
     \<Longrightarrow> length out \<le> MAX_RESPONSE_BYTES"
  by (induction cs payload rule: read_chunks.induct) (auto split: if_splits)

lemma read_chunks_text:
  "read_chunks cs payload = Inr out \<Longrightarrow> \<exists>bs. cs = map Inr bs \<and> out = payload @ concat bs"
proof (induction cs payload rule: read_chunks.induct)
  case (3 b rest payload)
  then obtain bs where "rest = map Inr bs" "out = (payload @ b) @ concat bs"
    by (auto split: if_splits)
  then show ?case by (intro exI [of _ "b # bs"]) simp
qed simp_all

end
