(* ===== verification/Licensing.thy ===== *)
theory Licensing
  imports License_Client
begin

text \<open>
  Licensing: the models (\<^verbatim>\<open>licensing/models.rs\<close>), the offline policy (\<^verbatim>\<open>licensing/offline.rs\<close>), the update
  window (\<^verbatim>\<open>licensing/update_window.rs\<close>), the stored row (\<^verbatim>\<open>db/license.rs\<close>) and the service that ties
  them to the client and the credential store (\<^verbatim>\<open>licensing/service.rs\<close>).

  An instant is a number of nanoseconds, a date a number of days. The state is the single row, the
  keyring and whatever the network remembers. A database call may fail: \<open>db_health\<close> says which kind
  of call does. The reading of the clock and the fresh reference are arguments.
\<close>

section \<open>Models\<close>

datatype LicenseStatus = Unlicensed | LActive | OfflineGrace | NeedsOnline | LExpired | LRevoked
  | LDisabled | DeviceLimit | SecureStorageUnavailable | NotConfigured

fun product_db_value :: "LicenseProduct \<Rightarrow> rstring" where
  "product_db_value NoProduct = ''none''"
| "product_db_value Individual = ''individual''"
| "product_db_value Teams = ''teams''"

definition LEGACY_DB_VALUES :: "(rstring \<times> LicenseProduct) list" where
  "LEGACY_DB_VALUES = [(''desktopAnnual'', Individual), (''desktopLifetime'', Individual),
     (''companySeat'', Teams)]"

datatype UnknownLicenseProduct = UnknownLicenseProduct

definition product_from_db :: "rstring \<Rightarrow> UnknownLicenseProduct + LicenseProduct" where
  "product_from_db v = (if v = ''none'' then Inr NoProduct
     else if v = ''individual'' then Inr Individual
     else if v = ''teams'' then Inr Teams
     else case map_of LEGACY_DB_VALUES v of Some p \<Rightarrow> Inr p | None \<Rightarrow> Inl UnknownLicenseProduct)"

fun status_db_value :: "LicenseStatus \<Rightarrow> rstring" where
  "status_db_value Unlicensed = ''unlicensed''"
| "status_db_value LActive = ''active''"
| "status_db_value OfflineGrace = ''offlineGrace''"
| "status_db_value NeedsOnline = ''needsOnline''"
| "status_db_value LExpired = ''expired''"
| "status_db_value LRevoked = ''revoked''"
| "status_db_value LDisabled = ''disabled''"
| "status_db_value DeviceLimit = ''deviceLimit''"
| "status_db_value SecureStorageUnavailable = ''secureStorageUnavailable''"
| "status_db_value NotConfigured = ''notConfigured''"

definition status_from_db :: "rstring \<Rightarrow> LicenseStatus" where
  "status_from_db v = (if v = ''active'' then LActive
     else if v = ''offlineGrace'' then OfflineGrace
     else if v = ''needsOnline'' then NeedsOnline
     else if v = ''expired'' then LExpired
     else if v = ''revoked'' then LRevoked
     else if v = ''disabled'' then LDisabled
     else if v = ''deviceLimit'' then DeviceLimit
     else if v = ''secureStorageUnavailable'' then SecureStorageUnavailable
     else if v = ''notConfigured'' then NotConfigured
     else Unlicensed)"

definition is_previously_granted :: "LicenseStatus \<Rightarrow> bool" where
  "is_previously_granted s = (s = LActive \<or> s = OfflineGrace)"

definition is_entitled :: "LicenseStatus \<Rightarrow> bool" where
  "is_entitled s = (s = LActive \<or> s = OfflineGrace \<or> s = NeedsOnline \<or> s = LExpired)"

section \<open>The update window\<close>

text \<open>\<open>calendar\<close> holds \<^verbatim>\<open>chrono\<close>'s reading of dates and instants and the release date baked into the build.\<close>

record calendar =
  cal_chrono :: chrono
  cal_parse_date :: "rstring \<Rightarrow> int option"
  cal_release :: "rstring option"

definition day_ns :: int where "day_ns = 86400 * 1000000000"

definition parse_release_date :: "calendar \<Rightarrow> rstring option \<Rightarrow> int option" where
  "parse_release_date C v = Option.bind (nonblank v) (cal_parse_date C)"

definition parse_deadline :: "calendar \<Rightarrow> rstring option \<Rightarrow> int option" where
  "parse_deadline C v = Option.bind (nonblank v) (parse_rfc3339 (cal_chrono C))"

definition is_in_update_window :: "calendar \<Rightarrow> rstring option \<Rightarrow> rstring option \<Rightarrow> bool" where
  "is_in_update_window C release deadline =
     (case (parse_release_date C release, parse_deadline C deadline) of
        (Some r, Some d) \<Rightarrow> r \<le> d div day_ns
      | _ \<Rightarrow> True)"

section \<open>The status shown to the user and the stored row\<close>

record LicenseStatusDto =
  ld_product :: LicenseProduct
  ld_state :: LicenseStatus
  ld_masked_key :: "rstring option"
  ld_benefit_id :: "rstring option"
  ld_activation_label :: "rstring option"
  ld_current_device :: bool
  ld_update_deadline :: "rstring option"
  ld_in_update_window :: bool
  ld_last_validation :: "rstring option"
  ld_next_refresh :: "rstring option"
  ld_offline_deadline :: "rstring option"
  ld_error_code :: "rstring option"

record StoredLicenseSnapshot =
  sl_product :: rstring
  sl_status :: rstring
  sl_masked_key :: "rstring option"
  sl_benefit_id :: "rstring option"
  sl_activation_label :: "rstring option"
  sl_current_device :: bool
  sl_expires_at :: "rstring option"
  sl_last_success_at :: "rstring option"
  sl_refresh_due_at :: "rstring option"
  sl_offline_deadline :: "rstring option"
  sl_error_code :: "rstring option"
  sl_credential_ref :: "rstring option"
  sl_updated_at :: rstring

definition unlicensed :: LicenseStatusDto where
  "unlicensed = \<lparr>ld_product = NoProduct, ld_state = Unlicensed, ld_masked_key = None,
     ld_benefit_id = None, ld_activation_label = None, ld_current_device = False,
     ld_update_deadline = None, ld_in_update_window = True, ld_last_validation = None,
     ld_next_refresh = None, ld_offline_deadline = None, ld_error_code = None\<rparr>"

definition set_update_deadline :: "calendar \<Rightarrow> rstring option \<Rightarrow> LicenseStatusDto \<Rightarrow> LicenseStatusDto" where
  "set_update_deadline C deadline dto = dto\<lparr>
     ld_in_update_window := is_in_update_window C (cal_release C) deadline,
     ld_update_deadline := deadline\<rparr>"

definition not_configured :: "rstring option \<Rightarrow> LicenseStatusDto" where
  "not_configured code = unlicensed\<lparr>ld_state := NotConfigured, ld_error_code := code\<rparr>"

definition from_stored ::
  "calendar \<Rightarrow> StoredLicenseSnapshot \<Rightarrow> UnknownLicenseProduct + LicenseStatusDto" where
  "from_stored C s = (case product_from_db (sl_product s) of
      Inl e \<Rightarrow> Inl e
    | Inr p \<Rightarrow> Inr (set_update_deadline C (sl_expires_at s) (unlicensed\<lparr>ld_product := p,
        ld_state := status_from_db (sl_status s), ld_masked_key := sl_masked_key s,
        ld_benefit_id := sl_benefit_id s, ld_activation_label := sl_activation_label s,
        ld_current_device := sl_current_device s, ld_last_validation := sl_last_success_at s,
        ld_next_refresh := sl_refresh_due_at s, ld_offline_deadline := sl_offline_deadline s,
        ld_error_code := sl_error_code s\<rparr>)))"

definition into_stored ::
  "calendar \<Rightarrow> LicenseStatusDto \<Rightarrow> rstring option \<Rightarrow> int \<Rightarrow> StoredLicenseSnapshot" where
  "into_stored C dto ref now = \<lparr>sl_product = product_db_value (ld_product dto),
     sl_status = status_db_value (ld_state dto), sl_masked_key = ld_masked_key dto,
     sl_benefit_id = ld_benefit_id dto, sl_activation_label = ld_activation_label dto,
     sl_current_device = ld_current_device dto, sl_expires_at = ld_update_deadline dto,
     sl_last_success_at = ld_last_validation dto, sl_refresh_due_at = ld_next_refresh dto,
     sl_offline_deadline = ld_offline_deadline dto, sl_error_code = ld_error_code dto,
     sl_credential_ref = ref, sl_updated_at = to_rfc3339 (cal_chrono C) now\<rparr>"

record LicenseCommandError =
  lc_code :: rstring
  lc_recoverable :: bool

section \<open>The offline policy\<close>

definition REFRESH_AFTER_DAYS :: int where "REFRESH_AFTER_DAYS = 7"
definition OFFLINE_GRACE_DAYS :: int where "OFFLINE_GRACE_DAYS = 30"

record OfflineEvaluation =
  oe_state :: LicenseStatus
  oe_should_refresh :: bool

definition is_some_and :: "('a \<Rightarrow> bool) \<Rightarrow> 'a option \<Rightarrow> bool" where
  "is_some_and p x = (case x of None \<Rightarrow> False | Some y \<Rightarrow> p y)"

lemma is_some_and_simps [simp]: "is_some_and p None = False" "is_some_and p (Some y) = p y"
  by (simp_all add: is_some_and_def)

definition evaluate_cached_state ::
  "LicenseStatus \<Rightarrow> int option \<Rightarrow> int option \<Rightarrow> int option \<Rightarrow> int \<Rightarrow> OfflineEvaluation" where
  "evaluate_cached_state state update_deadline refresh_due offline_deadline now =
     (if \<not> is_previously_granted state then \<lparr>oe_state = state,
        oe_should_refresh = (state = LExpired \<and> is_some_and (\<lambda>due. due \<le> now) refresh_due)\<rparr>
      else if is_some_and (\<lambda>d. d < now) offline_deadline
      then \<lparr>oe_state = NeedsOnline, oe_should_refresh = True\<rparr>
      else let should_refresh = is_some_and (\<lambda>due. due \<le> now) refresh_due in
        if state = LActive \<and> is_some_and (\<lambda>d. d \<le> now) update_deadline
        then \<lparr>oe_state = LExpired, oe_should_refresh = should_refresh\<rparr>
        else \<lparr>oe_state = state, oe_should_refresh = should_refresh\<rparr>)"

definition state_after_transient_failure ::
  "LicenseStatus \<Rightarrow> int option \<Rightarrow> int \<Rightarrow> LicenseStatus" where
  "state_after_transient_failure prior offline_deadline now =
     (if \<not> is_previously_granted prior then prior
      else if is_some_and (\<lambda>d. now \<le> d) offline_deadline then OfflineGrace else NeedsOnline)"

section \<open>The service\<close>

record ('k, 'p) LicenseService =
  sv_config :: "PolarConfig option"
  sv_config_error :: "rstring option"
  sv_polar :: "'p polar"
  sv_keyring :: "'k keyring"
  sv_calendar :: calendar

record ('k, 'p) license_state =
  lx_row :: "StoredLicenseSnapshot option"
  lx_keys :: 'k
  lx_net :: 'p

record db_health =
  db_reads :: bool
  db_writes :: bool
  db_deletes :: bool

definition UPDATE_WINDOW_CLOSED :: rstring where "UPDATE_WINDOW_CLOSED = ''update_window_closed''"

definition local_state_error :: LicenseCommandError where
  "local_state_error = \<lparr>lc_code = ''license_state_unavailable'', lc_recoverable = True\<rparr>"

fun map_store_error :: "LicenseStoreError \<Rightarrow> LicenseCommandError" where
  "map_store_error StLocked = \<lparr>lc_code = ''secure_storage_unavailable'', lc_recoverable = True\<rparr>"
| "map_store_error _ = \<lparr>lc_code = ''secure_storage_invalid'', lc_recoverable = False\<rparr>"

definition parse_time :: "calendar \<Rightarrow> rstring option \<Rightarrow> int option" where
  "parse_time C v = Option.bind v (parse_rfc3339 (cal_chrono C))"

definition mask_key :: "rstring \<Rightarrow> rstring" where
  "mask_key key = bullet @ bullet @ bullet @ bullet @ ''-''
     @ concat (rev (take 4 (rev (uchars key))))"

definition confirmed_state :: "PolarLicenseResult \<Rightarrow> int \<Rightarrow> LicenseStatus" where
  "confirmed_state r now = (case pl_status r of
      PRevoked \<Rightarrow> LRevoked
    | PDisabled \<Rightarrow> LDisabled
    | Granted \<Rightarrow> if is_some_and (\<lambda>e. e \<le> now) (pl_expires_at r) then LExpired else LActive)"

definition failure_status :: "rstring \<Rightarrow> LicenseStatus \<Rightarrow> rstring \<Rightarrow> LicenseStatusDto" where
  "failure_status masked st code = unlicensed\<lparr>ld_state := st, ld_masked_key := Some masked,
     ld_error_code := Some code\<rparr>"

definition activation_failure_status :: "rstring \<Rightarrow> PolarClientError \<Rightarrow> LicenseStatusDto" where
  "activation_failure_status masked e = (case e of
      DeviceLimitReached \<Rightarrow> failure_status masked DeviceLimit ''device_limit''
    | _ \<Rightarrow> failure_status masked Unlicensed (PolarClientError_code e))"

definition expiry_text :: "calendar \<Rightarrow> PolarLicenseResult \<Rightarrow> rstring option" where
  "expiry_text C r = map_option (to_rfc3339 (cal_chrono C)) (pl_expires_at r)"

definition confirmed_failure_status ::
  "calendar \<Rightarrow> rstring \<Rightarrow> LicenseProduct \<Rightarrow> PolarLicenseResult \<Rightarrow> LicenseStatus \<Rightarrow> LicenseStatusDto" where
  "confirmed_failure_status C masked product r st = set_update_deadline C (expiry_text C r)
     (unlicensed\<lparr>ld_product := product, ld_state := st, ld_masked_key := Some masked,
        ld_benefit_id := Some (pl_benefit_id r),
        ld_error_code := Some (case st of LExpired \<Rightarrow> UPDATE_WINDOW_CLOSED
          | LRevoked \<Rightarrow> ''license_revoked'' | LDisabled \<Rightarrow> ''license_disabled''
          | _ \<Rightarrow> ''license_invalid'')\<rparr>)"

text \<open>Reading the status touches the row only to remove one that has no credential.\<close>

definition cached_evaluation ::
  "calendar \<Rightarrow> LicenseStatusDto \<Rightarrow> int \<Rightarrow> OfflineEvaluation" where
  "cached_evaluation C dto now = evaluate_cached_state (ld_state dto)
     (parse_time C (ld_update_deadline dto)) (parse_time C (ld_next_refresh dto))
     (parse_time C (ld_offline_deadline dto)) now"

definition status_code :: "LicenseStatus \<Rightarrow> rstring option \<Rightarrow> rstring option" where
  "status_code st code = (if st = LExpired then Some UPDATE_WINDOW_CLOSED
     else if st = NeedsOnline then Some ''online_validation_required''
     else if (st = LActive \<or> st = OfflineGrace) \<and> code = Some UPDATE_WINDOW_CLOSED then None
     else code)"

definition get_status ::
  "('k, 'p) LicenseService \<Rightarrow> db_health \<Rightarrow> int \<Rightarrow> ('k, 'p) license_state
    \<Rightarrow> (LicenseCommandError + LicenseStatusDto) \<times> ('k, 'p) license_state" where
  "get_status S D now x =
     (if sv_config S = None then (Inr (not_configured (sv_config_error S)), x)
      else if \<not> db_reads D then (Inl local_state_error, x)
      else case lx_row x of
          None \<Rightarrow> (Inr unlicensed, x)
        | Some snapshot \<Rightarrow>
          if sl_credential_ref snapshot = None then
            (if db_deletes D then (Inr unlicensed, x\<lparr>lx_row := None\<rparr>) else (Inl local_state_error, x))
          else (case from_stored (sv_calendar S) snapshot of
              Inl _ \<Rightarrow> (Inl local_state_error, x)
            | Inr dto \<Rightarrow>
              (let st = oe_state (cached_evaluation (sv_calendar S) dto now)
               in (Inr (dto\<lparr>ld_state := st, ld_error_code := status_code st (ld_error_code dto)\<rparr>), x))))"

definition license_should_refresh ::
  "('k, 'p) LicenseService \<Rightarrow> db_health \<Rightarrow> int \<Rightarrow> ('k, 'p) license_state \<Rightarrow> bool" where
  "license_should_refresh S D now x =
     (db_reads D \<and> (case lx_row x of None \<Rightarrow> False
        | Some snapshot \<Rightarrow> sv_config S \<noteq> None \<and> sl_credential_ref snapshot \<noteq> None
            \<and> (case from_stored (sv_calendar S) snapshot of Inl _ \<Rightarrow> False
                | Inr dto \<Rightarrow> oe_should_refresh (cached_evaluation (sv_calendar S) dto now))))"

subsection \<open>Activation\<close>

definition compensate_activation ::
  "('k, 'p) LicenseService \<Rightarrow> PolarConfig \<Rightarrow> rstring \<Rightarrow> LicenseCredentialEnvelope \<Rightarrow> rstring option
    \<Rightarrow> ('k, 'p) license_state \<Rightarrow> ('k, 'p) license_state" where
  "compensate_activation S c ref envelope activation x =
     (let x1 = x\<lparr>lx_keys := snd (store_delete (sv_keyring S) ref (lx_keys x))\<rparr> in
      case activation of None \<Rightarrow> x1
      | Some a \<Rightarrow> x1\<lparr>lx_net := snd (polar_deactivate (sv_polar S) c (le_license_key envelope) a (lx_net x1))\<rparr>)"

definition active_dto ::
  "calendar \<Rightarrow> rstring \<Rightarrow> rstring option \<Rightarrow> LicenseProduct \<Rightarrow> PolarLicenseResult \<Rightarrow> rstring option \<Rightarrow> int
    \<Rightarrow> LicenseStatusDto" where
  "active_dto C masked label product license activation now = set_update_deadline C (expiry_text C license)
     (unlicensed\<lparr>ld_product := product, ld_state := LActive, ld_masked_key := Some masked,
        ld_benefit_id := Some (pl_benefit_id license), ld_activation_label := label,
        ld_current_device := (activation \<noteq> None),
        ld_last_validation := Some (to_rfc3339 (cal_chrono C) now),
        ld_next_refresh := Some (to_rfc3339 (cal_chrono C) (now + REFRESH_AFTER_DAYS * day_ns)),
        ld_offline_deadline := Some (to_rfc3339 (cal_chrono C) (now + OFFLINE_GRACE_DAYS * day_ns))\<rparr>)"

definition persist_license ::
  "('k, 'p) LicenseService \<Rightarrow> db_health \<Rightarrow> PolarConfig \<Rightarrow> rstring \<Rightarrow> rstring option \<Rightarrow> LicenseProduct
    \<Rightarrow> PolarLicenseResult \<Rightarrow> rstring option \<Rightarrow> int \<Rightarrow> rstring \<Rightarrow> ('k, 'p) license_state
    \<Rightarrow> (LicenseCommandError + LicenseStatusDto) \<times> ('k, 'p) license_state" where
  "persist_license S D c key label product license activation now ref x =
     (let envelope = (case activation of Some a \<Rightarrow> envelope_new key a | None \<Rightarrow> without_activation key)
      in case store_put (sv_keyring S) ref envelope (lx_keys x) of
           (Inl _, k) \<Rightarrow> (Inr (failure_status (mask_key key) SecureStorageUnavailable ''secure_storage_unavailable''),
              compensate_activation S c ref envelope activation (x\<lparr>lx_keys := k\<rparr>))
         | (Inr _, k) \<Rightarrow>
           (let x1 = x\<lparr>lx_keys := k\<rparr>;
                dto = active_dto (sv_calendar S) (mask_key key) label product license activation now
            in if db_writes D
               then (Inr dto, x1\<lparr>lx_row := Some (into_stored (sv_calendar S) dto (Some ref) now)\<rparr>)
               else (Inl local_state_error, compensate_activation S c ref envelope activation x1)))"

text \<open>The benefit has no device activations: the key is validated without one (lines 183 to 218).\<close>

definition activate_without_device ::
  "('k, 'p) LicenseService \<Rightarrow> db_health \<Rightarrow> PolarConfig \<Rightarrow> rstring \<Rightarrow> int \<Rightarrow> rstring
    \<Rightarrow> ('k, 'p) license_state \<Rightarrow> (LicenseCommandError + LicenseStatusDto) \<times> ('k, 'p) license_state" where
  "activate_without_device S D c key now ref x =
     (case polar_validate (sv_polar S) c key None (lx_net x) of
        (Inl e, p) \<Rightarrow> (Inr (activation_failure_status (mask_key key) e), x\<lparr>lx_net := p\<rparr>)
      | (Inr validated, p) \<Rightarrow>
        (case product_for_benefit (po_ident (sv_polar S)) c (pl_benefit_id validated) of
           None \<Rightarrow> (Inr (failure_status (mask_key key) Unlicensed ''unsupported_product''), x\<lparr>lx_net := p\<rparr>)
         | Some product \<Rightarrow>
           if confirmed_state validated now \<noteq> LActive
           then (Inr (confirmed_failure_status (sv_calendar S) (mask_key key) product validated
                  (confirmed_state validated now)), x\<lparr>lx_net := p\<rparr>)
           else persist_license S D c key None product validated None now ref (x\<lparr>lx_net := p\<rparr>)))"

definition undo_remote ::
  "('k, 'p) LicenseService \<Rightarrow> PolarConfig \<Rightarrow> rstring \<Rightarrow> rstring \<Rightarrow> ('k, 'p) license_state \<Rightarrow> ('k, 'p) license_state" where
  "undo_remote S c key activation x =
     x\<lparr>lx_net := snd (polar_deactivate (sv_polar S) c key activation (lx_net x))\<rparr>"

text \<open>The device was activated remotely: confirm, validate, and only then keep it (lines 225 to 295).\<close>

definition activate_device ::
  "('k, 'p) LicenseService \<Rightarrow> db_health \<Rightarrow> PolarConfig \<Rightarrow> rstring \<Rightarrow> rstring \<Rightarrow> PolarActivationResult \<Rightarrow> int
    \<Rightarrow> rstring \<Rightarrow> ('k, 'p) license_state
    \<Rightarrow> (LicenseCommandError + LicenseStatusDto) \<times> ('k, 'p) license_state" where
  "activate_device S D c key label a now ref x =
     (let i = pa_activation_id a; lic = pa_license a; I = po_ident (sv_polar S); masked = mask_key key in
      case product_for_benefit I c (pl_benefit_id lic) of
        None \<Rightarrow> (Inr (failure_status masked Unlicensed ''unsupported_product''), undo_remote S c key i x)
      | Some activation_product \<Rightarrow>
        if confirmed_state lic now \<noteq> LActive
        then (Inr (confirmed_failure_status (sv_calendar S) masked activation_product lic
               (confirmed_state lic now)), undo_remote S c key i x)
        else (case polar_validate (sv_polar S) c key (Some i) (lx_net x) of
            (Inl e, p) \<Rightarrow> (Inr (activation_failure_status masked e), undo_remote S c key i (x\<lparr>lx_net := p\<rparr>))
          | (Inr validated, p) \<Rightarrow>
            (case product_for_benefit I c (pl_benefit_id validated) of
               None \<Rightarrow> (Inr (failure_status masked Unlicensed ''unsupported_product''),
                  undo_remote S c key i (x\<lparr>lx_net := p\<rparr>))
             | Some product \<Rightarrow>
               if confirmed_state validated now \<noteq> LActive
               then (Inr (confirmed_failure_status (sv_calendar S) masked product validated
                      (confirmed_state validated now)), undo_remote S c key i (x\<lparr>lx_net := p\<rparr>))
               else persist_license S D c key (Some label) product validated (Some i) now ref
                      (x\<lparr>lx_net := p\<rparr>))))"

definition has_credential :: "('k, 'p) license_state \<Rightarrow> bool" where
  "has_credential x = is_some_and (\<lambda>s. sl_credential_ref s \<noteq> None) (lx_row x)"

definition bad_input :: "rstring \<Rightarrow> rstring \<Rightarrow> bool" where
  "bad_input key label = (key = [] \<or> 256 < length key \<or> length (trim key) \<noteq> length key
     \<or> label = [] \<or> 120 < char_count label)"

definition activate_remote ::
  "('k, 'p) LicenseService \<Rightarrow> db_health \<Rightarrow> PolarConfig \<Rightarrow> rstring \<Rightarrow> rstring \<Rightarrow> int \<Rightarrow> rstring
    \<Rightarrow> ('k, 'p) license_state \<Rightarrow> (LicenseCommandError + LicenseStatusDto) \<times> ('k, 'p) license_state" where
  "activate_remote S D c key label now ref x =
     (case polar_activate (sv_polar S) c key label (lx_net x) of
        (Inr a, p) \<Rightarrow> activate_device S D c key label a now ref (x\<lparr>lx_net := p\<rparr>)
      | (Inl e, p) \<Rightarrow>
        if e = ActivationsUnsupported then activate_without_device S D c key now ref (x\<lparr>lx_net := p\<rparr>)
        else (Inr (activation_failure_status (mask_key key) e), x\<lparr>lx_net := p\<rparr>))"

definition activate ::
  "('k, 'p) LicenseService \<Rightarrow> db_health \<Rightarrow> rstring \<Rightarrow> rstring \<Rightarrow> int \<Rightarrow> rstring \<Rightarrow> ('k, 'p) license_state
    \<Rightarrow> (LicenseCommandError + LicenseStatusDto) \<times> ('k, 'p) license_state" where
  "activate S D key device_label now ref x =
     (case sv_config S of
        None \<Rightarrow> (Inr (not_configured (sv_config_error S)), x)
      | Some c \<Rightarrow>
        if \<not> db_reads D then (Inl local_state_error, x)
        else if has_credential x
        then (Inl \<lparr>lc_code = ''license_already_active'', lc_recoverable = True\<rparr>, x)
        else if lx_row x \<noteq> None \<and> \<not> db_deletes D then (Inl local_state_error, x)
        else let x1 = x\<lparr>lx_row := None\<rparr>; label = trim device_label in
          if bad_input key label then (Inl \<lparr>lc_code = ''invalid_input'', lc_recoverable = True\<rparr>, x1)
          else activate_remote S D c key label now ref x1)"

subsection \<open>Revalidation\<close>

definition persist_validation ::
  "('k, 'p) LicenseService \<Rightarrow> db_health \<Rightarrow> StoredLicenseSnapshot \<Rightarrow> LicenseProduct option
    \<Rightarrow> PolarLicenseResult \<Rightarrow> int \<Rightarrow> ('k, 'p) license_state
    \<Rightarrow> (LicenseCommandError + LicenseStatusDto) \<times> ('k, 'p) license_state" where
  "persist_validation S D snapshot product result now x =
     (let C = sv_calendar S in
      case from_stored C snapshot of
        Inl _ \<Rightarrow> (Inl local_state_error, x)
      | Inr dto0 \<Rightarrow>
        (let dto1 = set_update_deadline C (expiry_text C result)
               (dto0\<lparr>ld_benefit_id := Some (pl_benefit_id result)\<rparr>);
             dto2 = (case product of
                 Some p \<Rightarrow> (let st = confirmed_state result now in
                   dto1\<lparr>ld_product := p, ld_state := st,
                     ld_error_code := (case st of LExpired \<Rightarrow> Some UPDATE_WINDOW_CLOSED
                       | LRevoked \<Rightarrow> Some ''license_revoked'' | LDisabled \<Rightarrow> Some ''license_disabled''
                       | _ \<Rightarrow> None)\<rparr>)
               | None \<Rightarrow> dto1\<lparr>ld_state := LDisabled, ld_error_code := Some ''unsupported_product''\<rparr>);
             dto = (if ld_state dto2 = LActive then dto2\<lparr>
                 ld_last_validation := Some (to_rfc3339 (cal_chrono C) now),
                 ld_next_refresh := Some (to_rfc3339 (cal_chrono C) (now + REFRESH_AFTER_DAYS * day_ns)),
                 ld_offline_deadline := Some (to_rfc3339 (cal_chrono C) (now + OFFLINE_GRACE_DAYS * day_ns))\<rparr>
               else dto2)
         in if db_writes D
            then (Inr dto, x\<lparr>lx_row := Some (into_stored C dto (sl_credential_ref snapshot) now)\<rparr>)
            else (Inl local_state_error, x)))"

definition state_after_error ::
  "calendar \<Rightarrow> LicenseStatusDto \<Rightarrow> PolarClientError \<Rightarrow> int \<Rightarrow> LicenseStatus" where
  "state_after_error C dto e now =
     (if is_transient e
      then state_after_transient_failure (ld_state dto) (parse_time C (ld_offline_deadline dto)) now
      else case e of
          InvalidLicense \<Rightarrow> if is_some_and (\<lambda>d. d \<le> now) (parse_time C (ld_update_deadline dto))
            then LExpired else LRevoked
        | DeviceLimitReached \<Rightarrow> DeviceLimit
        | ResponseTooLarge \<Rightarrow> NeedsOnline
        | InvalidResponse \<Rightarrow> NeedsOnline
        | _ \<Rightarrow> ld_state dto)"

definition persist_validation_error ::
  "('k, 'p) LicenseService \<Rightarrow> db_health \<Rightarrow> StoredLicenseSnapshot \<Rightarrow> PolarClientError \<Rightarrow> int
    \<Rightarrow> ('k, 'p) license_state \<Rightarrow> (LicenseCommandError + LicenseStatusDto) \<times> ('k, 'p) license_state" where
  "persist_validation_error S D snapshot e now x =
     (let C = sv_calendar S in
      case from_stored C snapshot of
        Inl _ \<Rightarrow> (Inl local_state_error, x)
      | Inr dto0 \<Rightarrow>
        (let st = state_after_error C dto0 e now;
             dto = dto0\<lparr>ld_state := st, ld_error_code := Some (if st = LExpired
               then UPDATE_WINDOW_CLOSED else PolarClientError_code e)\<rparr>
         in if db_writes D
            then (Inr dto, x\<lparr>lx_row := Some (into_stored C dto (sl_credential_ref snapshot) now)\<rparr>)
            else (Inl local_state_error, x)))"

definition persist_storage_failure ::
  "('k, 'p) LicenseService \<Rightarrow> db_health \<Rightarrow> StoredLicenseSnapshot \<Rightarrow> rstring \<Rightarrow> int
    \<Rightarrow> ('k, 'p) license_state \<Rightarrow> (LicenseCommandError + LicenseStatusDto) \<times> ('k, 'p) license_state" where
  "persist_storage_failure S D snapshot code now x =
     (let C = sv_calendar S in
      case from_stored C snapshot of
        Inl _ \<Rightarrow> (Inl local_state_error, x)
      | Inr dto0 \<Rightarrow>
        (let dto = dto0\<lparr>ld_state := SecureStorageUnavailable, ld_error_code := Some code\<rparr>
         in if db_writes D
            then (Inr dto, x\<lparr>lx_row := Some (into_stored C dto (sl_credential_ref snapshot) now)\<rparr>)
            else (Inl local_state_error, x)))"

text \<open>The activation id of a credential: absent, or a text that must be an identifier.\<close>

definition credential_activation ::
  "ident \<Rightarrow> LicenseCredentialEnvelope \<Rightarrow> rstring option option" where
  "credential_activation I cred = (case le_activation_id cred of
      None \<Rightarrow> Some None
    | Some v \<Rightarrow> map_option Some (parse_uuid I v))"

definition license_refresh ::
  "('k, 'p) LicenseService \<Rightarrow> db_health \<Rightarrow> int \<Rightarrow> ('k, 'p) license_state
    \<Rightarrow> (LicenseCommandError + LicenseStatusDto) \<times> ('k, 'p) license_state" where
  "license_refresh S D now x =
     (case sv_config S of
        None \<Rightarrow> (Inr (not_configured (sv_config_error S)), x)
      | Some c \<Rightarrow>
        if \<not> db_reads D then (Inl local_state_error, x)
        else case lx_row x of
            None \<Rightarrow> (Inr unlicensed, x)
          | Some snapshot \<Rightarrow>
            (case sl_credential_ref snapshot of
               None \<Rightarrow> if db_deletes D then (Inr unlicensed, x\<lparr>lx_row := None\<rparr>)
                       else (Inl local_state_error, x)
             | Some ref \<Rightarrow>
               (case store_get (sv_keyring S) ref (lx_keys x) of
                  Inl _ \<Rightarrow> persist_storage_failure S D snapshot ''secure_storage_unavailable'' now x
                | Inr cred \<Rightarrow>
                  (case credential_activation (po_ident (sv_polar S)) cred of
                     None \<Rightarrow> persist_storage_failure S D snapshot ''secure_storage_invalid'' now x
                   | Some activation \<Rightarrow>
                     (case polar_validate (sv_polar S) c (le_license_key cred) activation (lx_net x) of
                        (Inr result, p) \<Rightarrow> persist_validation S D snapshot
                           (product_for_benefit (po_ident (sv_polar S)) c (pl_benefit_id result))
                           result now (x\<lparr>lx_net := p\<rparr>)
                      | (Inl e, p) \<Rightarrow> persist_validation_error S D snapshot e now (x\<lparr>lx_net := p\<rparr>))))))"

subsection \<open>Deactivation\<close>

text \<open>The local half: the credential goes first, then the row.\<close>

definition forget_license ::
  "('k, 'p) LicenseService \<Rightarrow> db_health \<Rightarrow> StoredLicenseSnapshot \<Rightarrow> rstring \<Rightarrow> int
    \<Rightarrow> ('k, 'p) license_state \<Rightarrow> (LicenseCommandError + LicenseStatusDto) \<times> ('k, 'p) license_state" where
  "forget_license S D snapshot ref now x =
     (case store_delete (sv_keyring S) ref (lx_keys x) of
        (Inl _, k) \<Rightarrow> persist_storage_failure S D snapshot ''secure_storage_unavailable'' now (x\<lparr>lx_keys := k\<rparr>)
      | (Inr _, k) \<Rightarrow> if db_deletes D then (Inr unlicensed, x\<lparr>lx_keys := k, lx_row := None\<rparr>)
          else (Inl local_state_error, x\<lparr>lx_keys := k\<rparr>))"

definition license_deactivate ::
  "('k, 'p) LicenseService \<Rightarrow> db_health \<Rightarrow> int \<Rightarrow> ('k, 'p) license_state
    \<Rightarrow> (LicenseCommandError + LicenseStatusDto) \<times> ('k, 'p) license_state" where
  "license_deactivate S D now x =
     (case sv_config S of
        None \<Rightarrow> (Inl \<lparr>lc_code = ''polar_not_configured'', lc_recoverable = True\<rparr>, x)
      | Some c \<Rightarrow>
        if \<not> db_reads D then (Inl local_state_error, x)
        else case lx_row x of
            None \<Rightarrow> (Inr unlicensed, x)
          | Some snapshot \<Rightarrow>
            (case sl_credential_ref snapshot of
               None \<Rightarrow> if db_deletes D then (Inr unlicensed, x\<lparr>lx_row := None\<rparr>)
                       else (Inl local_state_error, x)
             | Some ref \<Rightarrow>
               (case store_get (sv_keyring S) ref (lx_keys x) of
                  Inl e \<Rightarrow> (Inl (map_store_error e), x)
                | Inr cred \<Rightarrow>
                  (case le_activation_id cred of
                     None \<Rightarrow> forget_license S D snapshot ref now x
                   | Some v \<Rightarrow>
                     (case parse_uuid (po_ident (sv_polar S)) v of
                        None \<Rightarrow> (Inl \<lparr>lc_code = ''secure_storage_invalid'', lc_recoverable = False\<rparr>, x)
                      | Some a \<Rightarrow>
                        (case polar_deactivate (sv_polar S) c (le_license_key cred) a (lx_net x) of
                           (Inl e, p) \<Rightarrow> (Inl \<lparr>lc_code = PolarClientError_code e,
                              lc_recoverable = is_transient e\<rparr>, x\<lparr>lx_net := p\<rparr>)
                         | (Inr _, p) \<Rightarrow> forget_license S D snapshot ref now (x\<lparr>lx_net := p\<rparr>)))))))"

section \<open>Round trips of the stored values\<close>

lemma product_roundtrip [simp]: "product_from_db (product_db_value p) = Inr p"
  by (cases p) (simp_all add: product_from_db_def)

lemma status_roundtrip [simp]: "status_from_db (status_db_value s) = s"
  by (cases s) (simp_all add: status_from_db_def)

lemma dto_stored: "from_stored C (into_stored C dto ref now)
    = Inr (set_update_deadline C (ld_update_deadline dto) dto)"
  by (simp add: from_stored_def into_stored_def set_update_deadline_def unlicensed_def)

lemma set_update_deadline_fields [simp]:
  "ld_state (set_update_deadline C v dto) = ld_state dto"
  "ld_product (set_update_deadline C v dto) = ld_product dto"
  "ld_next_refresh (set_update_deadline C v dto) = ld_next_refresh dto"
  "ld_offline_deadline (set_update_deadline C v dto) = ld_offline_deadline dto"
  "ld_update_deadline (set_update_deadline C v dto) = v"
  by (simp_all add: set_update_deadline_def)

lemma set_update_deadline_idem [simp]:
  "set_update_deadline C v (set_update_deadline C v dto) = set_update_deadline C v dto"
  by (simp add: set_update_deadline_def)

section \<open>The outcome of an activation\<close>

text \<open>\<open>undone S c ref key act x x'\<close>: nothing of the attempt is left. The row is as in \<open>x\<close>, no other
  credential changed, and the last thing the network saw was the deactivation of \<open>act\<close>, if any.\<close>

definition undone ::
  "('k, 'p) LicenseService \<Rightarrow> PolarConfig \<Rightarrow> rstring \<Rightarrow> rstring \<Rightarrow> rstring option
    \<Rightarrow> ('k, 'p) license_state \<Rightarrow> ('k, 'p) license_state \<Rightarrow> bool" where
  "undone S c ref key act x x' = (lx_row x' = lx_row x
     \<and> (\<forall>s. s \<noteq> ref \<longrightarrow> store_get (sv_keyring S) s (lx_keys x') = store_get (sv_keyring S) s (lx_keys x))
     \<and> (\<forall>a. act = Some a \<longrightarrow> (\<exists>q. lx_net x' = snd (polar_deactivate (sv_polar S) c key a q))))"

definition kept ::
  "('k, 'p) LicenseService \<Rightarrow> rstring \<Rightarrow> rstring \<Rightarrow> int \<Rightarrow> LicenseStatusDto
    \<Rightarrow> ('k, 'p) license_state \<Rightarrow> ('k, 'p) license_state \<Rightarrow> bool" where
  "kept S ref key now dto x x' =
     ((\<exists>label product license act.
         dto = active_dto (sv_calendar S) (mask_key key) label product license act now)
     \<and> lx_row x' = Some (into_stored (sv_calendar S) dto (Some ref) now)
     \<and> (\<exists>env. store_get (sv_keyring S) ref (lx_keys x') = Inr env \<and> le_license_key env = key)
     \<and> (\<forall>s. s \<noteq> ref \<longrightarrow> store_get (sv_keyring S) s (lx_keys x') = store_get (sv_keyring S) s (lx_keys x)))"

definition inactive :: "LicenseCommandError + LicenseStatusDto \<Rightarrow> bool" where
  "inactive r = (case r of Inl _ \<Rightarrow> True | Inr dto \<Rightarrow> ld_state dto \<noteq> LActive)"

lemmas get_after_put = credential_store.fetch_put [OF store_is_credential_store]
  and get_after_put_other = credential_store.fetch_put_other [OF store_is_credential_store]
  and get_after_delete = credential_store.fetch_remove [OF store_is_credential_store]
  and get_after_delete_other = credential_store.fetch_remove_other [OF store_is_credential_store]

lemma compensate_undone:
  assumes K: "keyring_faithful (sv_keyring S)"
    and put: "store_put (sv_keyring S) ref env (lx_keys x) = (r, k)" and key: "le_license_key env = key"
  shows "undone S c ref key act x (compensate_activation S c ref env act (x\<lparr>lx_keys := k\<rparr>))"
proof -
  obtain r' k' where del: "store_delete (sv_keyring S) ref k = (r', k')" by (rule prod.exhaust)
  have "store_get (sv_keyring S) s k' = store_get (sv_keyring S) s (lx_keys x)" if "s \<noteq> ref" for s
    using get_after_put_other [OF K put that] get_after_delete_other [OF K del that] by (rule trans [rotated])
  moreover have "compensate_activation S c ref env act (x\<lparr>lx_keys := k\<rparr>) = (case act of
      None \<Rightarrow> x\<lparr>lx_keys := k'\<rparr>
    | Some a \<Rightarrow> x\<lparr>lx_keys := k', lx_net := snd (polar_deactivate (sv_polar S) c key a (lx_net x))\<rparr>)"
    by (simp add: compensate_activation_def del key split: option.split)
  ultimately show ?thesis unfolding undone_def by (auto split: option.split)
qed

lemma inactive_simps [simp]:
  "inactive (Inl e)" "inactive (Inr (activation_failure_status m e'))"
  "st \<noteq> LActive \<Longrightarrow> inactive (Inr (failure_status m st code))"
  "st \<noteq> LActive \<Longrightarrow> inactive (Inr (confirmed_failure_status C m p l st))"
  by (simp_all add: inactive_def activation_failure_status_def failure_status_def
      confirmed_failure_status_def split: PolarClientError.split)

lemma persist_license_outcome:
  assumes K: "keyring_faithful (sv_keyring S)"
    and p: "persist_license S D c key label product license act now ref x = (r, x')"
  shows "(\<exists>dto. r = Inr dto \<and> kept S ref key now dto x x') \<or> (inactive r \<and> undone S c ref key act x x')"
proof -
  let ?env = "case act of Some a \<Rightarrow> envelope_new key a | None \<Rightarrow> without_activation key"
  have env: "le_license_key ?env = key" "le_version ?env = CURRENT_VERSION"
    by (simp_all add: envelope_new_def without_activation_def split: option.split)
  obtain q k where put: "store_put (sv_keyring S) ref ?env (lx_keys x) = (q, k)" by (rule prod.exhaust)
  note undo = compensate_undone [OF K put env(1), of c act]
  show ?thesis
  proof (cases q)
    case (Inl e)
    with p put undo show ?thesis by (auto simp: persist_license_def)
  next
    case (Inr u)
    then have put': "store_put (sv_keyring S) ref ?env (lx_keys x) = (Inr (), k)" using put by simp
    note g = get_after_put [OF K put' env(2)] get_after_put_other [OF K put']
    show ?thesis
    proof (cases "db_writes D")
      case True
      let ?dto = "active_dto (sv_calendar S) (mask_key key) label product license act now"
      have "r = Inr ?dto" and x': "x' = x\<lparr>lx_keys := k, lx_row := Some (into_stored (sv_calendar S) ?dto (Some ref) now)\<rparr>"
        using p put' True by (simp_all add: persist_license_def Let_def)
      moreover have "kept S ref key now ?dto x x'"
        unfolding kept_def x' using g env(1) by auto
      ultimately show ?thesis by blast
    next
      case False
      with p put' undo Inr show ?thesis by (auto simp: persist_license_def Let_def)
    qed
  qed
qed

lemma kept_cong: "lx_keys y = lx_keys x \<Longrightarrow> kept S ref key now dto y x' = kept S ref key now dto x x'"
  by (simp add: kept_def)

lemma undone_cong:
  "lx_keys y = lx_keys x \<Longrightarrow> lx_row y = lx_row x \<Longrightarrow> undone S c ref key act y x' = undone S c ref key act x x'"
  by (simp add: undone_def)

lemma activate_device_outcome:
  assumes K: "keyring_faithful (sv_keyring S)"
    and p: "activate_device S D c key label a now ref x = (r, x')"
  shows "(\<exists>dto. r = Inr dto \<and> kept S ref key now dto x x')
    \<or> (inactive r \<and> undone S c ref key (Some (pa_activation_id a)) x x')"
proof -
  let ?i = "pa_activation_id a"
  have undo: "undone S c ref key (Some ?i) x (undo_remote S c key ?i (x\<lparr>lx_net := q\<rparr>))"
    "undone S c ref key (Some ?i) x (undo_remote S c key ?i x)" for q
    by (auto simp: undone_def undo_remote_def)
  have per: "(\<exists>dto. r = Inr dto \<and> kept S ref key now dto x x')
      \<or> (inactive r \<and> undone S c ref key (Some ?i) x x')"
    if "persist_license S D c key lab pr lic (Some ?i) now ref (x\<lparr>lx_net := q\<rparr>) = (r, x')" for lab pr lic q
    using persist_license_outcome [OF K that] by (simp add: kept_def undone_def)
  show ?thesis
    using p undo unfolding activate_device_def Let_def
    by (auto dest: per split: option.splits prod.splits sum.splits if_splits)
qed

lemma activate_without_device_outcome:
  assumes K: "keyring_faithful (sv_keyring S)"
    and p: "activate_without_device S D c key now ref x = (r, x')"
  shows "(\<exists>dto. r = Inr dto \<and> kept S ref key now dto x x') \<or> (inactive r \<and> undone S c ref key None x x')"
proof -
  have undo: "undone S c ref key None x (x\<lparr>lx_net := q\<rparr>)" for q by (simp add: undone_def)
  have per: "(\<exists>dto. r = Inr dto \<and> kept S ref key now dto x x') \<or> (inactive r \<and> undone S c ref key None x x')"
    if "persist_license S D c key lab pr lic None now ref (x\<lparr>lx_net := q\<rparr>) = (r, x')" for lab pr lic q
    using persist_license_outcome [OF K that] by (simp add: kept_def undone_def)
  show ?thesis
    using p undo unfolding activate_without_device_def
    by (auto dest: per split: option.splits prod.splits sum.splits if_splits)
qed

text \<open>\<^verbatim>\<open>activate\<close> with its guards: either an early answer, or one of the two remote paths.\<close>

lemma activate_remote_outcome:
  assumes K: "keyring_faithful (sv_keyring S)"
    and p: "activate_remote S D c key label now ref x = (r, x')"
  shows "(\<exists>dto. r = Inr dto \<and> kept S ref key now dto x x')
    \<or> (inactive r \<and> lx_row x' = lx_row x
       \<and> (\<forall>s. s \<noteq> ref \<longrightarrow> store_get (sv_keyring S) s (lx_keys x') = store_get (sv_keyring S) s (lx_keys x))
       \<and> (\<forall>a q. polar_activate (sv_polar S) c key label (lx_net x) = (Inr a, q) \<longrightarrow>
            (\<exists>q'. lx_net x' = snd (polar_deactivate (sv_polar S) c key (pa_activation_id a) q'))))"
proof -
  obtain res q where pa: "polar_activate (sv_polar S) c key label (lx_net x) = (res, q)"
    by (rule prod.exhaust)
  have keptx: "kept S ref key now dto (x\<lparr>lx_net := q\<rparr>) x' = kept S ref key now dto x x'" for dto
    by (simp add: kept_def)
  show ?thesis
  proof (cases res)
    case (Inr a)
    with p pa have "activate_device S D c key label a now ref (x\<lparr>lx_net := q\<rparr>) = (r, x')"
      by (simp add: activate_remote_def)
    from activate_device_outcome [OF K this] show ?thesis
      unfolding keptx using pa Inr by (auto simp: undone_def)
  next
    case (Inl e)
    show ?thesis
    proof (cases "e = ActivationsUnsupported")
      case True
      with Inl p pa have "activate_without_device S D c key now ref (x\<lparr>lx_net := q\<rparr>) = (r, x')"
        by (simp add: activate_remote_def)
      from activate_without_device_outcome [OF K this] show ?thesis
        unfolding keptx using pa Inl by (auto simp: undone_def)
    next
      case False
      with Inl p pa show ?thesis by (auto simp: activate_remote_def)
    qed
  qed
qed

text \<open>\<^verbatim>\<open>activate\<close> with its guards: an early answer, or the remote call on a state without a row.\<close>

lemma activate_cases:
  assumes "sv_config S = Some c"
  obtains (early) e where "activate S D key device_label now ref x = (Inl e, x)"
  | (input) e where "activate S D key device_label now ref x = (Inl e, x\<lparr>lx_row := None\<rparr>)"
      "\<not> has_credential x"
  | (remote) "activate S D key device_label now ref x =
        activate_remote S D c key (trim device_label) now ref (x\<lparr>lx_row := None\<rparr>)"
      "\<not> has_credential x"
proof -
  let ?act = "activate S D key device_label now ref x"
  have unf: "?act = (if \<not> db_reads D then (Inl local_state_error, x)
      else if has_credential x
      then (Inl \<lparr>lc_code = ''license_already_active'', lc_recoverable = True\<rparr>, x)
      else if lx_row x \<noteq> None \<and> \<not> db_deletes D then (Inl local_state_error, x)
      else if bad_input key (trim device_label)
      then (Inl \<lparr>lc_code = ''invalid_input'', lc_recoverable = True\<rparr>, x\<lparr>lx_row := None\<rparr>)
      else activate_remote S D c key (trim device_label) now ref (x\<lparr>lx_row := None\<rparr>))"
    by (simp add: activate_def assms Let_def)
  consider "\<not> db_reads D \<or> has_credential x \<or> lx_row x \<noteq> None \<and> \<not> db_deletes D"
    | "db_reads D" "\<not> has_credential x" "\<not> (lx_row x \<noteq> None \<and> \<not> db_deletes D)"
      "bad_input key (trim device_label)"
    | "db_reads D" "\<not> has_credential x" "\<not> (lx_row x \<noteq> None \<and> \<not> db_deletes D)"
      "\<not> bad_input key (trim device_label)" by blast
  then show thesis
  proof cases
    case 1
    then have "\<exists>e. ?act = (Inl e, x)" unfolding unf by (auto split: if_split)
    then show thesis using early by blast
  next
    case 2
    then have "?act = (Inl \<lparr>lc_code = ''invalid_input'', lc_recoverable = True\<rparr>, x\<lparr>lx_row := None\<rparr>)"
      unfolding unf by (simp only: not_False_eq_True not_True_eq_False if_True if_False)
    then show thesis using input 2(2) by blast
  next
    case 3
    then have "?act = activate_remote S D c key (trim device_label) now ref (x\<lparr>lx_row := None\<rparr>)"
      unfolding unf by (simp only: not_False_eq_True not_True_eq_False if_True if_False)
    then show thesis using remote 3(2) by blast
  qed
qed

section \<open>Time\<close>

lemma parse_time_printed:
  "chrono_faithful (cal_chrono C) \<Longrightarrow> parse_time C (Some (to_rfc3339 (cal_chrono C) t)) = Some t"
  by (simp add: parse_time_def chrono_faithful_def)

lemma evaluate_entitled [simp]:
  "is_entitled (oe_state (evaluate_cached_state st u r dl now)) = is_entitled st"
  by (auto simp: evaluate_cached_state_def is_entitled_def is_previously_granted_def Let_def)

section \<open>Samples\<close>

text \<open>A license service that answers every request with the same response, and a state without a
  license.\<close>

definition ex_ident :: ident where
  "ex_ident = \<lparr>parse_uuid = Some, uuid_version = (\<lambda>_. 4),
     parse_url = (\<lambda>_. None), url_join = (\<lambda>u _. Some u)\<rparr>"

definition ex_config :: PolarConfig where
  "ex_config = \<lparr>pc_api_base = \<lparr>url_text = [], url_scheme = ''https'', url_host = None, url_path = ''/'',
       url_query = None, url_fragment = None\<rparr>, pc_organization_id = ''o'',
     pc_benefits = [(''b'', Individual)]\<rparr>"

definition ex_license_json :: json where
  "ex_license_json = JObject [(''id'', JString ''a''), (''label'', JString ''Mac''),
     (''benefit_id'', JString ''b''), (''status'', JString ''granted''),
     (''license_key'', JObject [(''benefit_id'', JString ''b''), (''status'', JString ''granted'')])]"

definition ex_polar :: "nat \<Rightarrow> nat polar" where
  "ex_polar status = \<lparr>po_serde = \<lparr>to_text = (\<lambda>_. None), from_text = (\<lambda>_. Some ex_license_json)\<rparr>,
     po_ident = ex_ident,
     po_net = \<lparr>net_send = (\<lambda>_ _ n. (Inr \<lparr>re_status = (if n = 2 then 204 else status),
        re_content_length = None, re_chunks = []\<rparr>, Suc n))\<rparr>,
     po_time = (\<lambda>_. None)\<rparr>"

definition ex_service :: "nat \<Rightarrow> (rstring \<rightharpoonup> rstring, nat) LicenseService" where
  "ex_service status = \<lparr>sv_config = Some ex_config, sv_config_error = None, sv_polar = ex_polar status,
     sv_keyring = map_keyring, sv_calendar = \<lparr>cal_chrono = unary_clock, cal_parse_date = (\<lambda>_. None),
       cal_release = None\<rparr>\<rparr>"

definition ex_health :: db_health where
  "ex_health = \<lparr>db_reads = True, db_writes = True, db_deletes = True\<rparr>"

definition ex_fresh :: "(rstring \<rightharpoonup> rstring, nat) license_state" where
  "ex_fresh = \<lparr>lx_row = None, lx_keys = Map.empty, lx_net = 0\<rparr>"

lemmas ex_license_defs = ex_service_def ex_polar_def ex_config_def ex_ident_def ex_health_def
  ex_fresh_def ex_license_json_def

lemmas polar_defs = polar_activate_def polar_validate_def polar_deactivate_def post_def
  typed_answer_def read_json_def declared_too_large_def ActivateResponse_read_def
  LicenseResponse_read_def expiry_field_def get_str_def

lemma ex_masked: "trim ''Mac'' = ''Mac''" "\<not> bad_input ''KEY-1234'' ''Mac''"
  by code_simp+

lemma ex_activation:
  "fst (polar_activate (ex_polar 200) ex_config k l 0) = Inr \<lparr>pa_activation_id = ''a'', pa_label = ''Mac'',
     pa_license = \<lparr>pl_benefit_id = ''b'', pl_status = Granted, pl_expires_at = None\<rparr>\<rparr>"
  "snd (polar_activate (ex_polar 200) ex_config k l 0) = 1"
  by (simp_all add: polar_defs ex_license_defs)

definition ex_license :: PolarLicenseResult where
  "ex_license = \<lparr>pl_benefit_id = ''b'', pl_status = Granted, pl_expires_at = None\<rparr>"

definition ex_dto :: LicenseStatusDto where
  "ex_dto = active_dto (sv_calendar (ex_service 200)) (mask_key ''KEY-1234'') (Some ''Mac'') Individual
     ex_license (Some ''a'') 0"

definition ex_active :: "(rstring \<rightharpoonup> rstring, nat) license_state" where
  "ex_active = \<lparr>lx_row = Some (into_stored (sv_calendar (ex_service 200)) ex_dto (Some ''ref'') 0),
     lx_keys = [''ref'' \<mapsto> ''KEY-1234'' @ [CHR 0xFF, CHR 0xFF] @ ''a''], lx_net = 2\<rparr>"

lemma ex_validation:
  "polar_validate (ex_polar 200) ex_config k act (Suc 0) = (Inr ex_license, 2)"
  by (simp add: polar_defs ex_license_defs ex_license_def)

lemma ex_activate: "activate (ex_service 200) ex_health ''KEY-1234'' ''Mac'' 0 ''ref'' ex_fresh = (Inr ex_dto, ex_active)"
proof -
  have a: "polar_activate (ex_polar 200) ex_config ''KEY-1234'' ''Mac'' 0
      = (Inr \<lparr>pa_activation_id = ''a'', pa_label = ''Mac'', pa_license = ex_license\<rparr>, Suc 0)"
    using ex_activation by (simp add: prod_eq_iff ex_license_def)
  have lib: "sv_config (ex_service 200) = Some ex_config" "sv_polar (ex_service 200) = ex_polar 200"
    "sv_keyring (ex_service 200) = map_keyring" "po_ident (ex_polar 200) = ex_ident"
    "lx_net ex_fresh = 0" "lx_row ex_fresh = None" "lx_keys ex_fresh = Map.empty"
    "db_reads ex_health" "db_writes ex_health"
    by (simp_all add: ex_service_def ex_polar_def ex_fresh_def ex_health_def)
  have p: "product_for_benefit ex_ident ex_config ''b'' = Some Individual"
    by (simp add: product_for_benefit_def ex_ident_def ex_config_def)
  have st: "confirmed_state ex_license 0 = LActive" "pl_benefit_id ex_license = ''b''"
    by (simp_all add: confirmed_state_def ex_license_def)
  have "activate_device (ex_service 200) ex_health ex_config ''KEY-1234'' ''Mac''
      \<lparr>pa_activation_id = ''a'', pa_label = ''Mac'', pa_license = ex_license\<rparr> 0 ''ref''
      (ex_fresh\<lparr>lx_row := None, lx_net := Suc 0\<rparr>) = (Inr ex_dto, ex_active)"
    by (simp add: activate_device_def lib p st ex_validation persist_license_def store_put_def
        map_keyring_def envelope_new_def CURRENT_VERSION_def ex_active_def ex_fresh_def ex_dto_def Let_def)
  then show ?thesis
    using ex_masked by (simp add: activate_def activate_remote_def has_credential_def lib a Let_def)
qed

lemma ex_service_keyring [simp]: "sv_keyring (ex_service s) = map_keyring"
  by (simp add: ex_service_def)

lemma ex_service_ok:
  "chrono_faithful (cal_chrono (sv_calendar (ex_service s)))" "keyring_faithful (sv_keyring (ex_service s))"
  "sv_config (ex_service s) = Some ex_config"
  by (simp_all add: ex_service_def unary_clock_faithful map_keyring_faithful)

section \<open>Properties\<close>



text \<open>What an activated license shows over time: from the moment it was activated, whatever
  the time, the license stays entitled; it is active or, once its update deadline has passed,
  expired, until 30 days after the activation, and needs a validation exactly after that; and it
  asks for a refresh exactly from the seventh day on.\<close>

theorem activated_license_timeline:
  assumes T: "chrono_faithful (cal_chrono (sv_calendar S))" and K: "keyring_faithful (sv_keyring S)"
    and c: "sv_config S = Some c"
    and a: "activate S D key device_label t0 ref x = (Inr dto, x')" and act: "ld_state dto = LActive"
    and rd: "db_reads D'"
  shows "\<exists>dto'. get_status S D' t x' = (Inr dto', x') \<and> is_entitled (ld_state dto')
     \<and> ld_state dto' = (if t0 + 30 * day_ns < t then NeedsOnline
          else if is_some_and (\<lambda>e. e \<le> t) (parse_time (sv_calendar S) (ld_update_deadline dto)) then LExpired
          else LActive)
     \<and> license_should_refresh S D' t x' = (t0 + 7 * day_ns \<le> t)"
proof -
  let ?C = "sv_calendar S"
  have kept: "kept S ref key t0 dto (x\<lparr>lx_row := None\<rparr>) x'"
  proof (cases rule: activate_cases [OF c, of D key device_label t0 ref x])
    case 3
    with a have "activate_remote S D c key (trim device_label) t0 ref (x\<lparr>lx_row := None\<rparr>) = (Inr dto, x')"
      by simp
    from activate_remote_outcome [OF K this] act show ?thesis by (auto simp: inactive_def)
  qed (use a in simp_all)
  then obtain label product license actn where
    dto: "dto = active_dto ?C (mask_key key) label product license actn t0"
    and row: "lx_row x' = Some (into_stored ?C dto (Some ref) t0)" by (auto simp: kept_def)
  have stored: "from_stored ?C (into_stored ?C dto (Some ref) t0) = Inr dto"
    unfolding dto_stored by (simp add: dto active_dto_def)
  have times: "parse_time ?C (ld_next_refresh dto) = Some (t0 + 7 * day_ns)"
    "parse_time ?C (ld_offline_deadline dto) = Some (t0 + 30 * day_ns)"
    using parse_time_printed [OF T] by (simp_all add: dto active_dto_def REFRESH_AFTER_DAYS_def OFFLINE_GRACE_DAYS_def)
  let ?st = "if t0 + 30 * day_ns < t then NeedsOnline
     else if is_some_and (\<lambda>e. e \<le> t) (parse_time ?C (ld_update_deadline dto)) then LExpired else LActive"
  have ev: "cached_evaluation ?C dto t = \<lparr>oe_state = ?st, oe_should_refresh = (t0 + 7 * day_ns \<le> t)\<rparr>"
    using act by (auto simp: cached_evaluation_def evaluate_cached_state_def times is_previously_granted_def
        Let_def day_ns_def)
  have ref: "sl_credential_ref (into_stored ?C dto (Some ref) t0) = Some ref"
    by (simp add: into_stored_def)
  have "get_status S D' t x' = (Inr (dto\<lparr>ld_state := ?st, ld_error_code := status_code ?st (ld_error_code dto)\<rparr>), x')"
    using c rd row ref stored by (simp add: get_status_def Let_def ev)
  moreover have "license_should_refresh S D' t x' = (t0 + 7 * day_ns \<le> t)"
    using c rd row ref stored by (simp add: license_should_refresh_def ev)
  ultimately show ?thesis by (auto simp: is_entitled_def)
qed

lemma ex_dto_active: "ld_state ex_dto = LActive" "ld_update_deadline ex_dto = None"
  by (simp_all add: ex_dto_def active_dto_def expiry_text_def ex_license_def)

theorem activated_license_timeline_witness:
  "\<exists>dto'. get_status (ex_service 200) ex_health (31 * day_ns) ex_active = (Inr dto', ex_active)
     \<and> ld_state dto' = NeedsOnline \<and> is_entitled (ld_state dto')"
proof -
  have "db_reads ex_health" by (simp add: ex_health_def)
  from activated_license_timeline [OF ex_service_ok ex_activate ex_dto_active(1) this, of "31 * day_ns"]
  show ?thesis by (auto simp: day_ns_def)
qed


lemma ex_deactivate: "license_deactivate (ex_service 200) ex_health 5 (ex_active\<lparr>lx_net := 2\<rparr>)
    = (Inr unlicensed, ex_active\<lparr>lx_row := None, lx_keys := Map.empty, lx_net := 3\<rparr>)"
  by (simp add: license_deactivate_def ex_active_def into_stored_def ex_license_defs store_get_def
      map_keyring_def cut_at CURRENT_VERSION_def polar_defs forget_license_def store_delete_def fun_upd_def, rule ext, simp)



definition ex_refused :: LicenseStatusDto where
  "ex_refused = ex_dto\<lparr>ld_state := DeviceLimit, ld_error_code := Some ''device_limit''\<rparr>"

lemma ex_stored: "from_stored (sv_calendar (ex_service s)) (into_stored (sv_calendar (ex_service s')) ex_dto ref t) = Inr ex_dto"
proof -
  have "sv_calendar (ex_service s) = sv_calendar (ex_service 200)"
    "sv_calendar (ex_service s') = sv_calendar (ex_service 200)" by (simp_all add: ex_service_def)
  then show ?thesis by (simp add: dto_stored ex_dto_def active_dto_def)
qed

lemma ex_credential: "store_get map_keyring ''ref'' (lx_keys ex_active)
    = Inr \<lparr>le_version = CURRENT_VERSION, le_license_key = ''KEY-1234'', le_activation_id = Some ''a''\<rparr>"
  by (simp add: store_get_def map_keyring_def ex_active_def cut_at)

lemma ex_refusal: "fst (polar_validate (sv_polar (ex_service 403)) ex_config k act 5) = Inl DeviceLimitReached"
  by (simp add: polar_defs ex_license_defs read_error_detail_def)


text \<open>A malformed answer restores a revoked license: the comment on the offline policy says that
  an outage is never a verdict and leaves every other state untouched, but a revalidation that gets
  an oversized or malformed answer stores \<^verbatim>\<open>NeedsOnline\<close> whatever the state was, and \<^verbatim>\<open>NeedsOnline\<close> counts
  as entitled: a revoked, disabled or device-limited license is entitled again after it.\<close>

theorem malformed_answer_restores_entitlement:
  assumes "e = ResponseTooLarge \<or> e = InvalidResponse" and "db_writes D"
    and "product_from_db (sl_product snapshot) = Inr q"
  shows "\<exists>dto. persist_validation_error S D snapshot e now x = (Inr dto,
           x\<lparr>lx_row := Some (into_stored (sv_calendar S) dto (sl_credential_ref snapshot) now)\<rparr>)
     \<and> ld_state dto = NeedsOnline \<and> is_entitled (ld_state dto)"
  using assms by (auto simp: persist_validation_error_def from_stored_def state_after_error_def
      is_transient_def is_entitled_def Let_def)

theorem malformed_answer_restores_entitlement_witness:
  "\<not> is_entitled LRevoked \<and> (\<exists>dto. fst (persist_validation_error (ex_service 200) ex_health
      (into_stored (sv_calendar (ex_service 200)) (ex_dto\<lparr>ld_state := LRevoked\<rparr>) (Some ''ref'') 0)
      InvalidResponse 0 ex_active) = Inr dto \<and> is_entitled (ld_state dto))"
proof -
  let ?snap = "into_stored (sv_calendar (ex_service 200)) (ex_dto\<lparr>ld_state := LRevoked\<rparr>) (Some ''ref'') 0"
  have "product_from_db (sl_product ?snap) = Inr (ld_product ex_dto)" by (simp add: into_stored_def)
  from malformed_answer_restores_entitlement [OF disjI2 [OF refl] _ this, of ex_health "ex_service 200" 0 ex_active]
  show ?thesis by (auto simp: ex_health_def is_entitled_def)
qed

text \<open>Stored licenses are read back, and none is guessed: what was stored of a status is read
  back unchanged, the derived window answer being recomputed; the three product names of the old
  model are read as the product that replaced them; and a name of neither vocabulary is an error.\<close>

theorem stored_license_roundtrip:
  "from_stored C (into_stored C dto ref now) = Inr (set_update_deadline C (ld_update_deadline dto) dto)
   \<and> (case product_from_db v of
        Inr p \<Rightarrow> v = product_db_value p \<or> (v, p) \<in> set LEGACY_DB_VALUES
      | Inl _ \<Rightarrow> v \<notin> range product_db_value \<and> v \<notin> fst ` set LEGACY_DB_VALUES)"
proof -
  have "v \<notin> range product_db_value" if "product_from_db v = Inl e" for e
    using that product_roundtrip by fastforce
  then show ?thesis
    by (auto simp: dto_stored product_from_db_def LEGACY_DB_VALUES_def split: if_splits)
qed

end
