(* ===== verification/Rust_Text.thy ===== *)
theory Rust_Text
  imports Prelude
begin

text \<open>
  More of Rust's text functions, shared by the runner, the agents and the memory store: decimal
  numerals, splitting at a separator, and cutting a string at a character boundary, which is how
  every byte budget of the sources is kept.
\<close>

section \<open>Numerals\<close>

fun show_nat :: "nat \<Rightarrow> rstring" where
  "show_nat n = (if n < 10 then [char_of (48 + n)] else show_nat (n div 10) @ [char_of (48 + n mod 10)])"

declare show_nat.simps [simp del]

lemma length_show_nat_le: "n < 10 ^ k \<Longrightarrow> 0 < k \<Longrightarrow> length (show_nat n) \<le> k"
proof (induction k arbitrary: n)
  case (Suc k)
  show ?case
  proof (cases "n < 10")
    case True
    then show ?thesis by (simp add: show_nat.simps [of n])
  next
    case False
    with Suc.prems have "n div 10 < 10 ^ k" by (simp add: less_mult_imp_div_less mult.commute)
    moreover from this False have "0 < k" by (cases k) auto
    ultimately have "length (show_nat (n div 10)) \<le> k" by (rule Suc.IH)
    with False show ?thesis by (simp add: show_nat.simps [of n])
  qed
qed simp

section \<open>Splitting\<close>

text \<open>\<^verbatim>\<open>str::split\<close> with a predicate on scalar values.\<close>

fun split_by :: "(rstring \<Rightarrow> bool) \<Rightarrow> rstring list \<Rightarrow> rstring \<Rightarrow> rstring list" where
  "split_by p [] acc = [acc]"
| "split_by p (u # us) acc = (if p u then acc # split_by p us [] else split_by p us (acc @ u))"

lemma split_by_nonempty [simp]: "split_by p us acc \<noteq> []"
  by (induction p us acc rule: split_by.induct) auto

section \<open>Character boundaries\<close>

definition is_char_boundary :: "rstring \<Rightarrow> nat \<Rightarrow> bool" where
  "is_char_boundary s i = (i = 0 \<or> i = length s \<or> (i < length s \<and> \<not> is_cont (s ! i)))"

text \<open>\<^verbatim>\<open>while end > 0 && !s.is_char_boundary(end) { end -= 1 }\<close>\<close>

fun floor_boundary :: "rstring \<Rightarrow> nat \<Rightarrow> nat" where
  "floor_boundary s 0 = 0"
| "floor_boundary s (Suc n) = (if is_char_boundary s (Suc n) then Suc n else floor_boundary s n)"

lemma floor_boundary_le: "floor_boundary s n \<le> n"
  by (induction s n rule: floor_boundary.induct) auto

lemma floor_boundary_boundary: "is_char_boundary s (floor_boundary s n)"
  by (induction s n rule: floor_boundary.induct) (auto simp: is_char_boundary_def)

lemma floor_boundary_greatest: "is_char_boundary s k \<Longrightarrow> k \<le> n \<Longrightarrow> k \<le> floor_boundary s n"
  by (induction s n rule: floor_boundary.induct) (auto simp: le_Suc_eq)

definition utf8_prefix :: "rstring \<Rightarrow> nat \<Rightarrow> rstring" where
  "utf8_prefix s m = (if length s \<le> m then s else take (floor_boundary s m) s)"

definition utf8_tail :: "rstring \<Rightarrow> nat \<Rightarrow> rstring" where
  "utf8_tail s m = (if length s \<le> m then s else dropWhile is_cont (drop (length s - m) s))"

lemma length_utf8_prefix: "length (utf8_prefix s m) \<le> m"
  using floor_boundary_le [of s m] by (simp add: utf8_prefix_def)

lemma length_utf8_prefix_self: "length (utf8_prefix s m) \<le> length s"
  by (simp add: utf8_prefix_def)

lemma prefix_utf8_prefix: "prefix (utf8_prefix s m) s"
  by (auto simp: utf8_prefix_def take_is_prefix)

lemma length_utf8_tail: "length (utf8_tail s m) \<le> m"
proof (cases "length s \<le> m")
  case False
  then have "length (utf8_tail s m) \<le> length (drop (length s - m) s)"
    unfolding utf8_tail_def by (simp only: if_False length_dropWhile_le)
  with False show ?thesis by simp
qed (simp add: utf8_tail_def)

text \<open>A cut never splits a character: what is kept is a list of whole characters.\<close>

lemma cut_chars:
  assumes "is_char_boundary s i"
  shows "uchars s = uchars (take i s) @ uchars (drop i s)"
proof (cases "i = 0")
  case False
  with assms have "drop i s = [] \<or> \<not> is_cont (hd (drop i s))"
    by (auto simp: is_char_boundary_def hd_drop_conv_nth)
  then show ?thesis using uchars_append [of "drop i s" "take i s"] by simp
qed simp

section \<open>Paths\<close>

definition is_absolute :: "rstring \<Rightarrow> bool" where "is_absolute p = prefix ''/'' p"

definition path_join :: "rstring \<Rightarrow> rstring \<Rightarrow> rstring" where
  "path_join dir p = (if is_absolute p then p
     else if dir = [] \<or> last dir = CHR ''/'' then dir @ p else dir @ ''/'' @ p)"

section \<open>Trimming\<close>

lemma length_concat_dropWhile: "length (concat (dropWhile p us)) \<le> length (concat us)"
  by (induction us) auto

lemma length_trim_start: "length (trim_start s) \<le> length s"
  unfolding trim_start_def using length_concat_dropWhile [of is_ws "uchars s"] by simp

lemma length_concat_rev: "length (concat (rev us)) = length (concat us)"
  by (simp add: length_concat rev_map [symmetric] sum_list_rev)

lemma length_trim_end: "length (trim_end s) \<le> length s"
proof -
  have "length (concat (rev (dropWhile is_ws (rev (uchars s))))) \<le> length (concat (uchars s))"
    using length_concat_dropWhile [of is_ws "rev (uchars s)"] by (simp only: length_concat_rev)
  then show ?thesis by (simp add: trim_end_def)
qed

lemma length_trim: "length (trim s) \<le> length s"
  unfolding trim_def using length_trim_end length_trim_start le_trans by blast

end
