(* ===== verification/Agents.thy ===== *)
theory Agents
  imports Runner_Text History
begin

text \<open>
  What the runner knows of an agent (\<^verbatim>\<open>agents/mod.rs\<close>, \<^verbatim>\<open>agents/activity.rs\<close>, \<^verbatim>\<open>agents/auth.rs\<close>, the model
  resolution of \<^verbatim>\<open>agents/models.rs\<close> and the prompt composition of \<^verbatim>\<open>skills/mod.rs\<close>): the closed
  vocabularies of providers and harnesses, the normalisation of agent nodes, the validation of the
  ids that reach a provider, and the two filters everything an adapter reports goes through, the
  run metadata and the activities. What an adapter reports is untrusted, so these filters are
  where the properties are.

  Parameters: \<open>uuid\<close> (whether a text parses as a UUID), \<open>cost_ok\<close> (whether the \<^verbatim>\<open>f64\<close> a JSON number
  denotes is finite, not negative and at most one million), \<open>sha\<close> (SHA-256 as bytes), \<open>lower\<close>
  (\<^verbatim>\<open>str::to_lowercase\<close>) and the model catalogue that a provider's command line reports.
\<close>

section \<open>Harnesses and providers\<close>

datatype AgentHarness = Cli | Alfred

fun AgentHarness_as_str :: "AgentHarness \<Rightarrow> rstring" where
  "AgentHarness_as_str Cli = ''cli''"
| "AgentHarness_as_str Alfred = ''alfred''"

datatype AgentError = AgentCancelled | InvalidHarness | InvalidAccountRef | InvalidRequestMetadata
  | InvalidModel | NativeRuntimeUnavailable | AgentMessage rstring

definition INVALID_AGENT_HARNESS :: rstring where "INVALID_AGENT_HARNESS = ''invalid_agent_harness''"
definition INVALID_AGENT_ACCOUNT_REF :: rstring where
  "INVALID_AGENT_ACCOUNT_REF = ''invalid_agent_account_ref''"
definition INVALID_AGENT_MODEL :: rstring where "INVALID_AGENT_MODEL = ''invalid_agent_model''"
definition NATIVE_RUNTIME_UNAVAILABLE :: rstring where
  "NATIVE_RUNTIME_UNAVAILABLE = ''native_runtime_unavailable''"

text \<open>The text of an error (\<^verbatim>\<open>Display\<close>).\<close>

fun agent_error_text :: "AgentError \<Rightarrow> rstring" where
  "agent_error_text AgentCancelled = ''cancelled''"
| "agent_error_text InvalidHarness = INVALID_AGENT_HARNESS"
| "agent_error_text InvalidAccountRef = INVALID_AGENT_ACCOUNT_REF"
| "agent_error_text InvalidRequestMetadata = ''invalid_agent_request_metadata''"
| "agent_error_text InvalidModel = INVALID_AGENT_MODEL"
| "agent_error_text NativeRuntimeUnavailable = NATIVE_RUNTIME_UNAVAILABLE"
| "agent_error_text (AgentMessage m) = m"

text \<open>What of an error is recorded and shown: the message of an adapter is not.\<close>

fun safe_agent_error :: "AgentError \<Rightarrow> rstring" where
  "safe_agent_error (AgentMessage m) = ''agent_execution_failed''"
| "safe_agent_error e = agent_error_text e"

definition parse_persisted :: "json option \<Rightarrow> AgentError + AgentHarness" where
  "parse_persisted v =
     (if v = None \<or> v = Some (JString ''cli'') then Inr Cli
      else if v = Some (JString ''alfred'') then Inr Alfred else Inl InvalidHarness)"

datatype AgentProvider = ClaudeCode | Cursor | Codex | Opencode | GithubCopilot | Gemini | Grok | Pi | Omp

fun AgentProvider_as_str :: "AgentProvider \<Rightarrow> rstring" where
  "AgentProvider_as_str ClaudeCode = ''claude_code''"
| "AgentProvider_as_str Cursor = ''cursor''"
| "AgentProvider_as_str Codex = ''codex''"
| "AgentProvider_as_str Opencode = ''opencode''"
| "AgentProvider_as_str GithubCopilot = ''github_copilot''"
| "AgentProvider_as_str Gemini = ''gemini''"
| "AgentProvider_as_str Grok = ''grok''"
| "AgentProvider_as_str Pi = ''pi''"
| "AgentProvider_as_str Omp = ''omp''"

fun AgentProvider_label :: "AgentProvider \<Rightarrow> rstring" where
  "AgentProvider_label ClaudeCode = ''Claude Code''"
| "AgentProvider_label Cursor = ''Cursor''"
| "AgentProvider_label Codex = ''Codex''"
| "AgentProvider_label Opencode = ''OpenCode''"
| "AgentProvider_label GithubCopilot = ''GitHub Copilot''"
| "AgentProvider_label Gemini = ''Gemini''"
| "AgentProvider_label Grok = ''Grok''"
| "AgentProvider_label Pi = ''Pi''"
| "AgentProvider_label Omp = ''OMP''"

definition AgentProvider_from_str :: "rstring \<Rightarrow> AgentProvider option" where
  "AgentProvider_from_str v =
     (if v = ''claude_code'' then Some ClaudeCode else if v = ''cursor'' then Some Cursor
      else if v = ''codex'' then Some Codex else if v = ''opencode'' then Some Opencode
      else if v = ''github_copilot'' then Some GithubCopilot else if v = ''gemini'' then Some Gemini
      else if v = ''grok'' then Some Grok else if v = ''pi'' then Some Pi
      else if v = ''omp'' then Some Omp else None)"

lemma AgentProvider_from_as [simp]: "AgentProvider_from_str (AgentProvider_as_str p) = Some p"
  by (cases p) (simp_all add: AgentProvider_from_str_def)

lemma parse_persisted_as_str [simp]: "parse_persisted (Some (JString (AgentHarness_as_str h))) = Inr h"
  by (cases h) (simp_all add: parse_persisted_def)

section \<open>Agent nodes of a graph\<close>

text \<open>\<^verbatim>\<open>Map::insert\<close> on an object: the entry of the key is replaced, or a new one is added.\<close>

definition obj_insert :: "rstring \<Rightarrow> json \<Rightarrow> (rstring \<times> json) list \<Rightarrow> (rstring \<times> json) list" where
  "obj_insert k v kvs = (if k \<in> set (map fst kvs) then map (\<lambda>e. if fst e = k then (k, v) else e) kvs
     else kvs @ [(k, v)])"

definition agent_keys :: "rstring list" where
  "agent_keys = [''label'', ''provider'', ''harness'', ''accountRef'', ''model'', ''skillNames'', ''skillName'']"

definition normalize_agent_node :: "json \<Rightarrow> AgentError + json" where
  "normalize_agent_node node =
     (if get_str ''type'' node \<noteq> Some ''agent'' then Inr node
      else case (node, json_get ''data'' node) of
          (JObject flds, Some (JObject data)) \<Rightarrow>
            (case parse_persisted (map_of data ''harness'') of
               Inl e \<Rightarrow> Inl e
             | Inr h \<Rightarrow> Inr (JObject (obj_insert ''data''
                 (JObject (filter (\<lambda>kv. fst kv \<in> set agent_keys)
                    (obj_insert ''harness'' (JString (AgentHarness_as_str h)) data))) flds)))
        | _ \<Rightarrow> Inr node)"

fun normalize_nodes :: "json list \<Rightarrow> AgentError + json list" where
  "normalize_nodes [] = Inr []"
| "normalize_nodes (n # ns) = (case normalize_agent_node n of
      Inl e \<Rightarrow> Inl e
    | Inr n' \<Rightarrow> (case normalize_nodes ns of Inl e \<Rightarrow> Inl e | Inr ns' \<Rightarrow> Inr (n' # ns')))"

definition normalize_agent_nodes_in_graph :: "json \<Rightarrow> AgentError + json" where
  "normalize_agent_nodes_in_graph graph =
     (case (graph, get_array ''nodes'' graph) of
        (JObject flds, Some nodes) \<Rightarrow>
          (case normalize_nodes nodes of
             Inl e \<Rightarrow> Inl e
           | Inr nodes' \<Rightarrow> Inr (JObject (obj_insert ''nodes'' (JArray nodes') flds)))
      | _ \<Rightarrow> Inr graph)"

section \<open>Texts that may be recorded\<close>

definition MAX_ACCOUNT_REF_CHARS :: nat where "MAX_ACCOUNT_REF_CHARS = 128"
definition MAX_REQUEST_ID_CHARS :: nat where "MAX_REQUEST_ID_CHARS = 128"
definition MAX_MODEL_ID_CHARS :: nat where "MAX_MODEL_ID_CHARS = 256"
definition MAX_FILES_CHANGED :: nat where "MAX_FILES_CHANGED = 128"
definition MAX_FILE_PATH_CHARS :: nat where "MAX_FILE_PATH_CHARS = 512"

definition secret_separator :: "rstring \<Rightarrow> bool" where
  "secret_separator u = (is_ws u \<or> u \<in> {''/'', '':'', ''='', '','', '';''})"

definition looks_like_secret_value :: "rstring \<Rightarrow> bool" where
  "looks_like_secret_value value =
     (let lower = to_ascii_lowercase (trim value);
          secret_segment = list_ex (\<lambda>s. prefix ''sk-'' s \<or> prefix ''ghp_'' s \<or> prefix ''github_pat_'' s
             \<or> prefix ''xox'' s) (split_by secret_separator (uchars lower) [])
      in contains lower ''bearer '' \<or> contains lower ''basic '' \<or> secret_segment
         \<or> (prefix ''eyj'' lower \<and> count_list lower CHR ''.'' = 2))"

definition safe_bounded_text :: "rstring \<Rightarrow> nat \<Rightarrow> rstring option" where
  "safe_bounded_text value max_chars =
     (let v = trim value in
      if v \<noteq> [] \<and> char_count v \<le> max_chars \<and> \<not> list_ex is_control (uchars v)
         \<and> \<not> looks_like_secret_value v then Some v else None)"

definition safe_model_id :: "rstring \<Rightarrow> rstring option" where
  "safe_model_id value = safe_bounded_text (trim value) MAX_MODEL_ID_CHARS"

definition valid_model_id :: "rstring \<Rightarrow> bool" where
  "valid_model_id value = (safe_model_id value \<noteq> None)"

definition ascii_alphanumeric :: "char \<Rightarrow> bool" where
  "ascii_alphanumeric c = (let b = (of_char c :: nat) in
     (48 \<le> b \<and> b \<le> 57) \<or> (65 \<le> b \<and> b \<le> 90) \<or> (97 \<le> b \<and> b \<le> 122))"

definition safe_request_id :: "rstring \<Rightarrow> bool" where
  "safe_request_id value = (value \<noteq> [] \<and> char_count value \<le> MAX_REQUEST_ID_CHARS
     \<and> list_all (\<lambda>c. ascii_alphanumeric c \<or> c \<in> set ''_-.:'') value
     \<and> \<not> looks_like_secret_value value)"

record AgentRequestMetadata =
  rm_run_id :: rstring
  rm_node_id :: rstring

definition AgentRequestMetadata_new :: "rstring \<Rightarrow> rstring \<Rightarrow> AgentError + AgentRequestMetadata" where
  "AgentRequestMetadata_new rid nid =
     (if \<not> safe_request_id rid \<or> \<not> safe_request_id nid then Inl InvalidRequestMetadata
      else Inr \<lparr>rm_run_id = rid, rm_node_id = nid\<rparr>)"

definition strip_prefix :: "rstring \<Rightarrow> rstring \<Rightarrow> rstring option" where
  "strip_prefix p s = (if prefix p s then Some (drop (length p) s) else None)"

definition OpaqueAgentAccountRef_parse :: "(rstring \<Rightarrow> bool) \<Rightarrow> rstring \<Rightarrow> AgentError + rstring" where
  "OpaqueAgentAccountRef_parse uuid value =
     (let v = trim value;
          prefixed = (case List.map_filter (\<lambda>p. strip_prefix p v) [''account_'', ''acct_''] of
             [] \<Rightarrow> False | rest # _ \<Rightarrow> 4 \<le> length rest);
          valid = 8 \<le> char_count v \<and> char_count v \<le> MAX_ACCOUNT_REF_CHARS
            \<and> list_all (\<lambda>c. ascii_alphanumeric c \<or> c \<in> set ''_-.'') v
            \<and> (prefixed \<or> uuid v) \<and> \<not> looks_like_secret_value v
      in if valid then Inr v else Inl InvalidAccountRef)"

section \<open>Run metadata\<close>

datatype SafeAgentFileChangeStatus = FCreated | FModified | FDeleted | FRenamed

definition file_change_status :: "rstring \<Rightarrow> SafeAgentFileChangeStatus option" where
  "file_change_status v = (if v = ''created'' then Some FCreated else if v = ''modified'' then Some FModified
     else if v = ''deleted'' then Some FDeleted else if v = ''renamed'' then Some FRenamed else None)"

record SafeAgentRunMetadata =
  sm_provider :: AgentProvider
  sm_harness :: AgentHarness
  sm_model :: "rstring option"
  sm_duration_ms :: "nat option"
  sm_num_turns :: "nat option"
  sm_total_cost_usd :: "rstring option"
  sm_input_tokens :: "nat option"
  sm_output_tokens :: "nat option"
  sm_reasoning_tokens :: "nat option"
  sm_cache_read_tokens :: "nat option"
  sm_cache_creation_tokens :: "nat option"
  sm_files_changed :: "(rstring \<times> SafeAgentFileChangeStatus) list"

definition metadata_identity :: "AgentProvider \<Rightarrow> AgentHarness \<Rightarrow> rstring option \<Rightarrow> SafeAgentRunMetadata" where
  "metadata_identity provider harness model = \<lparr>sm_provider = provider, sm_harness = harness,
     sm_model = Option.bind model safe_model_id, sm_duration_ms = None, sm_num_turns = None,
     sm_total_cost_usd = None, sm_input_tokens = None, sm_output_tokens = None,
     sm_reasoning_tokens = None, sm_cache_read_tokens = None, sm_cache_creation_tokens = None,
     sm_files_changed = []\<rparr>"

text \<open>A number literal as \<^verbatim>\<open>Value::as_u64\<close>: only an unsigned integer literal below \<open>2 ^ 64\<close> is one.\<close>

definition decimal :: "rstring \<Rightarrow> nat" where
  "decimal s = foldl (\<lambda>n c. 10 * n + (of_char c - 48)) 0 s"

fun as_u64 :: "json \<Rightarrow> nat option" where
  "as_u64 (JNumber s) = (if s \<noteq> [] \<and> list_all (\<lambda>c. (48::nat) \<le> of_char c \<and> (of_char c :: nat) \<le> 57) s
     \<and> decimal s < 2 ^ 64 then Some (decimal s) else None)"
| "as_u64 _ = None"

fun as_number :: "json \<Rightarrow> rstring option" where
  "as_number (JNumber s) = Some s"
| "as_number _ = None"

definition metadata_objects :: "json \<Rightarrow> json list" where
  "metadata_objects v = filter is_object (v # List.map_filter (\<lambda>k. json_get k v) [''usage'', ''stats''])"

fun find_map :: "('a \<Rightarrow> 'b option) \<Rightarrow> 'a list \<Rightarrow> 'b option" where
  "find_map f [] = None"
| "find_map f (x # xs) = (case f x of Some y \<Rightarrow> Some y | None \<Rightarrow> find_map f xs)"

definition filter_opt :: "('a \<Rightarrow> bool) \<Rightarrow> 'a option \<Rightarrow> 'a option" where
  "filter_opt p x = (case x of Some y \<Rightarrow> if p y then Some y else None | None \<Rightarrow> None)"

definition safe_u64 :: "json \<Rightarrow> rstring list \<Rightarrow> nat \<Rightarrow> nat option" where
  "safe_u64 value keys mx = find_map (\<lambda>obj. filter_opt (\<lambda>n. n \<le> mx)
     (find_map (\<lambda>k. Option.bind (json_get k obj) as_u64) keys)) (metadata_objects value)"

definition safe_f64 :: "(rstring \<Rightarrow> bool) \<Rightarrow> json \<Rightarrow> rstring list \<Rightarrow> rstring option" where
  "safe_f64 cost_ok value keys = find_map (\<lambda>obj. filter_opt cost_ok
     (find_map (\<lambda>k. Option.bind (json_get k obj) as_number) keys)) (metadata_objects value)"

definition from_untrusted ::
  "(rstring \<Rightarrow> bool) \<Rightarrow> AgentProvider \<Rightarrow> AgentHarness \<Rightarrow> rstring option \<Rightarrow> json \<Rightarrow> SafeAgentRunMetadata" where
  "from_untrusted cost_ok provider harness model value = (metadata_identity provider harness model)\<lparr>
     sm_duration_ms := safe_u64 value [''durationMs'', ''duration_ms''] 86400000,
     sm_num_turns := safe_u64 value [''numTurns'', ''num_turns''] 1000000,
     sm_total_cost_usd := safe_f64 cost_ok value [''totalCostUsd'', ''total_cost_usd''],
     sm_input_tokens := safe_u64 value [''inputTokens'', ''input_tokens'', ''input''] 1000000000000,
     sm_output_tokens := safe_u64 value [''outputTokens'', ''output_tokens'', ''output''] 1000000000000,
     sm_reasoning_tokens := safe_u64 value [''reasoningTokens'', ''reasoning_tokens'', ''reasoning''] 1000000000000,
     sm_cache_read_tokens := safe_u64 value [''cacheReadTokens'', ''cache_read_tokens'', ''read''] 1000000000000,
     sm_cache_creation_tokens := safe_u64 value [''cacheCreationTokens'', ''cache_creation_tokens'', ''write''] 1000000000000\<rparr>"

definition add_file_changed :: "rstring \<Rightarrow> rstring \<Rightarrow> SafeAgentRunMetadata \<Rightarrow> SafeAgentRunMetadata" where
  "add_file_changed path status m =
     (if MAX_FILES_CHANGED \<le> length (sm_files_changed m) then m
      else case safe_bounded_text path MAX_FILE_PATH_CHARS of
          None \<Rightarrow> m
        | Some p \<Rightarrow> (case file_change_status status of
            None \<Rightarrow> m
          | Some st \<Rightarrow> m\<lparr>sm_files_changed := sm_files_changed m @ [(p, st)]\<rparr>))"

section \<open>Activities\<close>

datatype AgentActivityKind = KStatus | KAssistant | KTool | KCommand | KFile | KError

datatype AgentActivityState = SStarted | SCompleted

record AgentActivity =
  aa_id :: rstring
  aa_kind :: AgentActivityKind
  aa_state :: AgentActivityState
  aa_label :: rstring
  aa_detail :: "rstring option"

definition MAX_LABEL_CHARS :: nat where "MAX_LABEL_CHARS = 96"
definition ACTIVITY_ID_DIGEST_BYTES :: nat where "ACTIVITY_ID_DIGEST_BYTES = 12"

definition hex_digit :: "char \<Rightarrow> bool" where
  "hex_digit c = (let b = (of_char c :: nat) in
     (48 \<le> b \<and> b \<le> 57) \<or> (65 \<le> b \<and> b \<le> 70) \<or> (97 \<le> b \<and> b \<le> 102))"

definition hex_byte :: "char \<Rightarrow> rstring" where
  "hex_byte c = (let d = (\<lambda>n. ''0123456789abcdef'' ! n); b = (of_char c :: nat) in [d (b div 16), d (b mod 16)])"

definition is_opaque_activity_id :: "rstring \<Rightarrow> bool" where
  "is_opaque_activity_id value = (case strip_prefix ''agent_activity_'' value of
      None \<Rightarrow> False
    | Some rest \<Rightarrow> length rest = ACTIVITY_ID_DIGEST_BYTES * 2 \<and> list_all hex_digit rest)"

definition opaque_activity_id :: "(rstring \<Rightarrow> rstring) \<Rightarrow> rstring \<Rightarrow> rstring" where
  "opaque_activity_id sha value = (if is_opaque_activity_id value then value
     else ''agent_activity_'' @ concat (map hex_byte (take ACTIVITY_ID_DIGEST_BYTES (sha value))))"

definition bound_label :: "rstring \<Rightarrow> rstring" where
  "bound_label value = take_chars MAX_LABEL_CHARS value"

definition kept_labels :: "AgentActivityKind \<Rightarrow> AgentActivityState \<Rightarrow> rstring list" where
  "kept_labels kind state = (case (kind, state) of
      (KStatus, SStarted) \<Rightarrow> [''Thinking'', ''Working'']
    | (KStatus, SCompleted) \<Rightarrow> [''Work completed'', ''Codex session started'', ''Gemini session started'',
         ''Claude Code session started'', ''Cursor session started'', ''OpenCode session started'']
    | (KTool, SStarted) \<Rightarrow> [''Web search'']
    | _ \<Rightarrow> [])"

definition other_label :: "AgentActivityKind \<Rightarrow> AgentActivityState \<Rightarrow> rstring" where
  "other_label kind state = (case (kind, state) of
      (KStatus, SStarted) \<Rightarrow> ''Working'' | (KStatus, SCompleted) \<Rightarrow> ''Status updated''
    | (KAssistant, _) \<Rightarrow> ''Agent response''
    | (KTool, SStarted) \<Rightarrow> ''Using tool'' | (KTool, SCompleted) \<Rightarrow> ''Tool completed''
    | (KCommand, SStarted) \<Rightarrow> ''Running command'' | (KCommand, SCompleted) \<Rightarrow> ''Command completed''
    | (KFile, SStarted) \<Rightarrow> ''Changing file'' | (KFile, SCompleted) \<Rightarrow> ''File changed''
    | (KError, _) \<Rightarrow> ''Agent error'')"

definition safe_label :: "AgentActivityKind \<Rightarrow> AgentActivityState \<Rightarrow> rstring \<Rightarrow> rstring" where
  "safe_label kind state candidate = bound_label
     (if candidate \<in> set (kept_labels kind state) then candidate else other_label kind state)"

definition AgentActivity_new ::
  "(rstring \<Rightarrow> rstring) \<Rightarrow> rstring \<Rightarrow> AgentActivityKind \<Rightarrow> AgentActivityState \<Rightarrow> rstring \<Rightarrow> rstring option
    \<Rightarrow> AgentActivity" where
  "AgentActivity_new sha i kind state label detail = \<lparr>aa_id = opaque_activity_id sha i, aa_kind = kind,
     aa_state = state, aa_label = safe_label kind state label, aa_detail = None\<rparr>"

definition safe_source_suffix :: "rstring \<Rightarrow> rstring option" where
  "safe_source_suffix v = (if v = ''CLI'' then Some ''CLI'' else if v = ''Alfred'' then Some ''Alfred'' else None)"

definition safe_for_emission :: "(rstring \<Rightarrow> rstring) \<Rightarrow> AgentActivity \<Rightarrow> rstring \<Rightarrow> AgentActivity" where
  "safe_for_emission sha a label_suffix =
     (let label = safe_label (aa_kind a) (aa_state a) (aa_label a);
          label' = (case safe_source_suffix label_suffix of
             Some rest \<Rightarrow> label @ '' '' @ middot @ '' '' @ rest | None \<Rightarrow> label)
      in \<lparr>aa_id = opaque_activity_id sha (aa_id a), aa_kind = aa_kind a, aa_state = aa_state a,
          aa_label = bound_label label', aa_detail = None\<rparr>)"

definition harness_label :: "AgentHarness \<Rightarrow> rstring" where
  "harness_label h = (case h of Cli \<Rightarrow> ''CLI'' | Alfred \<Rightarrow> ''Alfred'')"

definition safe_activity_for_run_event ::
  "(rstring \<Rightarrow> rstring) \<Rightarrow> AgentActivity \<Rightarrow> AgentHarness \<Rightarrow> AgentActivity" where
  "safe_activity_for_run_event sha a harness = safe_for_emission sha a (harness_label harness)"

section \<open>Models, skills and login hints\<close>

record catalog =
  cat_models :: "(rstring \<times> rstring option \<times> rstring option) list"
  cat_allow_custom :: bool

definition validate_model_in_catalog :: "catalog \<Rightarrow> rstring \<Rightarrow> AgentError option" where
  "validate_model_in_catalog c model =
     (if list_ex (\<lambda>(i, base, fast). i = model \<or> base = Some model \<or> fast = Some model) (cat_models c)
         \<or> cat_allow_custom c then None else Some InvalidModel)"

fun default_model :: "AgentProvider \<Rightarrow> rstring" where
  "default_model ClaudeCode = ''sonnet''"
| "default_model Cursor = ''grok-4.5''"
| "default_model Codex = ''gpt-5.6-luna''"
| "default_model Opencode = ''opencode/big-pickle''"
| "default_model GithubCopilot = ''claude-sonnet-4.5''"
| "default_model Gemini = ''auto''"
| "default_model Grok = ''grok-build''"
| "default_model Pi = ''default''"
| "default_model Omp = ''default''"

definition native_unavailable_model :: catalog where
  "native_unavailable_model = \<lparr>cat_models = [], cat_allow_custom = False\<rparr>"

definition resolve_model_for_execution ::
  "(AgentProvider \<Rightarrow> catalog) \<Rightarrow> AgentProvider \<Rightarrow> AgentHarness \<Rightarrow> rstring option \<Rightarrow> AgentError + rstring option" where
  "resolve_model_for_execution discover_for provider harness requested =
     (let check = (\<lambda>candidate. if \<not> valid_model_id candidate then Inl InvalidModel
          else case validate_model_in_catalog
              (case harness of Cli \<Rightarrow> discover_for provider | Alfred \<Rightarrow> native_unavailable_model) candidate of
            Some e \<Rightarrow> Inl e | None \<Rightarrow> Inr (Some candidate))
      in case (harness, nonempty_trim requested) of
          (_, Some model) \<Rightarrow> check model
        | (Cli, None) \<Rightarrow> check (default_model provider)
        | (Alfred, None) \<Rightarrow> Inr None)"

definition compose_prompt_with_skills :: "rstring list \<Rightarrow> rstring \<Rightarrow> rstring" where
  "compose_prompt_with_skills names prompt =
     (let skills = rev (remdups (rev (filter (\<lambda>s. s \<noteq> []) (map (\<lambda>s. trim_start_matches CHR ''/'' (trim s)) names))));
          p = trim prompt; pre = join '' '' (map (\<lambda>s. ''/'' @ s) skills)
      in if skills = [] then p else if p = [] then pre
         else if prefix ''/'' p then p else pre @ '' '' @ p)"

record AgentRequest =
  rq_prompt :: rstring
  rq_model :: "rstring option"
  rq_skill :: "rstring option"
  rq_skill_name :: "rstring option"
  rq_skill_names :: "rstring list"
  rq_working_directory :: "rstring option"

definition resolved_skill_names :: "AgentRequest \<Rightarrow> rstring list" where
  "resolved_skill_names r =
     (let one = (\<lambda>x. case x of Some n \<Rightarrow> if trim n = [] then [] else [n] | None \<Rightarrow> []);
          names = filter (\<lambda>s. trim s \<noteq> []) (rq_skill_names r);
          names' = (if names = [] then one (rq_skill r) else names)
      in if names' = [] then one (rq_skill_name r) else names')"

definition effective_prompt :: "AgentRequest \<Rightarrow> rstring" where
  "effective_prompt r = (let names = resolved_skill_names r in
     if names = [] then rq_prompt r else compose_prompt_with_skills names (rq_prompt r))"

definition effective_model :: "AgentRequest \<Rightarrow> AgentProvider \<Rightarrow> rstring" where
  "effective_model r provider = unwrap_or (default_model provider) (nonempty_trim (rq_model r))"

record AgentAuthRequired =
  au_provider :: AgentProvider
  au_label :: rstring
  au_login_command :: rstring

definition login_command :: "bool \<Rightarrow> AgentProvider \<Rightarrow> rstring" where
  "login_command cursor_agent_installed p = (case p of
      ClaudeCode \<Rightarrow> ''claude auth login''
    | Cursor \<Rightarrow> (if cursor_agent_installed then ''cursor-agent login'' else ''agent login'')
    | Codex \<Rightarrow> ''codex login'' | Opencode \<Rightarrow> ''opencode auth login'' | GithubCopilot \<Rightarrow> ''copilot''
    | Gemini \<Rightarrow> ''gemini'' | Grok \<Rightarrow> ''grok login'' | Pi \<Rightarrow> ''pi'' | Omp \<Rightarrow> ''omp'')"

definition hint_for_provider :: "bool \<Rightarrow> AgentProvider \<Rightarrow> AgentAuthRequired" where
  "hint_for_provider cursor_agent_installed p = \<lparr>au_provider = p, au_label = AgentProvider_label p,
     au_login_command = login_command cursor_agent_installed p\<rparr>"

text \<open>\<^verbatim>\<open>split_whitespace\<close> and \<^verbatim>\<open>join(" ")\<close>.\<close>

definition single_spaced :: "rstring \<Rightarrow> rstring" where
  "single_spaced s = join '' '' (filter (\<lambda>w. w \<noteq> []) (split_by is_ws (uchars s) []))"

definition auth_recognized :: "AgentProvider \<Rightarrow> rstring \<Rightarrow> bool" where
  "auth_recognized p m = (case p of
      ClaudeCode \<Rightarrow> contains m ''failed to authenticate'' \<or> contains m ''oauth session expired''
        \<or> (contains m ''oauth'' \<and> contains m ''could not be refreshed'')
        \<or> (contains m ''oauth'' \<and> contains m ''refresh token''
           \<and> (contains m ''expired'' \<or> contains m ''invalid''))
    | Cursor \<Rightarrow> contains m ''press any key to sign in'' \<or> contains m ''not authenticated''
        \<or> contains m ''not logged in'' \<or> contains m ''authentication required''
    | _ \<Rightarrow> contains m ''not logged in'' \<or> contains m ''no api key found'' \<or> contains m ''login required''
        \<or> contains m ''authentication required'' \<or> (contains m ''401'' \<and> contains m ''unauthorized'')
        \<or> (contains m ''api key'' \<and> (contains m ''missing'' \<or> contains m ''invalid'' \<or> contains m ''required'')))"

definition auth_required ::
  "(rstring \<Rightarrow> rstring) \<Rightarrow> bool \<Rightarrow> AgentProvider \<Rightarrow> rstring \<Rightarrow> AgentAuthRequired option" where
  "auth_required lower cursor_agent_installed p message =
     (if auth_recognized p (lower (single_spaced message))
      then Some (hint_for_provider cursor_agent_installed p) else None)"

section \<open>Normalising is final\<close>

lemma map_of_replace:
  "map_of (map (\<lambda>e. if fst e = k then (k, v) else e) kvs) j
   = (if j = k \<and> map_of kvs k \<noteq> None then Some v else map_of kvs j)"
  by (induction kvs) auto

lemma map_of_obj_insert: "map_of (obj_insert k v kvs) j = (if j = k then Some v else map_of kvs j)"
proof -
  have "k \<in> set (map fst kvs) \<longleftrightarrow> map_of kvs k \<noteq> None" by (simp add: map_of_eq_None_iff)
  then show ?thesis
    unfolding obj_insert_def by (cases "map_of kvs k") (auto simp: map_of_replace map_add_def split: option.split)
qed

definition holds_only :: "rstring \<Rightarrow> json \<Rightarrow> (rstring \<times> json) list \<Rightarrow> bool" where
  "holds_only k v kvs = ((\<exists>e \<in> set kvs. fst e = k) \<and> (\<forall>e \<in> set kvs. fst e = k \<longrightarrow> e = (k, v)))"

lemma holds_only_insert: "holds_only k v (obj_insert k v kvs)"
  by (auto simp: holds_only_def obj_insert_def image_iff intro: rev_bexI)

lemma holds_only_filter: "holds_only k v kvs \<Longrightarrow> P (k, v) \<Longrightarrow> holds_only k v (filter P kvs)"
  by (auto simp: holds_only_def)

lemma obj_insert_same: "holds_only k v kvs \<Longrightarrow> obj_insert k v kvs = kvs"
proof -
  assume h: "holds_only k v kvs"
  then have "k \<in> set (map fst kvs)" by (auto simp: holds_only_def)
  moreover have "map (\<lambda>e. if fst e = k then (k, v) else e) kvs = kvs"
    using h by (intro map_idI) (simp add: holds_only_def)
  ultimately show ?thesis by (simp add: obj_insert_def)
qed

lemma holds_only_get: "holds_only k v kvs \<Longrightarrow> map_of kvs k = Some v"
  using map_of_obj_insert [of k v kvs k] by (simp add: obj_insert_same)

text \<open>What a normalised agent node looks like: its data has a known harness and no foreign key.\<close>

definition agent_node_ok :: "json \<Rightarrow> bool" where
  "agent_node_ok node = (case json_get ''data'' node of
      Some (JObject data) \<Rightarrow> list_all (\<lambda>kv. fst kv \<in> set agent_keys) data
        \<and> (\<exists>h. map_of data ''harness'' = Some (JString (AgentHarness_as_str h)))
    | _ \<Rightarrow> True)"

lemma normalize_agent_node_cases:
  assumes "normalize_agent_node n = Inr n'"
  obtains "n' = n" "get_str ''type'' n = Some ''agent'' \<Longrightarrow> agent_node_ok n \<and> normalize_agent_node n = Inr n"
    "get_str ''type'' n \<noteq> Some ''agent'' \<or> (\<forall>data. json_get ''data'' n \<noteq> Some (JObject data))"
  | flds data h data' where "n = JObject flds" "get_str ''type'' n = Some ''agent''"
      "map_of flds ''data'' = Some (JObject data)"
      "data' = filter (\<lambda>kv. fst kv \<in> set agent_keys)
         (obj_insert ''harness'' (JString (AgentHarness_as_str h)) data)"
      "n' = JObject (obj_insert ''data'' (JObject data') flds)"
proof (cases "get_str ''type'' n = Some ''agent'' \<and> (\<exists>data. json_get ''data'' n = Some (JObject data))")
  case True
  then obtain data where d: "json_get ''data'' n = Some (JObject data)" by blast
  then obtain flds where n: "n = JObject flds" by (cases n) auto
  from assms True d n obtain h where "parse_persisted (map_of data ''harness'') = Inr h"
    "n' = JObject (obj_insert ''data'' (JObject (filter (\<lambda>kv. fst kv \<in> set agent_keys)
         (obj_insert ''harness'' (JString (AgentHarness_as_str h)) data))) flds)"
    by (auto simp: normalize_agent_node_def split: sum.splits)
  then show ?thesis using that(2) [OF n] True d n by simp
next
  case False
  have "normalize_agent_node n = Inr n"
    using False by (auto simp: normalize_agent_node_def split: json.splits option.splits)
  moreover have "agent_node_ok n" if "get_str ''type'' n = Some ''agent''"
    using False that by (auto simp: agent_node_ok_def split: json.splits option.splits)
  ultimately show ?thesis using that(1) assms False by auto
qed

lemma normalize_agent_node_final:
  assumes "normalize_agent_node n = Inr n'"
  shows "normalize_agent_node n' = Inr n'" and "get_str ''type'' n' = get_str ''type'' n"
    and "get_str ''type'' n' = Some ''agent'' \<Longrightarrow> agent_node_ok n'"
    and "get_str ''type'' n \<noteq> Some ''agent'' \<Longrightarrow> n' = n"
proof -
  have "normalize_agent_node n' = Inr n' \<and> get_str ''type'' n' = get_str ''type'' n
    \<and> (get_str ''type'' n' = Some ''agent'' \<longrightarrow> agent_node_ok n')
    \<and> (get_str ''type'' n \<noteq> Some ''agent'' \<longrightarrow> n' = n)"
  proof (rule normalize_agent_node_cases [OF assms])
    assume "n' = n" "get_str ''type'' n = Some ''agent'' \<Longrightarrow> agent_node_ok n \<and> normalize_agent_node n = Inr n"
    then show ?thesis by (auto simp: normalize_agent_node_def)
  next
    fix flds data h data'
    let ?v = "JString (AgentHarness_as_str h)"
    assume n: "n = JObject flds" and ty: "get_str ''type'' n = Some ''agent''"
      and data': "data' = filter (\<lambda>kv. fst kv \<in> set agent_keys) (obj_insert ''harness'' ?v data)"
      and n': "n' = JObject (obj_insert ''data'' (JObject data') flds)"
    have h: "holds_only ''harness'' ?v data'"
      unfolding data' by (intro holds_only_filter holds_only_insert) (simp add: agent_keys_def)
    have "obj_insert ''harness'' ?v data' = data'" by (rule obj_insert_same [OF h])
    moreover have "filter (\<lambda>kv. fst kv \<in> set agent_keys) data' = data'" by (simp add: data')
    moreover have "obj_insert ''data'' (JObject data') (obj_insert ''data'' (JObject data') flds)
        = obj_insert ''data'' (JObject data') flds"
      by (rule obj_insert_same [OF holds_only_insert])
    moreover have "get_str ''type'' n' = get_str ''type'' n" by (simp add: n n' get_str_def map_of_obj_insert)
    ultimately show ?thesis using ty
      by (auto simp: normalize_agent_node_def n' map_of_obj_insert holds_only_get [OF h] agent_node_ok_def)
         (simp_all add: data' list_all_iff)
  qed
  then show "normalize_agent_node n' = Inr n'" "get_str ''type'' n' = get_str ''type'' n"
    "get_str ''type'' n' = Some ''agent'' \<Longrightarrow> agent_node_ok n'"
    "get_str ''type'' n \<noteq> Some ''agent'' \<Longrightarrow> n' = n" by auto
qed

lemma normalize_nodes_final:
  assumes "normalize_nodes ns = Inr ns'"
  shows "normalize_nodes ns' = Inr ns'"
    and "list_all (\<lambda>n. get_str ''type'' n = Some ''agent'' \<longrightarrow> agent_node_ok n) ns'"
    and "list_all2 (\<lambda>n n'. get_str ''type'' n' = get_str ''type'' n
          \<and> (get_str ''type'' n \<noteq> Some ''agent'' \<longrightarrow> n' = n)) ns ns'"
  using assms
proof (induction ns arbitrary: ns')
  case (Cons n ns)
  { case 1 with Cons show ?case by (auto simp: normalize_agent_node_final split: sum.splits) }
  { case 2 with Cons show ?case by (auto simp: normalize_agent_node_final split: sum.splits) }
  { case 3 with Cons show ?case by (auto simp: normalize_agent_node_final split: sum.splits) }
qed simp_all

text \<open>Property C33 (agent nodes are closed): when a graph is accepted at the workflow boundary, the data of
  each of its agent nodes names a known harness and has no key outside the allowlist, the number,
  order and types of the nodes and all nodes that are not agents are as they were, and normalising
  the stored graph again changes nothing.\<close>

theorem normalized_graph_is_closed:
  assumes "normalize_agent_nodes_in_graph g = Inr g'"
  shows "normalize_agent_nodes_in_graph g' = Inr g'
    \<and> (\<forall>ns. get_array ''nodes'' g = Some ns \<longrightarrow> (\<exists>ns'. get_array ''nodes'' g' = Some ns'
         \<and> (\<forall>n \<in> set ns'. get_str ''type'' n = Some ''agent'' \<longrightarrow> agent_node_ok n)
         \<and> list_all2 (\<lambda>n n'. get_str ''type'' n' = get_str ''type'' n
              \<and> (get_str ''type'' n \<noteq> Some ''agent'' \<longrightarrow> n' = n)) ns ns'))"
proof (cases "get_array ''nodes'' g")
  case None
  then show ?thesis using assms
    by (cases g) (auto simp: normalize_agent_nodes_in_graph_def get_array_def split: option.splits)
next
  case (Some ns)
  then obtain flds where g: "g = JObject flds" by (cases g) (auto simp: get_array_def)
  from assms Some g obtain ns' where ns': "normalize_nodes ns = Inr ns'"
    and g': "g' = JObject (obj_insert ''nodes'' (JArray ns') flds)"
    by (auto simp: normalize_agent_nodes_in_graph_def split: sum.splits)
  have nodes: "get_array ''nodes'' g' = Some ns'" by (simp add: g' get_array_def map_of_obj_insert)
  moreover have "normalize_agent_nodes_in_graph g' = Inr g'"
    using nodes by (simp add: normalize_agent_nodes_in_graph_def g' normalize_nodes_final [OF ns']
        obj_insert_same holds_only_insert)
  ultimately show ?thesis using Some normalize_nodes_final (2,3) [OF ns'] by (simp add: list_all_iff)
qed

definition ex_graph :: json where
  "ex_graph = JObject [(''nodes'', JArray [JObject [(''id'', JString ''a''), (''type'', JString ''agent''),
     (''data'', JObject [(''model'', JString ''gpt''), (''accessToken'', JString ''secret'')])]])]"

definition ex_graph_closed :: json where
  "ex_graph_closed = JObject [(''nodes'', JArray [JObject [(''id'', JString ''a''), (''type'', JString ''agent''),
     (''data'', JObject [(''model'', JString ''gpt''), (''harness'', JString ''cli'')])]])]"

theorem normalized_graph_is_closed_witness:
  "normalize_agent_nodes_in_graph ex_graph = Inr ex_graph_closed
   \<and> normalize_agent_nodes_in_graph ex_graph_closed = Inr ex_graph_closed"
proof -
  have "normalize_agent_nodes_in_graph ex_graph = Inr ex_graph_closed" by code_simp
  with normalized_graph_is_closed [OF this] show ?thesis by blast
qed

section \<open>What is recorded of a run\<close>

definition recordable :: "nat \<Rightarrow> rstring \<Rightarrow> bool" where
  "recordable n t = (t \<noteq> [] \<and> char_count t \<le> n \<and> \<not> list_ex is_control (uchars t)
     \<and> \<not> looks_like_secret_value t)"

lemma safe_bounded_text_recordable: "safe_bounded_text v n = Some t \<Longrightarrow> recordable n t \<and> t = trim v"
  by (auto simp: safe_bounded_text_def recordable_def Let_def split: if_splits)

definition metadata_ok :: "SafeAgentRunMetadata \<Rightarrow> bool" where
  "metadata_ok m = (pred_option (recordable MAX_MODEL_ID_CHARS) (sm_model m)
     \<and> length (sm_files_changed m) \<le> MAX_FILES_CHANGED
     \<and> list_all (\<lambda>f. recordable MAX_FILE_PATH_CHARS (fst f)) (sm_files_changed m)
     \<and> pred_option (\<lambda>n. n \<le> 86400000) (sm_duration_ms m)
     \<and> pred_option (\<lambda>n. n \<le> 1000000) (sm_num_turns m)
     \<and> list_all (pred_option (\<lambda>n. n \<le> 1000000000000)) [sm_input_tokens m, sm_output_tokens m,
          sm_reasoning_tokens m, sm_cache_read_tokens m, sm_cache_creation_tokens m])"

lemma find_map_Some: "find_map f xs = Some y \<Longrightarrow> \<exists>x \<in> set xs. f x = Some y"
  by (induction xs) (auto split: option.splits)

lemma find_map_pred: "(\<And>x. pred_option p (f x)) \<Longrightarrow> pred_option p (find_map f xs)"
  by (induction xs) (auto split: option.splits, metis option.pred_inject(2))

lemma filter_opt_pred: "pred_option p (filter_opt p x)"
  by (auto simp: filter_opt_def split: option.splits)

lemma safe_u64_pred [simp]: "pred_option (\<lambda>n. n \<le> mx) (safe_u64 v ks mx)"
  unfolding safe_u64_def by (intro find_map_pred filter_opt_pred)

lemma safe_f64_pred [simp]: "pred_option ok (safe_f64 ok v ks)"
  unfolding safe_f64_def by (intro find_map_pred filter_opt_pred)

lemma safe_model_id_pred [simp]: "pred_option (recordable MAX_MODEL_ID_CHARS) (Option.bind m safe_model_id)"
  by (cases m; cases "safe_model_id (the m)")
     (auto simp: safe_model_id_def dest: safe_bounded_text_recordable)

lemma metadata_ok_add: "metadata_ok m \<Longrightarrow> metadata_ok (add_file_changed p s m)"
  by (auto simp: add_file_changed_def metadata_ok_def dest: safe_bounded_text_recordable
      split: option.splits)

lemma metadata_ok_from_untrusted: "metadata_ok (from_untrusted ok p h m v)"
  by (simp add: metadata_ok_def from_untrusted_def metadata_identity_def)

lemma add_file_changed_frame:
  "sm_model (add_file_changed p s m) = sm_model m"
  "sm_total_cost_usd (add_file_changed p s m) = sm_total_cost_usd m"
  by (auto simp: add_file_changed_def split: option.splits)

definition recorded_metadata ::
  "(rstring \<Rightarrow> bool) \<Rightarrow> AgentProvider \<Rightarrow> AgentHarness \<Rightarrow> rstring option \<Rightarrow> json \<Rightarrow> (rstring \<times> rstring) list
    \<Rightarrow> SafeAgentRunMetadata" where
  "recorded_metadata ok p h m v files =
     fold (\<lambda>f. add_file_changed (fst f) (snd f)) files (from_untrusted ok p h m v)"


section \<open>What is shown of an activity\<close>

definition activity_labels :: "rstring list" where
  "activity_labels = concat (map (\<lambda>k. concat (map (\<lambda>st. other_label k st # kept_labels k st)
     [SStarted, SCompleted])) [KStatus, KAssistant, KTool, KCommand, KFile, KError])"

lemma activity_labels_fit:
  "list_all (\<lambda>l. bound_label l = l \<and> list_all (\<lambda>h. bound_label (l @ '' '' @ middot @ '' '' @ harness_label h)
      = l @ '' '' @ middot @ '' '' @ harness_label h) [Cli, Alfred]) activity_labels"
  by code_simp

lemma safe_label_choice:
  "safe_label k st c = (if c \<in> set (kept_labels k st) then c else other_label k st)"
  "(if c \<in> set (kept_labels k st) then c else other_label k st) \<in> set activity_labels"
proof -
  show "(if c \<in> set (kept_labels k st) then c else other_label k st) \<in> set activity_labels"
    by (cases k; cases st) (auto simp: activity_labels_def)
  then show "safe_label k st c = (if c \<in> set (kept_labels k st) then c else other_label k st)"
    using activity_labels_fit by (simp add: safe_label_def list_all_iff)
qed

lemma safe_label_closed: "safe_label k st c \<in> set activity_labels"
  by (simp only: safe_label_choice)

lemma safe_label_fixed: "safe_label k st (safe_label k st c) = safe_label k st c"
  by (simp add: safe_label_choice(1))

lemma hex_byte_digits: "list_all hex_digit (hex_byte c) \<and> length (hex_byte c) = 2"
proof -
  have "list_all (\<lambda>n. hex_digit (''0123456789abcdef'' ! n)) [0..<16]" by code_simp
  moreover have "(of_char c :: nat) div 16 < 16" "(of_char c :: nat) mod 16 < 16"
    using nat_of_char_less_256 [of c] by (simp_all add: div_less_iff_less_mult)
  ultimately show ?thesis by (simp add: hex_byte_def Let_def list_all_iff)
qed

lemma hex_bytes_digits:
  "list_all hex_digit (concat (map hex_byte bs)) \<and> length (concat (map hex_byte bs)) = 2 * length bs"
  by (induction bs) (use hex_byte_digits in auto)

lemma opaque_activity_id_opaque:
  assumes "12 \<le> length (sha i)"
  shows "is_opaque_activity_id (opaque_activity_id sha i)"
proof (cases "is_opaque_activity_id i")
  case False
  let ?hex = "concat (map hex_byte (take ACTIVITY_ID_DIGEST_BYTES (sha i)))"
  have hex: "list_all hex_digit ?hex" "length ?hex = 24"
    using hex_bytes_digits [of "take ACTIVITY_ID_DIGEST_BYTES (sha i)"] assms
    by (simp_all add: ACTIVITY_ID_DIGEST_BYTES_def)
  have "strip_prefix ''agent_activity_'' (''agent_activity_'' @ r) = Some r" for r
    by (simp add: strip_prefix_def)
  with hex have "is_opaque_activity_id (''agent_activity_'' @ ?hex)"
    unfolding is_opaque_activity_id_def by (simp only: option.case ACTIVITY_ID_DIGEST_BYTES_def) simp
  with False show ?thesis by (simp only: opaque_activity_id_def if_False)
qed (simp add: opaque_activity_id_def)

text \<open>An emitted activity carries no adapter text: whatever activity an adapter reports,
  what reaches the run events has one of the fixed labels followed by the harness, an id of the
  opaque form and no detail; kind and state are kept. Reporting the same activity through the
  constructor first changes neither label nor id.\<close>

theorem emitted_activity_is_closed:
  assumes "\<forall>s. length (sha s) = 32"
  shows "(let e = safe_activity_for_run_event sha a h in
      (\<exists>l \<in> set activity_labels. aa_label e = l @ '' '' @ middot @ '' '' @ harness_label h)
      \<and> is_opaque_activity_id (aa_id e) \<and> aa_detail e = None
      \<and> aa_kind e = aa_kind a \<and> aa_state e = aa_state a
      \<and> safe_activity_for_run_event sha (AgentActivity_new sha (aa_id a) (aa_kind a) (aa_state a)
           (aa_label a) (aa_detail a)) h = e)"
proof -
  let ?l = "safe_label (aa_kind a) (aa_state a) (aa_label a)"
  have suf: "safe_source_suffix (harness_label h) = Some (harness_label h)"
    by (cases h) (simp_all add: safe_source_suffix_def harness_label_def)
  have l: "?l \<in> set activity_labels" by (rule safe_label_closed)
  have "bound_label (?l @ '' '' @ middot @ '' '' @ harness_label h) = ?l @ '' '' @ middot @ '' '' @ harness_label h"
    using activity_labels_fit l by (cases h) (auto simp: list_all_iff)
  moreover have op: "is_opaque_activity_id (opaque_activity_id sha (aa_id a))"
    by (rule opaque_activity_id_opaque) (simp add: assms)
  moreover have "safe_label (aa_kind a) (aa_state a) ?l = ?l"
    by (rule safe_label_fixed)
  moreover have "opaque_activity_id sha (opaque_activity_id sha (aa_id a)) = opaque_activity_id sha (aa_id a)"
    using op by (simp add: opaque_activity_id_def [of sha "opaque_activity_id sha (aa_id a)"])
  ultimately show ?thesis
    using l suf by (simp add: safe_activity_for_run_event_def safe_for_emission_def AgentActivity_new_def Let_def)
qed

theorem emitted_activity_is_closed_witness:
  "aa_label (safe_activity_for_run_event (\<lambda>_. replicate 32 CHR ''a'')
      \<lparr>aa_id = ''x'', aa_kind = KTool, aa_state = SStarted, aa_label = ''sk-secret'', aa_detail = Some ''key''\<rparr> Cli)
   = ''Using tool '' @ middot @ '' CLI''
   \<and> is_opaque_activity_id (aa_id (safe_activity_for_run_event (\<lambda>_. replicate 32 CHR ''a'')
      \<lparr>aa_id = ''x'', aa_kind = KTool, aa_state = SStarted, aa_label = ''sk-secret'', aa_detail = Some ''key''\<rparr> Cli))"
proof -
  have "\<forall>s :: rstring. length ((\<lambda>_. replicate 32 CHR ''a'') s) = 32" by simp
  note e = emitted_activity_is_closed [OF this, of _ Cli]
  show ?thesis
  proof (rule conjI)
    show "aa_label (safe_activity_for_run_event (\<lambda>_. replicate 32 CHR ''a'')
      \<lparr>aa_id = ''x'', aa_kind = KTool, aa_state = SStarted, aa_label = ''sk-secret'', aa_detail = Some ''key''\<rparr> Cli)
      = ''Using tool '' @ middot @ '' CLI''" by code_simp
  qed (use e in \<open>simp add: Let_def\<close>)
qed

end
