(* ===== verification/Runner_Os.thy ===== *)
theory Runner_Os
  imports Agents
begin

text \<open>
  The part of the runner that touches the machine (\<^verbatim>\<open>runner/mod.rs\<close>: files and folders put into a
  prompt, scripts, shell commands, custom agents, HTTP through \<^verbatim>\<open>curl\<close>, git and the GitHub command line).
  The machine is a state of type \<open>'w\<close> and a record \<open>os\<close> of the calls the code makes: the standard
  library's file system and process calls, \<^verbatim>\<open>find_bin\<close>, and \<^verbatim>\<open>run_cmd\<close>, which runs a child under the run's
  control and reports the lines it printed. Output is the text after \<^verbatim>\<open>from_utf8_lossy\<close>; an error is
  its \<^verbatim>\<open>Display\<close> text. The Unix variants of the code are modelled.
\<close>

section \<open>The machine\<close>

record metadata =
  md_is_file :: bool
  md_is_dir :: bool
  md_len :: nat

record proc_out =
  po_stdout :: rstring
  po_stderr :: rstring
  po_success :: bool
  po_code :: "int option"
  po_status :: rstring

record command =
  cm_bin :: rstring
  cm_args :: "rstring list"
  cm_cwd :: "rstring option"
  cm_env :: "(rstring \<times> rstring) list"
  cm_stdin :: "rstring option"

record 'w os =
  os_metadata :: "rstring \<Rightarrow> 'w \<Rightarrow> rstring + metadata"
  os_read :: "rstring \<Rightarrow> 'w \<Rightarrow> rstring + rstring"
  os_read_dir :: "rstring \<Rightarrow> 'w \<Rightarrow> rstring + (rstring \<times> bool) list"
  os_create_dir_all :: "rstring \<Rightarrow> 'w \<Rightarrow> (rstring + unit) \<times> 'w"
  os_write :: "rstring \<Rightarrow> rstring \<Rightarrow> 'w \<Rightarrow> (rstring + unit) \<times> 'w"
  os_remove :: "rstring \<Rightarrow> 'w \<Rightarrow> 'w"
  os_set_mode_755 :: "rstring \<Rightarrow> 'w \<Rightarrow> (rstring + unit) \<times> 'w"
  os_executable :: "rstring \<Rightarrow> 'w \<Rightarrow> bool"
  os_temp_name :: "'w \<Rightarrow> rstring \<times> 'w"
  os_find_bin :: "rstring \<Rightarrow> 'w \<Rightarrow> rstring option"
  os_output :: "command \<Rightarrow> 'w \<Rightarrow> (rstring + proc_out) \<times> 'w"
  os_run_cmd :: "command \<Rightarrow> 'w \<Rightarrow> (rstring + proc_out) \<times> rstring list \<times> 'w"

section \<open>Numbers and lines as text\<close>

definition show_int :: "int \<Rightarrow> rstring" where
  "show_int i = (if i < 0 then ''-'' @ show_nat (nat (- i)) else show_nat (nat i))"

text \<open>\<^verbatim>\<open>str::lines\<close>: split at newlines, no line after a final newline, a carriage return at the end dropped.\<close>

definition str_lines :: "rstring \<Rightarrow> rstring list" where
  "str_lines s = (let ls = split_by (\<lambda>u. u = nl) (map (\<lambda>c. [c]) s) [];
       ls' = (if last ls = [] then butlast ls else ls)
     in map (\<lambda>l. if l \<noteq> [] \<and> last l = CHR 0x0D then butlast l else l) ls')"

section \<open>Files and folders\<close>

definition MAX_ATTACHMENT_FILE_BYTES :: nat where "MAX_ATTACHMENT_FILE_BYTES = 96 * 1024"
definition MAX_FOLDER_ENTRIES :: nat where "MAX_FOLDER_ENTRIES = 80"

text \<open>Whether bytes are a UTF-8 text (\<^verbatim>\<open>String::from_utf8\<close>).\<close>

definition in_range :: "nat \<Rightarrow> nat \<Rightarrow> char \<Rightarrow> bool" where
  "in_range a b c = (a \<le> of_char c \<and> of_char c \<le> b)"

fun utf8_valid :: "rstring \<Rightarrow> bool" where
  "utf8_valid [] = True"
| "utf8_valid (a # r) =
     (if in_range 0 127 a then utf8_valid r
      else case r of
          [] \<Rightarrow> False
        | b # r2 \<Rightarrow>
          if in_range 194 223 a then is_cont b \<and> utf8_valid r2
          else case r2 of
              [] \<Rightarrow> False
            | c # r3 \<Rightarrow>
              if in_range 224 239 a then
                in_range (if in_range 224 224 a then 160 else 128) (if in_range 237 237 a then 159 else 191) b
                \<and> is_cont c \<and> utf8_valid r3
              else case r3 of
                  [] \<Rightarrow> False
                | e # r4 \<Rightarrow> in_range 240 244 a
                    \<and> in_range (if in_range 240 240 a then 144 else 128) (if in_range 244 244 a then 143 else 191) b
                    \<and> is_cont c \<and> is_cont e \<and> utf8_valid r4)"

definition note_text :: "rstring \<Rightarrow> rstring" where "note_text s = ''_('' @ s @ '')_''"

definition read_file_brief :: "'w os \<Rightarrow> rstring \<Rightarrow> 'w \<Rightarrow> rstring" where
  "read_file_brief S path w =
     (case os_metadata S path w of
        Inl e \<Rightarrow> note_text (''unavailable: '' @ e)
      | Inr meta \<Rightarrow>
        if \<not> md_is_file meta then note_text ''not a file''
        else let len = md_len meta in
        if len = 0 then note_text ''empty file''
        else if MAX_ATTACHMENT_FILE_BYTES < len then
          note_text (''content omitted '' @ emdash @ '' '' @ show_nat len @ '' bytes; path provided for the agent'')
        else case os_read S path w of
            Inl e \<Rightarrow> note_text (''could not read: '' @ e)
          | Inr bytes \<Rightarrow>
            if CHR 0x00 \<in> set bytes then note_text (''binary file, '' @ show_nat len @ '' bytes'')
            else if utf8_valid bytes then fence @ nl @ bytes @ nl @ fence
            else note_text (''non-UTF-8 file, '' @ show_nat len @ '' bytes''))"

definition folder_line :: "rstring \<times> bool \<Rightarrow> rstring" where
  "folder_line e = ''- '' @ [backtick] @ fst e @ (if snd e then ''/'' else []) @ [backtick]"

definition list_folder_brief :: "'w os \<Rightarrow> rstring \<Rightarrow> 'w \<Rightarrow> rstring" where
  "list_folder_brief S path w =
     (case os_read_dir S path w of
        Inl e \<Rightarrow> note_text (''unavailable: '' @ e)
      | Inr entries \<Rightarrow>
        let names = sort (map folder_line (filter (\<lambda>e. \<not> prefix ''.'' (fst e)) entries));
            shown = take MAX_FOLDER_ENTRIES names
              @ (if MAX_FOLDER_ENTRIES < length names then [''- '' @ ellipsis] else [])
        in if shown = [] then note_text ''empty or unreadable folder''
           else ''Contents (top level):'' @ nl @ join nl shown)"

text \<open>\<^verbatim>\<open>Path::parent\<close> on the reversed text: trailing separators and \<^verbatim>\<open>/.\<close> are not components.\<close>

fun strip_path_end :: "rstring \<Rightarrow> rstring" where
  "strip_path_end [] = []"
| "strip_path_end [c] = (if c = CHR ''/'' then [] else [c])"
| "strip_path_end (c # d # cs) = (if c = CHR ''/'' then strip_path_end (d # cs)
     else if c = CHR ''.'' \<and> d = CHR ''/'' then strip_path_end cs else c # d # cs)"

definition path_parent :: "rstring \<Rightarrow> rstring option" where
  "path_parent path = (let r = strip_path_end (rev path); up = dropWhile (\<lambda>c. c \<noteq> CHR ''/'') r in
     if r = [] then None
     else Some (if up \<noteq> [] \<and> strip_path_end up = [] then ''/'' else rev (strip_path_end up)))"

definition write_text_file :: "'w os \<Rightarrow> rstring \<Rightarrow> rstring \<Rightarrow> 'w \<Rightarrow> (rstring + unit) \<times> 'w" where
  "write_text_file S path content w =
     (let put = (\<lambda>w. case os_write S path content w of
            (Inl e, w') \<Rightarrow> (Inl (''write '' @ [backtick] @ path @ [backtick] @ '': '' @ e), w')
          | r \<Rightarrow> r)
      in case path_parent path of
          Some dir \<Rightarrow> (if dir = [] then put w
            else case os_create_dir_all S dir w of
                (Inl e, w') \<Rightarrow> (Inl (''mkdir: '' @ e), w')
              | (Inr _, w') \<Rightarrow> put w')
        | None \<Rightarrow> put w)"

section \<open>Child processes\<close>

definition plain_command :: "rstring \<Rightarrow> rstring list \<Rightarrow> rstring option \<Rightarrow> command" where
  "plain_command bin args cwd = \<lparr>cm_bin = bin, cm_args = args, cm_cwd = cwd, cm_env = [], cm_stdin = None\<rparr>"

definition both_streams :: "proc_out \<Rightarrow> rstring" where
  "both_streams out = po_stdout out
     @ (if po_stderr out = [] then [] else (if po_stdout out = [] then [] else nl) @ po_stderr out)"

definition prefer_stdout :: "proc_out \<Rightarrow> rstring" where
  "prefer_stdout out = (let s = trim (po_stdout out) in if s \<noteq> [] then s else trim (po_stderr out))"

text \<open>One git query as a section of the prompt.\<close>

definition git_section ::
  "'w os \<Rightarrow> rstring \<Rightarrow> rstring list \<Rightarrow> rstring \<Rightarrow> rstring \<Rightarrow> (rstring \<Rightarrow> rstring) \<Rightarrow> 'w \<Rightarrow> rstring \<times> 'w" where
  "git_section S cwd args name blank show w =
     (case os_output S (plain_command ''git'' args (Some cwd)) w of
        (Inl e, w') \<Rightarrow> (note_text (''git unavailable: '' @ e), w')
      | (Inr out, w') \<Rightarrow>
        (if po_success out then
           (if trim (po_stdout out) = [] then note_text blank else show (po_stdout out))
         else note_text (name @ '' failed: '' @ trim (po_stderr out)), w'))"

definition format_git_status_context :: "'w os \<Rightarrow> rstring \<Rightarrow> bool \<Rightarrow> 'w \<Rightarrow> rstring \<times> 'w" where
  "format_git_status_context S cwd include_diff w =
     (case git_section S cwd [''status'', ''--short'', ''-uall''] ''git status'' ''clean working tree''
         (\<lambda>t. fence @ nl @ t @ fence) w of
        (status, w1) \<Rightarrow>
        if \<not> include_diff then (join (nl @ nl) [''## Git status'', status], w1)
        else case git_section S cwd [''diff'', ''HEAD''] ''git diff'' ''no diff''
            (\<lambda>t. fence @ ''diff'' @ nl @ take_chars 80000 t @ nl @ fence) w1 of
          (diff, w2) \<Rightarrow> (join (nl @ nl) [''## Git status'', status, ''## Git diff'', diff], w2))"

text \<open>A status snapshot: its entries in an iteration order, and the lookup.\<close>

definition git_status_entries :: "'w os \<Rightarrow> rstring \<Rightarrow> 'w \<Rightarrow> (rstring \<times> rstring) list \<times> 'w" where
  "git_status_entries S cwd w =
     (case os_output S (plain_command ''git'' [''status'', ''--porcelain'', ''-uall''] (Some cwd)) w of
        (Inr out, w') \<Rightarrow>
          (let found = (if po_success out then List.map_filter status_line (str_lines (po_stdout out)) else [])
           in map (\<lambda>p. (p, the (map_of (rev found) p))) (remdups (map fst found)), w')
      | (Inl _, w') \<Rightarrow> ([], w'))"

definition run_shell_command ::
  "'w os \<Rightarrow> rstring \<Rightarrow> rstring option \<Rightarrow> 'w \<Rightarrow> (rstring + rstring \<times> int) \<times> 'w" where
  "run_shell_command S command cwd w =
     (case os_output S (plain_command ''sh'' [''-lc'', command] cwd) w of
        (Inl e, w') \<Rightarrow> (Inl (''failed to spawn shell: '' @ e), w')
      | (Inr out, w') \<Rightarrow> (Inr (both_streams out, unwrap_or (-1) (po_code out)), w'))"

definition run_custom_agent ::
  "'w os \<Rightarrow> rstring \<Rightarrow> rstring \<Rightarrow> rstring \<Rightarrow> rstring option \<Rightarrow> 'w \<Rightarrow> (rstring + rstring) \<times> rstring list \<times> 'w" where
  "run_custom_agent S command prompt_mode prompt cwd w =
     (let dir = (case nonempty_trim cwd of
            Some d \<Rightarrow> (case os_metadata S d w of Inr m \<Rightarrow> if md_is_dir m then Some d else None | Inl _ \<Rightarrow> None)
          | None \<Rightarrow> None);
          shell = unwrap_or ''/bin/sh'' (os_find_bin S ''sh'' w);
          (args, payload) = custom_agent_command command prompt_mode prompt
      in case os_run_cmd S \<lparr>cm_bin = shell, cm_args = args, cm_cwd = dir, cm_env = [], cm_stdin = payload\<rparr> w of
          (Inl e, ls, w') \<Rightarrow> (Inl e, ls, w')
        | (Inr out, ls, w') \<Rightarrow>
          (let raw = prefer_stdout out in
           if raw = [] then Inl ''custom agent returned empty output''
           else if \<not> po_success out then Inl (''custom agent exited with an error:'' @ nl @ raw)
           else Inr raw, ls, w'))"

definition run_http_request ::
  "'w os \<Rightarrow> rstring \<Rightarrow> rstring \<Rightarrow> rstring \<Rightarrow> rstring \<Rightarrow> 'w \<Rightarrow> (rstring + rstring) \<times> 'w" where
  "run_http_request S method url headers body w =
     (case os_output S (plain_command ''curl'' (http_args method url (str_lines headers) body) None) w of
        (Inl e, w') \<Rightarrow> (Inl (''curl failed to start: '' @ e), w')
      | (Inr out, w') \<Rightarrow>
        (if po_success out then Inr (po_stdout out)
         else if trim (po_stderr out) = [] then Inl (''curl exited '' @ po_status out @ nl @ po_stdout out)
         else Inl (''curl: '' @ po_stderr out), w'))"

definition run_git_host ::
  "'w os \<Rightarrow> rstring \<Rightarrow> rstring \<Rightarrow> rstring \<Rightarrow> rstring \<Rightarrow> bool \<Rightarrow> rstring option \<Rightarrow> 'w \<Rightarrow> (rstring + rstring) \<times> 'w" where
  "run_git_host S action title body base draft cwd w =
     (case git_host_args action title body base draft of
        Inl e \<Rightarrow> (Inl e, w)
      | Inr args \<Rightarrow>
        (case os_output S (plain_command ''gh'' args cwd) w of
           (Inl e, w') \<Rightarrow> (Inl (''gh failed to start (is GitHub CLI installed?): '' @ e), w')
         | (Inr out, w') \<Rightarrow>
           (let stdout = trim (po_stdout out); stderr = trim (po_stderr out) in
            if po_success out then Inr (if stdout = [] then action @ '' created'' else stdout)
            else Inl (''gh failed: '' @ (if stderr = [] then stdout else stderr)), w')))"

section \<open>Scripts\<close>

definition default_interpreter :: rstring where "default_interpreter = ''bash''"

definition has_shebang :: "'w os \<Rightarrow> rstring \<Rightarrow> 'w \<Rightarrow> bool" where
  "has_shebang S path w = (case os_read S path w of Inr bytes \<Rightarrow> prefix ''#!'' bytes | Inl _ \<Rightarrow> False)"

definition interpreter_args :: "rstring \<Rightarrow> rstring \<Rightarrow> rstring list" where
  "interpreter_args bin script =
     (let stem = to_ascii_lowercase (file_stem bin) in
      if stem \<in> {''pwsh'', ''powershell''} then [''-NoProfile'', ''-ExecutionPolicy'', ''Bypass'', ''-File'', script]
      else if stem = ''cmd'' then [''/C'', script] else [script])"

definition find_interpreter :: "'w os \<Rightarrow> rstring \<Rightarrow> 'w \<Rightarrow> rstring option" where
  "find_interpreter S requested w = (case os_find_bin S requested w of
      Some b \<Rightarrow> Some b
    | None \<Rightarrow> if requested = ''pwsh'' then (case os_find_bin S ''powershell'' w of
          Some b \<Rightarrow> Some b | None \<Rightarrow> os_find_bin S ''cmd.exe'' w) else None)"

definition script_invocation ::
  "'w os \<Rightarrow> rstring \<Rightarrow> bool \<Rightarrow> rstring \<Rightarrow> 'w \<Rightarrow> (rstring + rstring \<times> rstring list) \<times> 'w" where
  "script_invocation S script_path owns_file interpreter w =
     (let requested = (if trim interpreter = [] then default_interpreter else trim interpreter);
          via_interpreter = (case find_interpreter S requested w of
             None \<Rightarrow> (Inl (''Interpreter not found on PATH: '' @ requested), w)
           | Some bin \<Rightarrow> (Inr (bin, interpreter_args bin script_path), w))
      in if has_shebang S script_path w then
           (if owns_file then
              (case os_set_mode_755 S script_path w of
                 (Inl e, w') \<Rightarrow> (Inl (''failed to make script executable: '' @ e), w')
               | (Inr _, w') \<Rightarrow> (Inr (script_path, []), w'))
            else if os_executable S script_path w then (Inr (script_path, []), w)
            else via_interpreter)
         else via_interpreter)"

definition is_file :: "'w os \<Rightarrow> rstring \<Rightarrow> 'w \<Rightarrow> bool" where
  "is_file S path w = (case os_metadata S path w of Inr m \<Rightarrow> md_is_file m | Inl _ \<Rightarrow> False)"

text \<open>The file to run, and whether Alfred wrote it: a temporary file for an inline body.\<close>

definition script_file ::
  "'w os \<Rightarrow> json \<Rightarrow> rstring option \<Rightarrow> 'w \<Rightarrow> (rstring + rstring \<times> bool) \<times> 'w" where
  "script_file S script cwd w =
     (if unwrap_or ''inline'' (get_str ''source'' script) = ''file'' then
        (case resolve_script_path (unwrap_or [] (get_str ''path'' script)) cwd of
           Inl e \<Rightarrow> (Inl e, w)
         | Inr p \<Rightarrow> if is_file S p w then (Inr (p, False), w) else (Inl (''Script not found: '' @ p), w))
      else
        let body = unwrap_or [] (get_str ''body'' script);
            interpreter = trim (unwrap_or [] (get_str ''interpreter'' script));
            interp = (if interpreter = [] then default_interpreter else interpreter)
        in if trim body = [] then (Inl ''Script node has no script'', w)
           else case os_temp_name S w of
             (base, w1) \<Rightarrow> (case os_write S (base @ script_extension interp) body w1 of
                 (Inl e, w2) \<Rightarrow> (Inl (''failed to write script: '' @ e), w2)
               | (Inr _, w2) \<Rightarrow> (Inr (base @ script_extension interp, True), w2)))"

definition script_command :: "rstring \<Rightarrow> rstring list \<Rightarrow> rstring \<Rightarrow> rstring \<Rightarrow> rstring option \<Rightarrow> command" where
  "script_command bin args context last_output cwd =
     (let dir = unwrap_or [] (nonempty_trim cwd) in
      \<lparr>cm_bin = bin, cm_args = args, cm_cwd = (if dir = [] then None else Some dir),
       cm_env = [(''ALFRED_OUTPUT'', last_output), (''ALFRED_CONTEXT'', context), (''ALFRED_CWD'', dir)],
       cm_stdin = Some last_output\<rparr>)"

definition run_script ::
  "'w os \<Rightarrow> json \<Rightarrow> rstring \<Rightarrow> rstring \<Rightarrow> rstring option \<Rightarrow> 'w
    \<Rightarrow> (rstring + rstring \<times> int) \<times> rstring list \<times> 'w" where
  "run_script S script context last_output cwd w =
     (case script_file S script cwd w of
        (Inl e, w1) \<Rightarrow> (Inl e, [], w1)
      | (Inr (path, owned), w1) \<Rightarrow>
        let dropped = (\<lambda>w. if owned then os_remove S path w else w) in
        case script_invocation S path owned (trim (unwrap_or [] (get_str ''interpreter'' script))) w1 of
          (Inl e, w2) \<Rightarrow> (Inl e, [], dropped w2)
        | (Inr (bin, args), w2) \<Rightarrow>
          (case os_run_cmd S (script_command bin args context last_output cwd) w2 of
             (Inl e, ls, w3) \<Rightarrow> (Inl e, ls, dropped w3)
           | (Inr out, ls, w3) \<Rightarrow>
             (Inr (both_streams out, unwrap_or (-1) (po_code out)), ls, dropped w3)))"

end
