(* ===== verification/Runner_Graph.thy ===== *)
theory Runner_Graph
  imports Json
begin

text \<open>
  The workflow graph, \<^verbatim>\<open>runner/mod.rs\<close>: \<^verbatim>\<open>topological_order\<close> (the order in which a run executes its
  nodes) and \<^verbatim>\<open>nearest_html_report_agents\<close> (the agents that are asked for an HTML report). Nodes and
  edges are the JSON values of the stored graph. A \<^verbatim>\<open>HashMap\<close> is iterated in an unspecified order,
  so each such iteration takes its order as a parameter, a function from the list of keys to a
  permutation of it (\<open>perm_ok\<close>).
\<close>

definition node_id :: "json \<Rightarrow> rstring option" where "node_id n = get_str ''id'' n"
definition node_type :: "json \<Rightarrow> rstring" where "node_type n = unwrap_or [] (get_str ''type'' n)"

text \<open>The map from ids to nodes: a later node replaces an earlier one of the same id.\<close>

definition by_id :: "json list \<Rightarrow> rstring \<Rightarrow> json option" where
  "by_id nodes i = map_of (rev (List.map_filter (\<lambda>n. map_option (\<lambda>k. (k, n)) (node_id n)) nodes)) i"

definition node_keys :: "json list \<Rightarrow> rstring list" where
  "node_keys nodes = remdups (List.map_filter node_id nodes)"

definition edge_ends :: "json list \<Rightarrow> json \<Rightarrow> (rstring \<times> rstring) option" where
  "edge_ends nodes e = (case (get_str ''source'' e, get_str ''target'' e) of
       (Some s, Some t) \<Rightarrow> if by_id nodes s \<noteq> None \<and> by_id nodes t \<noteq> None then Some (s, t) else None
     | _ \<Rightarrow> None)"

definition graph_edges :: "json list \<Rightarrow> json list \<Rightarrow> (rstring \<times> rstring) list" where
  "graph_edges nodes edges = List.map_filter (edge_ends nodes) edges"

definition outgoing :: "(rstring \<times> rstring) list \<Rightarrow> rstring \<Rightarrow> rstring list" where
  "outgoing es s = map snd (filter (\<lambda>e. fst e = s) es)"

definition indegree :: "rstring list \<Rightarrow> (rstring \<times> rstring) list \<Rightarrow> rstring \<Rightarrow> nat option" where
  "indegree ks es t = (if t \<in> set ks then Some (length (filter (\<lambda>e. snd e = t) es)) else None)"

definition root_rank :: "json list \<Rightarrow> rstring \<Rightarrow> nat" where
  "root_rank nodes i = (case by_id nodes i of None \<Rightarrow> 1
     | Some n \<Rightarrow> if node_type n = ''prompt'' \<or> node_type n = ''input'' then 0 else 1)"

text \<open>Removing the edges out of a node: each target's count goes down, a target that reaches zero
  is queued.\<close>

fun relax :: "rstring list \<Rightarrow> (rstring \<Rightarrow> nat option) \<Rightarrow> rstring list
    \<Rightarrow> (rstring \<Rightarrow> nat option) \<times> rstring list" where
  "relax [] deg q = (deg, q)"
| "relax (n # ns) deg q = (case deg n of
      None \<Rightarrow> relax ns deg q
    | Some d \<Rightarrow> relax ns (deg(n \<mapsto> d - 1)) (if d - 1 = 0 then q @ [n] else q))"

text \<open>The main loop. \<open>visited\<close> is kept in insertion order: \<^verbatim>\<open>ordered\<close> is the list of its nodes. A key
  that is not in the graph has no outgoing edges.\<close>

function topo_loop ::
  "rstring list \<Rightarrow> (rstring \<times> rstring) list \<Rightarrow> rstring list \<Rightarrow> (rstring \<Rightarrow> nat option)
    \<Rightarrow> rstring list \<Rightarrow> rstring list" where
  "topo_loop ks es [] deg visited = visited"
| "topo_loop ks es (i # q) deg visited =
     (if i \<in> set visited then topo_loop ks es q deg visited
      else if i \<in> set ks then
        (case relax (outgoing es i) deg q of (deg', q') \<Rightarrow> topo_loop ks es q' deg' (visited @ [i]))
      else topo_loop ks es q deg (visited @ [i]))"
  by pat_completeness auto
termination
proof (relation "inv_image (less_than <*lex*> less_than)
    (\<lambda>(ks, es, q, deg, visited). (card (set ks - set visited), length q))", goal_cases)
  case (3 ks es i q deg visited)
  then have "card (set ks - set (visited @ [i])) < card (set ks - set visited)"
    by (intro psubset_card_mono) auto
  then show ?case by simp
next
  case (4 ks es i q deg visited)
  then have "set ks - set (visited @ [i]) = set ks - set visited" by auto
  then show ?case by simp
qed auto

definition topo_ids ::
  "(rstring list \<Rightarrow> rstring list) \<Rightarrow> (rstring list \<Rightarrow> rstring list) \<Rightarrow> json list \<Rightarrow> json list \<Rightarrow> rstring list" where
  "topo_ids perm1 perm2 nodes edges =
     (let ks = node_keys nodes; es = graph_edges nodes edges; deg = indegree ks es;
          roots = sort_key (root_rank nodes) (filter (\<lambda>i. deg i = Some 0) (perm1 ks));
          visited = topo_loop ks es roots deg []
      in visited @ filter (\<lambda>i. i \<notin> set visited) (perm2 ks))"

definition topological_order ::
  "(rstring list \<Rightarrow> rstring list) \<Rightarrow> (rstring list \<Rightarrow> rstring list) \<Rightarrow> json list \<Rightarrow> json list \<Rightarrow> json list" where
  "topological_order perm1 perm2 nodes edges =
     List.map_filter (by_id nodes) (topo_ids perm1 perm2 nodes edges)"

definition perm_ok :: "(rstring list \<Rightarrow> rstring list) \<Rightarrow> bool" where
  "perm_ok p = (\<forall>xs. mset (p xs) = mset xs)"

section \<open>The agents an HTML report is asked of\<close>

definition is_agent :: "json list \<Rightarrow> rstring \<Rightarrow> bool" where
  "is_agent nodes i = (case by_id nodes i of None \<Rightarrow> False
     | Some n \<Rightarrow> node_type n = ''agent'' \<or> node_type n = ''customAgent'')"

definition incoming :: "(rstring \<times> rstring) list \<Rightarrow> rstring \<Rightarrow> rstring list" where
  "incoming es t = map fst (filter (\<lambda>e. snd e = t) es)"

definition html_output :: "json \<Rightarrow> bool" where
  "html_output n = ((node_type n = ''chooseOutput'' \<or> node_type n = ''output'')
     \<and> unwrap_or False (Option.bind (json_get ''data'' n) (get_bool ''htmlReport'')))"

type_synonym bfs_state = "(rstring \<times> nat) list \<times> rstring list \<times> nat option \<times> rstring list"

definition bfs_source ::
  "(rstring \<Rightarrow> bool) \<Rightarrow> nat \<Rightarrow> rstring \<Rightarrow> bfs_state \<Rightarrow> bfs_state" where
  "bfs_source ag dist src st = (case st of (q, visited, nearest, agents) \<Rightarrow>
     if src \<in> set visited then st
     else if ag src then
       (case nearest of
          None \<Rightarrow> (q, src # visited, Some (Suc dist), List.insert src agents)
        | Some m \<Rightarrow> if m = Suc dist then (q, src # visited, nearest, List.insert src agents)
                     else (q, src # visited, nearest, agents))
     else if (case nearest of None \<Rightarrow> True | Some m \<Rightarrow> Suc dist < m)
     then (q @ [(src, Suc dist)], src # visited, nearest, agents)
     else (q, src # visited, nearest, agents))"

definition bfs_rank :: "(rstring \<times> rstring) list \<Rightarrow> bfs_state \<Rightarrow> nat" where
  "bfs_rank es st = (case st of (q, visited, _, _) \<Rightarrow>
     card (fst ` set es - set visited) + length q)"

lemma bfs_source_rank:
  assumes "src \<in> fst ` set es"
  shows "bfs_rank es (bfs_source ag dist src st) \<le> bfs_rank es st"
proof (cases st)
  case (fields q v n a)
  show ?thesis
  proof (cases "src \<in> set v")
    case True
    then show ?thesis by (simp add: fields bfs_source_def)
  next
    case False
    have "fst ` set es - set (src # v) = (fst ` set es - set v) - {src}" by auto
    moreover have "Suc (card (fst ` set es - set v - {src})) = card (fst ` set es - set v)"
      using assms False by (intro card_Suc_Diff1) auto
    ultimately have "card (fst ` set es - set v) = Suc (card (fst ` set es - set (src # v)))" by simp
    then show ?thesis
      by (auto simp: fields bfs_source_def bfs_rank_def False split: option.split)
  qed
qed

lemma bfs_sources_rank:
  assumes "set srcs \<subseteq> fst ` set es"
  shows "bfs_rank es (fold (bfs_source ag dist) srcs st) \<le> bfs_rank es st"
  using assms
proof (induction srcs arbitrary: st)
  case (Cons x xs)
  have "bfs_rank es (fold (bfs_source ag dist) xs (bfs_source ag dist x st))
      \<le> bfs_rank es (bfs_source ag dist x st)" using Cons by simp
  also have "\<dots> \<le> bfs_rank es st" using Cons.prems by (intro bfs_source_rank) simp
  finally show ?case by simp
qed simp

text \<open>One breadth-first search, backwards from an output.\<close>

function bfs_loop ::
  "(rstring \<Rightarrow> bool) \<Rightarrow> (rstring \<times> rstring) list \<Rightarrow> bfs_state \<Rightarrow> rstring list" where
  "bfs_loop ag es ([], visited, nearest, agents) = agents"
| "bfs_loop ag es ((i, dist) # q, visited, nearest, agents) =
     (if (case nearest of None \<Rightarrow> False | Some m \<Rightarrow> m \<le> dist)
      then bfs_loop ag es (q, visited, nearest, agents)
      else bfs_loop ag es (fold (bfs_source ag dist) (incoming es i) (q, visited, nearest, agents)))"
  by pat_completeness auto
termination
proof (relation "measure (\<lambda>(ag, es, st). bfs_rank es st)", goal_cases)
  case (3 ag es i dist q visited nearest agents)
  have "set (incoming es i) \<subseteq> fst ` set es" by (auto simp: incoming_def)
  from bfs_sources_rank [OF this, of ag dist "(q, visited, nearest, agents)"]
  show ?case by (simp add: bfs_rank_def)
qed (simp_all add: bfs_rank_def)

definition report_search ::
  "json list \<Rightarrow> (rstring \<times> rstring) list \<Rightarrow> json \<Rightarrow> rstring list \<Rightarrow> rstring list" where
  "report_search nodes es output agents =
     (if \<not> html_output output then agents
      else case node_id output of None \<Rightarrow> agents
        | Some i \<Rightarrow> bfs_loop (is_agent nodes) es ([(i, 0)], [i], None, agents))"

definition nearest_html_report_agents :: "json list \<Rightarrow> json list \<Rightarrow> rstring list" where
  "nearest_html_report_agents nodes edges =
     fold (report_search nodes (graph_edges nodes edges)) nodes []"

section \<open>The loop invariant\<close>

text \<open>Counts are the numbers of edges from unvisited sources; queued and visited nodes have none;
  a node without any is queued or visited; each visited node comes after its predecessors.\<close>

definition open_edges :: "(rstring \<times> rstring) list \<Rightarrow> rstring set \<Rightarrow> rstring \<Rightarrow> nat" where
  "open_edges es V t = length (filter (\<lambda>e. snd e = t \<and> fst e \<notin> V) es)"

definition preds_before :: "(rstring \<times> rstring) list \<Rightarrow> rstring list \<Rightarrow> bool" where
  "preds_before es vs = (\<forall>k < length vs. \<forall>s. (s, vs ! k) \<in> set es \<longrightarrow> s \<in> set (take k vs))"

definition topo_inv ::
  "rstring list \<Rightarrow> (rstring \<times> rstring) list \<Rightarrow> rstring list \<Rightarrow> (rstring \<Rightarrow> nat option)
    \<Rightarrow> rstring list \<Rightarrow> bool" where
  "topo_inv ks es q deg vs = (
     (\<forall>t \<in> set ks. deg t = Some (open_edges es (set vs) t)) \<and> (\<forall>t. t \<notin> set ks \<longrightarrow> deg t = None)
     \<and> (\<forall>t \<in> set q. t \<in> set ks \<and> open_edges es (set vs) t = 0)
     \<and> (\<forall>t \<in> set ks. open_edges es (set vs) t = 0 \<longrightarrow> t \<in> set q \<or> t \<in> set vs)
     \<and> set vs \<subseteq> set ks \<and> distinct vs \<and> preds_before es vs)"

lemma open_edges_0: "open_edges es V t = 0 \<longleftrightarrow> (\<forall>s. (s, t) \<in> set es \<longrightarrow> s \<in> V)"
  by (auto simp: open_edges_def filter_empty_conv)

lemma open_edges_insert:
  assumes "i \<notin> V"
  shows "open_edges es V t = open_edges es (insert i V) t + length (filter (\<lambda>n. n = t) (outgoing es i))"
  using assms unfolding open_edges_def outgoing_def
  by (induction es) auto

text \<open>Relaxing a list of targets subtracts their multiplicities.\<close>

lemma relax_deg:
  assumes "relax ns deg q = (deg', q')"
  shows "deg' t = map_option (\<lambda>d. d - length (filter (\<lambda>n. n = t) ns)) (deg t)"
  using assms
proof (induction ns deg q rule: relax.induct)
  case (2 n ns deg q)
  show ?case
  proof (cases "deg n")
    case None
    with 2 show ?thesis by (cases "n = t") auto
  next
    case (Some d)
    then have "relax ns (deg(n \<mapsto> d - 1)) (if d - 1 = 0 then q @ [n] else q) = (deg', q')"
      using 2(3) by simp
    from 2(2) [OF Some this] Some show ?thesis by (cases "n = t") simp_all
  qed
qed (simp add: option.map_ident)

lemma relax_queue:
  assumes "relax ns deg q = (deg', q')"
  shows "set q \<subseteq> set q' \<and> (\<forall>t \<in> set q'. t \<in> set q \<or> (t \<in> set ns \<and> deg' t = Some 0))"
  using assms
proof (induction ns deg q rule: relax.induct)
  case (2 n ns deg q)
  show ?case
  proof (cases "deg n")
    case None
    with 2 show ?thesis by auto
  next
    case (Some d)
    let ?q = "if d - 1 = 0 then q @ [n] else q"
    have r: "relax ns (deg(n \<mapsto> d - 1)) ?q = (deg', q')" using 2(3) Some by simp
    have "deg' n = Some 0" if "d - 1 = 0" using relax_deg [OF r, of n] that by simp
    with 2(2) [OF Some r] show ?thesis by (auto split: if_splits)
  qed
qed simp

lemma relax_queued:
  assumes "relax ns deg q = (deg', q')" and "t \<in> set ns" and "deg t = Some d"
    and "d \<le> length (filter (\<lambda>n. n = t) ns)"
  shows "t \<in> set q'"
  using assms
proof (induction ns deg q arbitrary: d rule: relax.induct)
  case (2 n ns deg q)
  show ?case
  proof (cases "deg n")
    case None
    with 2 show ?thesis by (auto split: if_splits)
  next
    case (Some e)
    let ?q = "if e - 1 = 0 then q @ [n] else q"
    have r: "relax ns (deg(n \<mapsto> e - 1)) ?q = (deg', q')" using 2(3) Some by simp
    show ?thesis
    proof (cases "n = t")
      case nt: True
      show ?thesis
      proof (cases "e - 1 = 0")
        case True
        then show ?thesis using relax_queue [OF r] nt by auto
      next
        case False
        with 2(5,6) Some nt have "e - 1 \<le> length (filter (\<lambda>n. n = t) ns)" by simp
        moreover have "t \<in> set ns"
        proof (rule ccontr)
          assume "t \<notin> set ns"
          then have "filter (\<lambda>n. n = t) ns = []" by (auto simp: filter_empty_conv)
          with calculation False show False by simp
        qed
        ultimately show ?thesis using 2(2) [OF Some r, of "e - 1"] nt by simp
      qed
    next
      case False
      then show ?thesis using 2(2) [OF Some r, of d] 2(4-6) by simp
    qed
  qed
qed simp

lemma preds_before_snoc:
  assumes "preds_before es vs" and "\<forall>s. (s, i) \<in> set es \<longrightarrow> s \<in> set vs"
  shows "preds_before es (vs @ [i])"
  using assms unfolding preds_before_def by (auto simp: less_Suc_eq nth_append)

lemma topo_inv_visit:
  assumes inv: "topo_inv ks es (i # q) deg vs" and new: "i \<notin> set vs"
    and r: "relax (outgoing es i) deg q = (deg', q')"
  shows "topo_inv ks es q' deg' (vs @ [i])"
proof -
  let ?c = "\<lambda>t. length (filter (\<lambda>n. n = t) (outgoing es i))"
  let ?V = "set vs" and ?W = "set (vs @ [i])"
  have W: "?W = insert i ?V" by auto
  have o: "open_edges es ?V t = open_edges es ?W t + ?c t" for t
    unfolding W by (rule open_edges_insert [OF new])
  have i: "i \<in> set ks" "open_edges es ?V i = 0" using inv by (simp_all add: topo_inv_def)
  have deg': "deg' t = Some (open_edges es ?W t)" if "t \<in> set ks" for t
    using relax_deg [OF r, of t] inv that o [of t] by (simp add: topo_inv_def)
  have out: "deg' t = None" if "t \<notin> set ks" for t
    using relax_deg [OF r, of t] inv that by (simp add: topo_inv_def)
  have q1: "t \<in> set ks \<and> open_edges es ?W t = 0" if "t \<in> set q'" for t
  proof -
    from relax_queue [OF r] that have "t \<in> set q \<or> deg' t = Some 0" by blast
    then show ?thesis
    proof
      assume "t \<in> set q" then show ?thesis using inv o [of t] by (simp add: topo_inv_def)
    next
      assume "deg' t = Some 0" then show ?thesis using deg' [of t] out [of t] by (cases "t \<in> set ks") auto
    qed
  qed
  have q2: "t \<in> set q' \<or> t \<in> ?W" if t: "t \<in> set ks" "open_edges es ?W t = 0" for t
  proof (cases "open_edges es ?V t = 0")
    case True
    with inv t(1) have "t \<in> set (i # q) \<or> t \<in> ?V" unfolding topo_inv_def by blast
    then show ?thesis using relax_queue [OF r] by auto
  next
    case False
    with t(2) o [of t] have c: "?c t = open_edges es ?V t" "?c t \<noteq> 0" by simp_all
    then have "filter (\<lambda>n. n = t) (outgoing es i) \<noteq> []" by force
    then have "t \<in> set (outgoing es i)" by (auto simp: filter_empty_conv)
    moreover have "deg t = Some (open_edges es ?V t)" using inv t(1) by (simp add: topo_inv_def)
    ultimately show ?thesis using relax_queued [OF r] c(1) by simp
  qed
  have "preds_before es (vs @ [i])"
    using inv i(2) by (intro preds_before_snoc) (simp_all add: topo_inv_def open_edges_0)
  then show ?thesis
    using deg' out q1 q2 i(1) new inv unfolding topo_inv_def by simp
qed

lemma topo_inv_skip: "topo_inv ks es (i # q) deg vs \<Longrightarrow> i \<in> set vs \<Longrightarrow> topo_inv ks es q deg vs"
  unfolding topo_inv_def by auto

lemma topo_loop_inv:
  "topo_inv ks es q deg vs \<Longrightarrow> \<exists>deg'. topo_inv ks es [] deg' (topo_loop ks es q deg vs)"
proof (induction ks es q deg vs rule: topo_loop.induct)
  case (1 ks es deg vs)
  then show ?case by auto
next
  case (2 ks es i q deg vs)
  show ?case
  proof (cases "i \<in> set vs")
    case True
    with 2(1) topo_inv_skip [OF 2(4)] show ?thesis by simp
  next
    case False
    have "i \<in> set ks" using 2(4) by (simp add: topo_inv_def)
    moreover obtain deg' q' where r: "relax (outgoing es i) deg q = (deg', q')" by (metis prod.exhaust)
    moreover have "topo_inv ks es q' deg' (vs @ [i])" using topo_inv_visit [OF 2(4) False r] .
    ultimately show ?thesis using 2(2) False by simp
  qed
qed

lemma topo_inv_init:
  assumes "set roots = {t \<in> set ks. indegree ks es t = Some 0}"
  shows "topo_inv ks es roots (indegree ks es) []"
proof -
  have "open_edges es {} t = length (filter (\<lambda>e. snd e = t) es)" for t by (simp add: open_edges_def)
  then show ?thesis using assms by (auto simp: topo_inv_def indegree_def preds_before_def)
qed

text \<open>When the loop ends, every unvisited node has an unvisited predecessor; on an acyclic graph
  that leaves none.\<close>

lemma topo_all_visited:
  assumes "topo_inv ks es [] deg vs" and "acyclic (set es)" and "\<forall>(s, t) \<in> set es. s \<in> set ks"
  shows "set vs = set ks"
proof (rule ccontr)
  assume "set vs \<noteq> set ks"
  then obtain x where x: "x \<in> set ks - set vs" using assms(1) by (auto simp: topo_inv_def)
  have "wf (set es)" using assms(2) by (simp add: finite_acyclic_wf)
  then obtain z where z: "z \<in> set ks - set vs"
    and min: "\<And>y. (y, z) \<in> set es \<Longrightarrow> y \<notin> set ks - set vs"
    using wfE_min [of "set es" x "set ks - set vs"] x by metis
  have "open_edges es (set vs) z = 0"
    unfolding open_edges_0 using min assms(3) by auto
  then show False using assms(1) z by (auto simp: topo_inv_def)
qed

section \<open>Breadth-first search finds the nearest agents\<close>

text \<open>\<open>feeds es ag out x k\<close>: there is a path of \<open>k\<close> edges from \<open>x\<close> to \<open>out\<close> whose inner nodes are not
  agents.\<close>

inductive feeds :: "(rstring \<times> rstring) list \<Rightarrow> (rstring \<Rightarrow> bool) \<Rightarrow> rstring \<Rightarrow> rstring \<Rightarrow> nat \<Rightarrow> bool"
  for es ag out where
  feeds_self: "feeds es ag out out 0"
| feeds_step: "feeds es ag out x k \<Longrightarrow> x = out \<or> \<not> ag x \<Longrightarrow> (y, x) \<in> set es \<Longrightarrow> feeds es ag out y (Suc k)"

inductive_cases feeds_SucE: "feeds es ag out y (Suc k)"

definition report_agent :: "(rstring \<Rightarrow> bool) \<Rightarrow> rstring \<Rightarrow> rstring \<Rightarrow> bool" where
  "report_agent ag out y = (ag y \<and> y \<noteq> out)"

definition queue_ok ::
  "(rstring \<times> rstring) list \<Rightarrow> (rstring \<Rightarrow> bool) \<Rightarrow> rstring \<Rightarrow> nat \<Rightarrow> (rstring \<times> nat) list \<Rightarrow> rstring set \<Rightarrow> bool" where
  "queue_ok es ag out c q V = (sorted (map snd q) \<and> (\<forall>(x, k) \<in> set q. feeds es ag out x k
     \<and> \<not> report_agent ag out x \<and> x \<in> V \<and> (k = c \<or> k = Suc c)))"

definition levels_ok ::
  "(rstring \<times> rstring) list \<Rightarrow> (rstring \<Rightarrow> bool) \<Rightarrow> rstring \<Rightarrow> nat \<Rightarrow> rstring set \<Rightarrow> (rstring \<times> nat) list
    \<Rightarrow> rstring set \<Rightarrow> bool" where
  "levels_ok es ag out c rest q V = ((\<forall>y j. feeds es ag out y j \<longrightarrow> j \<le> c \<longrightarrow> y \<in> V)
     \<and> (\<forall>y. feeds es ag out y (Suc c) \<longrightarrow> y \<in> V \<or> y \<in> rest \<or> (\<exists>x. (x, c) \<in> set q \<and> (y, x) \<in> set es)))"

definition closed_ok ::
  "(rstring \<times> rstring) list \<Rightarrow> (rstring \<Rightarrow> bool) \<Rightarrow> rstring \<Rightarrow> rstring set \<Rightarrow> (rstring \<times> nat) list
    \<Rightarrow> rstring set \<Rightarrow> bool" where
  "closed_ok es ag out rest q V = (\<forall>x \<in> V. \<not> report_agent ag out x \<longrightarrow>
     (\<exists>k. (x, k) \<in> set q) \<or> (\<forall>y. (y, x) \<in> set es \<longrightarrow> y \<in> V \<or> y \<in> rest))"

definition found_ok ::
  "(rstring \<times> rstring) list \<Rightarrow> (rstring \<Rightarrow> bool) \<Rightarrow> rstring \<Rightarrow> rstring set \<Rightarrow> nat \<Rightarrow> rstring set
    \<Rightarrow> nat option \<Rightarrow> rstring set \<Rightarrow> bool" where
  "found_ok es ag out A0 c V n A = (case n of
      None \<Rightarrow> A = A0 \<and> (\<forall>y \<in> V. \<not> report_agent ag out y)
    | Some m \<Rightarrow> m = Suc c \<and> (\<exists>y \<in> V. report_agent ag out y) \<and> A = A0 \<union> {y \<in> V. report_agent ag out y}
        \<and> (\<forall>y \<in> V. report_agent ag out y \<longrightarrow> feeds es ag out y m)
        \<and> (\<forall>y j. feeds es ag out y j \<longrightarrow> report_agent ag out y \<longrightarrow> m \<le> j))"

definition bfs_inv ::
  "(rstring \<times> rstring) list \<Rightarrow> (rstring \<Rightarrow> bool) \<Rightarrow> rstring \<Rightarrow> rstring set \<Rightarrow> nat \<Rightarrow> rstring set
    \<Rightarrow> bfs_state \<Rightarrow> bool" where
  "bfs_inv es ag out A0 c rest st = (case st of (q, v, n, a) \<Rightarrow>
     out \<in> set v \<and> queue_ok es ag out c q (set v) \<and> levels_ok es ag out c rest q (set v)
     \<and> (n = None \<longrightarrow> closed_ok es ag out rest q (set v)) \<and> found_ok es ag out A0 c (set v) n (set a))"

lemmas bfs_inv_defs = queue_ok_def levels_ok_def closed_ok_def found_ok_def

text \<open>One source of the node in progress, which is at distance \<open>c\<close>.\<close>

lemma bfs_source_inv:
  assumes inv: "bfs_inv es ag out A0 c (insert src rest) st" and f: "feeds es ag out src (Suc c)"
  shows "bfs_inv es ag out A0 c rest (bfs_source ag c src st)"
proof (cases st)
  case (fields q v n a)
  note I = inv [unfolded fields bfs_inv_def prod.case]
  show ?thesis
  proof (cases "src \<in> set v")
    case True
    with I show ?thesis
      by (auto simp: fields bfs_source_def bfs_inv_def levels_ok_def closed_ok_def)
  next
    case False
    with I have out: "src \<noteq> out" by auto
    have V: "set (src # v) = insert src (set v)" by simp
    show ?thesis
    proof (cases "ag src")
      case True
      then have agent: "report_agent ag out src" using out by (simp add: report_agent_def)
      have q: "queue_ok es ag out c q (set (src # v))" "levels_ok es ag out c rest q (set (src # v))"
        using I by (auto simp: queue_ok_def levels_ok_def)
      have low: "Suc c \<le> j" if "feeds es ag out y j" "report_agent ag out y" for y j
      proof (cases n)
        case None
        show ?thesis
        proof (rule ccontr)
          assume "\<not> Suc c \<le> j"
          then have "y \<in> set v" using I that(1) unfolding levels_ok_def by (meson not_less_eq_eq)
          with I that(2) None show False by (auto simp: found_ok_def)
        qed
      next
        case (Some m)
        with I that show ?thesis by (auto simp: found_ok_def)
      qed
      have "found_ok es ag out A0 c (set (src # v)) (Some (Suc c)) (insert src (set a))"
      proof (cases n)
        case None
        with I agent f low show ?thesis by (auto simp: found_ok_def)
      next
        case (Some m)
        with I agent f low show ?thesis by (auto simp: found_ok_def)
      qed
      moreover have "bfs_source ag c src st = (q, src # v, Some (Suc c), List.insert src a)"
        using I True False by (auto simp: fields bfs_source_def found_ok_def split: option.splits)
      ultimately show ?thesis using I q by (simp add: bfs_inv_def)
    next
      case nag: False
      then have nr: "\<not> report_agent ag out src" by (simp add: report_agent_def)
      have fo: "found_ok es ag out A0 c (set (src # v)) n (set a)"
        using I nr by (auto simp: found_ok_def split: option.splits)
      show ?thesis
      proof (cases n)
        case None
        have "sorted (map snd (q @ [(src, Suc c)]))"
          using I by (auto simp: queue_ok_def sorted_append)
        then have "queue_ok es ag out c (q @ [(src, Suc c)]) (set (src # v))"
          using I f nr by (auto simp: queue_ok_def)
        moreover have "levels_ok es ag out c rest (q @ [(src, Suc c)]) (set (src # v))"
          using I by (auto simp: levels_ok_def)
        moreover have "closed_ok es ag out rest (q @ [(src, Suc c)]) (set (src # v))"
          using I None by (auto simp: closed_ok_def)
        ultimately show ?thesis
          using I fo None nag False by (simp add: fields bfs_source_def bfs_inv_def)
      next
        case (Some m)
        then have "m = Suc c" using I by (simp add: found_ok_def)
        moreover have "queue_ok es ag out c q (set (src # v))" "levels_ok es ag out c rest q (set (src # v))"
          using I by (auto simp: queue_ok_def levels_ok_def)
        ultimately show ?thesis
          using I fo Some nag False by (simp add: fields bfs_source_def bfs_inv_def)
      qed
    qed
  qed
qed

lemma bfs_sources_inv:
  assumes "bfs_inv es ag out A0 c (set srcs) st" and "\<forall>x \<in> set srcs. feeds es ag out x (Suc c)"
  shows "bfs_inv es ag out A0 c {} (fold (bfs_source ag c) srcs st)"
  using assms by (induction srcs arbitrary: st) (simp_all add: bfs_source_inv)

lemma bfs_skip_inv:
  assumes "bfs_inv es ag out A0 c {} ((i, d) # q, v, Some m, a)" and "m \<le> d"
  shows "bfs_inv es ag out A0 c {} (q, v, Some m, a)"
proof -
  note I = assms(1) [unfolded bfs_inv_def prod.case]
  have "m = Suc c" using I by (simp add: found_ok_def)
  then have "d \<noteq> c" using assms(2) by simp
  then have "levels_ok es ag out c {} q (set v)" using I by (auto simp: levels_ok_def)
  moreover have "queue_ok es ag out c q (set v)" using I by (auto simp: queue_ok_def)
  ultimately show ?thesis using I by (simp add: bfs_inv_def)
qed

text \<open>When the head of the queue is one level further, the whole search is.\<close>

lemma bfs_next_level:
  assumes "bfs_inv es ag out A0 c {} ((i, Suc c) # q, v, None, a)"
  shows "bfs_inv es ag out A0 (Suc c) {} ((i, Suc c) # q, v, None, a)"
proof -
  let ?q = "(i, Suc c) # q"
  note I = assms [unfolded bfs_inv_def prod.case]
  have lev: "k = Suc c" if "(x, k) \<in> set ?q" for x k
    using I that by (fastforce simp: queue_ok_def)
  have L: "y \<in> set v" if "feeds es ag out y j" "j \<le> Suc c" for y j
  proof (cases "j = Suc c")
    case True
    have "(x, c) \<notin> set ?q" for x using lev [of x c] by auto
    with I that True show ?thesis unfolding levels_ok_def by blast
  next
    case False
    with I that show ?thesis by (auto simp: levels_ok_def)
  qed
  have P: "y \<in> set v \<or> (\<exists>x. (x, Suc c) \<in> set ?q \<and> (y, x) \<in> set es)"
    if y: "feeds es ag out y (Suc (Suc c))" for y
  proof -
    from y obtain x where x: "feeds es ag out x (Suc c)" "x = out \<or> \<not> ag x" "(y, x) \<in> set es"
      by (rule feeds_SucE)
    have "x \<in> set v" "\<not> report_agent ag out x" using L x by (auto simp: report_agent_def)
    then have "(\<exists>k. (x, k) \<in> set ?q) \<or> y \<in> set v" using I x(3) by (auto simp: closed_ok_def)
    then show ?thesis using lev x(3) by blast
  qed
  have "levels_ok es ag out (Suc c) {} ?q (set v)" using L P unfolding levels_ok_def by blast
  moreover have "queue_ok es ag out (Suc c) ?q (set v)" using I lev by (auto simp: queue_ok_def)
  ultimately show ?thesis using I by (simp add: bfs_inv_def found_ok_def)
qed

lemma bfs_pop_inv:
  assumes "bfs_inv es ag out A0 c {} ((i, c) # q, v, n, a)"
  shows "bfs_inv es ag out A0 c (set (incoming es i)) (q, v, n, a)"
    and "\<forall>x \<in> set (incoming es i). feeds es ag out x (Suc c)"
proof -
  note I = assms [unfolded bfs_inv_def prod.case]
  have inc: "x \<in> set (incoming es i) \<longleftrightarrow> (x, i) \<in> set es" for x by (force simp: incoming_def)
  have i: "feeds es ag out i c" "i = out \<or> \<not> ag i" using I by (auto simp: queue_ok_def report_agent_def)
  show "\<forall>x \<in> set (incoming es i). feeds es ag out x (Suc c)"
    using feeds_step [OF i] inc by blast
  have "levels_ok es ag out c (set (incoming es i)) q (set v)"
    using I unfolding levels_ok_def by (auto simp: inc)
  moreover have "queue_ok es ag out c q (set v)" using I by (auto simp: queue_ok_def)
  moreover have "n = None \<longrightarrow> closed_ok es ag out (set (incoming es i)) q (set v)"
    using I unfolding closed_ok_def by (auto simp: inc)
  ultimately show "bfs_inv es ag out A0 c (set (incoming es i)) (q, v, n, a)"
    using I by (simp add: bfs_inv_def)
qed

text \<open>The agents of minimal distance.\<close>

definition nearest_agents ::
  "(rstring \<times> rstring) list \<Rightarrow> (rstring \<Rightarrow> bool) \<Rightarrow> rstring \<Rightarrow> rstring set" where
  "nearest_agents es ag out = {y. report_agent ag out y \<and> (\<exists>k. feeds es ag out y k
     \<and> (\<forall>z j. report_agent ag out z \<longrightarrow> feeds es ag out z j \<longrightarrow> k \<le> j))}"

lemma bfs_end:
  assumes "bfs_inv es ag out A0 c {} ([], v, n, a)"
  shows "set a = A0 \<union> nearest_agents es ag out"
proof (cases n)
  case None
  note I = assms [unfolded bfs_inv_def prod.case]
  have "y \<in> set v" if "feeds es ag out y k" for y k
    using that
  proof (induction rule: feeds.induct)
    case feeds_self
    show ?case using I by simp
  next
    case (feeds_step x k y)
    then show ?case using I None by (auto simp: closed_ok_def report_agent_def)
  qed
  then have "nearest_agents es ag out = {}"
    using I None by (auto simp: nearest_agents_def found_ok_def)
  then show ?thesis using I None by (simp add: found_ok_def)
next
  case (Some m)
  note I = assms [unfolded bfs_inv_def prod.case]
  have m: "m = Suc c" and min: "\<And>y j. feeds es ag out y j \<Longrightarrow> report_agent ag out y \<Longrightarrow> m \<le> j"
    and a: "set a = A0 \<union> {y \<in> set v. report_agent ag out y}"
    and sound: "\<And>y. y \<in> set v \<Longrightarrow> report_agent ag out y \<Longrightarrow> feeds es ag out y m"
    using I Some by (auto simp: found_ok_def)
  have lvl: "y \<in> set v" if "feeds es ag out y m" for y using I that m by (auto simp: levels_ok_def)
  obtain z where z: "feeds es ag out z m" "report_agent ag out z"
    using I Some sound by (auto simp: found_ok_def)
  have "y \<in> set v" if y: "report_agent ag out y" "feeds es ag out y k"
    "\<forall>z j. report_agent ag out z \<longrightarrow> feeds es ag out z j \<longrightarrow> k \<le> j" for y k
  proof -
    have "k = m" using y z min [OF y(2) y(1)] by (meson le_antisym)
    then show ?thesis using lvl y(2) by simp
  qed
  then have "nearest_agents es ag out = {y \<in> set v. report_agent ag out y}"
    using sound min unfolding nearest_agents_def by blast
  then show ?thesis using a by simp
qed

lemma bfs_loop_correct:
  "bfs_inv es ag out A0 c {} st \<Longrightarrow> set (bfs_loop ag es st) = A0 \<union> nearest_agents es ag out"
proof (induction ag es st arbitrary: c rule: bfs_loop.induct)
  case (1 ag es v n a)
  then show ?case by (simp add: bfs_end)
next
  case (2 ag es i d q v n a)
  show ?case
  proof (cases "case n of None \<Rightarrow> False | Some m \<Rightarrow> m \<le> d")
    case True
    then obtain m where m: "n = Some m" "m \<le> d" by (auto split: option.splits)
    have "bfs_inv es ag out A0 c {} (q, v, n, a)" using 2(3) bfs_skip_inv m by blast
    with 2(1) [OF True] True show ?thesis by simp
  next
    case False
    have dc: "d = c \<or> d = Suc c" using 2(3) by (auto simp: bfs_inv_def queue_ok_def)
    have "bfs_inv es ag out A0 d {} ((i, d) # q, v, n, a)"
    proof (cases "d = c")
      case True
      with 2(3) show ?thesis by simp
    next
      case ne: False
      then have d: "d = Suc c" using dc by simp
      have "n = None"
        using 2(3) False d by (cases n) (auto simp: bfs_inv_def found_ok_def)
      with 2(3) d show ?thesis using bfs_next_level by blast
    qed
    from bfs_sources_inv [OF bfs_pop_inv [OF this]] 2(2) [OF False] False show ?thesis by simp
  qed
qed

lemma bfs_start: "bfs_inv es ag out (set a) 0 {} ([(out, 0)], [out], None, a)"
proof -
  have z: "y = out" if "feeds es ag out y 0" for y using that by (cases rule: feeds.cases) simp_all
  have s: "(y, out) \<in> set es" if "feeds es ag out y (Suc 0)" for y
    using that z by (auto elim!: feeds_SucE)
  show ?thesis using z s by (auto simp: bfs_inv_def bfs_inv_defs report_agent_def feeds_self)
qed

lemma report_search_set:
  "set (report_search nodes es out acc) = set acc \<union>
     (case node_id out of Some i \<Rightarrow> if html_output out then nearest_agents es (is_agent nodes) i else {}
      | None \<Rightarrow> {})"
  using bfs_loop_correct [OF bfs_start] by (simp add: report_search_def del: bfs_loop.simps split: option.split)

lemma report_search_fold:
  "set (fold (report_search nodes es) outs acc) = set acc \<union>
     {y. \<exists>out \<in> set outs. \<exists>i. html_output out \<and> node_id out = Some i
         \<and> y \<in> nearest_agents es (is_agent nodes) i}"
proof (induction outs arbitrary: acc)
  case (Cons x xs)
  show ?case unfolding fold_simps Cons.IH report_search_set by (auto split: option.splits)
qed simp

section \<open>Keys and edges of a graph\<close>

lemma node_keys_by_id: "i \<in> set (node_keys nodes) \<longleftrightarrow> by_id nodes i \<noteq> None"
proof -
  have "set (node_keys nodes) = {k. \<exists>n \<in> set nodes. node_id n = Some k}"
    by (simp add: node_keys_def set_map_filter)
  moreover have "by_id nodes i \<noteq> None \<longleftrightarrow> (\<exists>n \<in> set nodes. node_id n = Some i)"
    unfolding by_id_def by (force simp: map_of_eq_None_iff set_map_filter image_iff)
  ultimately show ?thesis by simp
qed

lemma edge_ends_known: "edge_ends nodes e = Some (s, t) \<Longrightarrow> by_id nodes s \<noteq> None \<and> by_id nodes t \<noteq> None"
  unfolding edge_ends_def
  by (cases "get_str ''source'' e"; cases "get_str ''target'' e"; simp split: if_splits)

lemma graph_edges_known:
  assumes "(s, t) \<in> set (graph_edges nodes edges)"
  shows "s \<in> set (node_keys nodes) \<and> t \<in> set (node_keys nodes)"
proof -
  obtain e where "edge_ends nodes e = Some (s, t)"
    using assms by (auto simp: graph_edges_def set_map_filter)
  then show ?thesis unfolding node_keys_by_id by (rule edge_ends_known)
qed

lemma perm_okD: "perm_ok p \<Longrightarrow> set (p xs) = set xs" "perm_ok p \<Longrightarrow> distinct (p xs) = distinct xs"
  unfolding perm_ok_def by (metis set_mset_mset, metis distinct_count_atmost_1 set_mset_mset)

lemma topo_ids_loop:
  assumes "perm_ok p1"
  obtains deg vs where "topo_inv (node_keys nodes) (graph_edges nodes edges) [] deg vs"
    "topo_ids p1 p2 nodes edges = vs @ filter (\<lambda>i. i \<notin> set vs) (p2 (node_keys nodes))"
proof -
  let ?ks = "node_keys nodes" and ?es = "graph_edges nodes edges"
  let ?roots = "sort_key (root_rank nodes) (filter (\<lambda>i. indegree ?ks ?es i = Some 0) (p1 ?ks))"
  have "topo_inv ?ks ?es ?roots (indegree ?ks ?es) []"
    by (rule topo_inv_init) (simp add: perm_okD(1) [OF assms])
  then obtain deg where "topo_inv ?ks ?es [] deg (topo_loop ?ks ?es ?roots (indegree ?ks ?es) [])"
    using topo_loop_inv by blast
  then show thesis by (rule that) (simp add: topo_ids_def Let_def)
qed

section \<open>A sample graph\<close>

definition ex_node :: "rstring \<Rightarrow> rstring \<Rightarrow> json" where
  "ex_node i ty = JObject [(''id'', JString i), (''type'', JString ty)]"

definition ex_nodes :: "json list" where
  "ex_nodes = [ex_node ''b'' ''agent'', ex_node ''a'' ''prompt'']"

definition ex_edges :: "json list" where
  "ex_edges = [JObject [(''source'', JString ''a''), (''target'', JString ''b'')]]"

lemmas ex_graph_defs = ex_nodes_def ex_edges_def ex_node_def graph_edges_def edge_ends_def by_id_def
  node_id_def get_str_def List.map_filter_simps

lemma ex_graph: "graph_edges ex_nodes ex_edges = [(''a'', ''b'')]" "node_keys ex_nodes = [''b'', ''a'']"
  by (simp_all add: ex_graph_defs node_keys_def)

lemma ex_order: "topo_ids id id ex_nodes ex_edges = [''a'', ''b'']"
  by (simp add: topo_ids_def Let_def ex_graph indegree_def outgoing_def)

lemma perm_ok_id: "perm_ok id" by (simp add: perm_ok_def)

section \<open>Properties\<close>

text \<open>Property C30 (every node runs exactly once): whatever the edges are, cycles included, and
  whatever order the hash maps are iterated in, the execution order lists each node id of the
  graph exactly once, and every listed id has its node.\<close>

theorem topological_order_is_permutation:
  assumes "perm_ok p1" and "perm_ok p2"
  shows "mset (topo_ids p1 p2 nodes edges) = mset (node_keys nodes)
     \<and> length (topological_order p1 p2 nodes edges) = length (node_keys nodes)"
proof -
  let ?ids = "topo_ids p1 p2 nodes edges" and ?ks = "node_keys nodes"
  obtain deg vs where inv: "topo_inv ?ks (graph_edges nodes edges) [] deg vs"
    and ids: "?ids = vs @ filter (\<lambda>i. i \<notin> set vs) (p2 ?ks)" using assms(1) by (rule topo_ids_loop)
  have d: "distinct ?ks" by (simp add: node_keys_def)
  have "distinct ?ids" using inv d perm_okD(2) [OF assms(2)] by (auto simp: ids topo_inv_def)
  moreover have st: "set ?ids = set ?ks"
    using inv perm_okD(1) [OF assms(2)] by (auto simp: ids topo_inv_def)
  ultimately have m: "mset ?ids = mset ?ks" using d set_eq_iff_mset_eq_distinct by blast
  have "by_id nodes i \<noteq> None" if "i \<in> set ?ids" for i using that st node_keys_by_id by blast
  then have "length (List.map_filter (by_id nodes) ?ids) = length ?ids"
    by (simp add: List.map_filter_def)
  then show ?thesis using m by (metis size_mset topological_order_def)
qed

text \<open>Witness: the sample graph.\<close>

theorem topological_order_is_permutation_witness:
  "mset (topo_ids id id ex_nodes ex_edges) = mset [''a'', ''b'']"
  using topological_order_is_permutation [OF perm_ok_id perm_ok_id, of ex_nodes ex_edges]
  by (simp add: ex_graph)

text \<open>Property C10 (inputs before consumers): on an acyclic graph every node comes after all its
  predecessors in the execution order.\<close>

theorem topological_order_respects_edges:
  assumes "perm_ok p1" and "acyclic (set (graph_edges nodes edges))"
    and "(s, t) \<in> set (graph_edges nodes edges)"
    and "k < length (topo_ids p1 p2 nodes edges)" and "topo_ids p1 p2 nodes edges ! k = t"
  shows "s \<in> set (take k (topo_ids p1 p2 nodes edges))"
proof -
  let ?ks = "node_keys nodes" and ?es = "graph_edges nodes edges"
  obtain deg vs where inv: "topo_inv ?ks ?es [] deg vs"
    and ids: "topo_ids p1 p2 nodes edges = vs @ filter (\<lambda>i. i \<notin> set vs) (p2 ?ks)"
    using assms(1) by (rule topo_ids_loop)
  have "\<forall>(s, t) \<in> set ?es. s \<in> set ?ks" using graph_edges_known by blast
  then have all: "set vs = set ?ks" using topo_all_visited [OF inv assms(2)] by blast
  show ?thesis
  proof (cases "k < length vs")
    case True
    then have "vs ! k = t" using assms(5) ids by (simp add: nth_append)
    moreover have "preds_before ?es vs" using inv by (simp add: topo_inv_def)
    ultimately show ?thesis using True assms(3) by (auto simp: preds_before_def ids)
  next
    case False
    have "t \<in> set vs" using graph_edges_known [OF assms(3)] all by simp
    moreover have "t \<in> set (filter (\<lambda>i. i \<notin> set vs) (p2 ?ks))"
      using False assms(4,5) unfolding ids by (metis in_set_conv_nth length_append less_diff_conv2 linorder_not_less nat_add_left_cancel_less nth_append nth_mem le_add_diff_inverse)
    ultimately show ?thesis by simp
  qed
qed

text \<open>Witness: the consumer of the sample graph is second although it is listed first.\<close>

theorem topological_order_respects_edges_witness:
  "''a'' \<in> set (take 1 (topo_ids id id ex_nodes ex_edges))"
  using topological_order_respects_edges [OF perm_ok_id, of ex_nodes ex_edges "''a''" "''b''" 1 id]
  by (simp add: ex_graph ex_order wf_acyclic)

text \<open>Property C31 (the report is asked of exactly the nearest agents): a node is selected if and only
  if it is an agent at minimal distance upstream of some output that wants an HTML report, where
  the distance counts the edges of a path whose inner nodes are not agents.\<close>

theorem nearest_html_report_agents_correct:
  "y \<in> set (nearest_html_report_agents nodes edges) \<longleftrightarrow>
     (\<exists>out \<in> set nodes. \<exists>i. html_output out \<and> node_id out = Some i
        \<and> y \<in> nearest_agents (graph_edges nodes edges) (is_agent nodes) i)"
  unfolding nearest_html_report_agents_def report_search_fold by simp

end
