(* ===== verification/Memory_Tables.thy ===== *)
theory Memory_Tables
  imports Complex_Main History Rust_Text
begin

text \<open>
  The tables of the durable memory in \<^verbatim>\<open>src-tauri/src/db/schema.sql\<close> and \<^verbatim>\<open>db/migrate.rs\<close>, kept
  beside \<open>db\<close>: the memories, their links, their full-text index, the log of their uses in runs, the
  settings and jobs of the post-run review, the candidates it proposed, and the artifact files that
  large bodies are spilled to. \<open>mem_ok\<close> is the declared schema (keys, \<^verbatim>\<open>CHECK\<close> clauses, references)
  together with what the code keeps itself: the index has exactly one row per memory, with its
  current text, and only an active memory is pinned.

  A confidence is a rational number: rounding and the NaN of \<^verbatim>\<open>f64\<close> are not modelled.
\<close>

section \<open>Enumerations\<close>

datatype MemoryScopeType = ScopeUser | ScopeWorkspace | ScopeWorkflow

fun MemoryScopeType_as_str :: "MemoryScopeType \<Rightarrow> rstring" where
  "MemoryScopeType_as_str ScopeUser = ''user''"
| "MemoryScopeType_as_str ScopeWorkspace = ''workspace''"
| "MemoryScopeType_as_str ScopeWorkflow = ''workflow''"

definition MemoryScopeType_from_db :: "rstring \<Rightarrow> MemoryScopeType option" where
  "MemoryScopeType_from_db s =
     (if s = ''user'' then Some ScopeUser else if s = ''workspace'' then Some ScopeWorkspace
      else if s = ''workflow'' then Some ScopeWorkflow else None)"

datatype MemoryType = Preference | Fact | Decision | Constraint | Lesson | Episode | Checkpoint
  | NoteM | Output | ArtifactM

fun MemoryType_as_str :: "MemoryType \<Rightarrow> rstring" where
  "MemoryType_as_str Preference = ''preference''"
| "MemoryType_as_str Fact = ''fact''"
| "MemoryType_as_str Decision = ''decision''"
| "MemoryType_as_str Constraint = ''constraint''"
| "MemoryType_as_str Lesson = ''lesson''"
| "MemoryType_as_str Episode = ''episode''"
| "MemoryType_as_str Checkpoint = ''checkpoint''"
| "MemoryType_as_str NoteM = ''note''"
| "MemoryType_as_str Output = ''output''"
| "MemoryType_as_str ArtifactM = ''artifact''"

definition MemoryType_from_db :: "rstring \<Rightarrow> MemoryType option" where
  "MemoryType_from_db s = find (\<lambda>t. MemoryType_as_str t = s)
     [Preference, Fact, Decision, Constraint, Lesson, Episode, Checkpoint, NoteM, Output, ArtifactM]"

datatype MemoryStatus = Active | Superseded | Retracted

fun MemoryStatus_as_str :: "MemoryStatus \<Rightarrow> rstring" where
  "MemoryStatus_as_str Active = ''active''"
| "MemoryStatus_as_str Superseded = ''superseded''"
| "MemoryStatus_as_str Retracted = ''retracted''"

definition MemoryStatus_from_db :: "rstring \<Rightarrow> MemoryStatus option" where
  "MemoryStatus_from_db s =
     (if s = ''active'' then Some Active else if s = ''superseded'' then Some Superseded
      else if s = ''retracted'' then Some Retracted else None)"

datatype CandidateOperation = OpCreate | OpSupersede | OpRetract
datatype CandidateStatus = CPending | CApproved | CRejected | CBlocked
datatype ReviewJobStatus = JPending | JRunning | JCompleted | JFailed | JSkipped
datatype RetrievalReason = Lexical | Recent | Pinned

section \<open>Rows\<close>

record Memory =
  mm_id :: rstring
  mm_workflow_id :: "rstring option"
  mm_run_id :: "rstring option"
  mm_node_id :: "rstring option"
  mm_scope_type :: MemoryScopeType
  mm_scope_key :: rstring
  mm_kind :: rstring
  mm_memory_type :: MemoryType
  mm_source :: rstring
  mm_title :: rstring
  mm_body :: rstring
  mm_artifact_path :: "rstring option"
  mm_pinned :: bool
  mm_confidence :: rat
  mm_salience :: int
  mm_status :: MemoryStatus
  mm_supersedes_id :: "rstring option"
  mm_last_confirmed_at :: "rstring option"
  mm_expires_at :: "rstring option"
  mm_created_at :: rstring
  mm_updated_at :: rstring

record link_row =
  ln_id :: rstring
  ln_workflow :: rstring
  ln_memory :: rstring
  ln_created :: rstring

record memory_fts_row =
  mf_memory :: rstring
  mf_workflow :: "rstring option"
  mf_title :: rstring
  mf_body :: rstring

record use_row =
  us_id :: rstring
  us_run :: rstring
  us_node :: rstring
  us_memory :: rstring
  us_rank :: int
  us_score :: rat
  us_reason :: RetrievalReason
  us_bytes :: nat
  us_created :: rstring

record MemoryReviewSettings =
  rs_enabled :: bool
  rs_provider :: "rstring option"
  rs_model :: "rstring option"
  rs_max_candidates :: int
  rs_updated_at :: rstring

record WorkflowMemoryReview =
  wr_workflow_id :: rstring
  wr_enabled :: bool
  wr_updated_at :: rstring

record MemoryReviewJob =
  rj_run_id :: rstring
  rj_workflow_id :: rstring
  rj_status :: ReviewJobStatus
  rj_provider :: rstring
  rj_model :: "rstring option"
  rj_error_code :: "rstring option"
  rj_candidate_count :: nat
  rj_started_at :: "rstring option"
  rj_finished_at :: "rstring option"
  rj_created_at :: rstring

record MemoryCandidate =
  cd_id :: rstring
  cd_review_run_id :: rstring
  cd_workflow_id :: rstring
  cd_source_node_id :: "rstring option"
  cd_operation :: CandidateOperation
  cd_target_memory_id :: "rstring option"
  cd_scope_type :: MemoryScopeType
  cd_scope_key :: rstring
  cd_memory_type :: MemoryType
  cd_title :: rstring
  cd_body :: rstring
  cd_confidence :: rat
  cd_rationale :: rstring
  cd_content_hash :: rstring
  cd_status :: CandidateStatus
  cd_blocked_code :: "rstring option"
  cd_created_at :: rstring
  cd_decided_at :: "rstring option"

record mem =
  memories :: "Memory list"
  memory_links :: "link_row list"
  memory_fts :: "memory_fts_row list"
  run_memory_uses :: "use_row list"
  review_settings :: MemoryReviewSettings
  workflow_memory_review :: "WorkflowMemoryReview list"
  memory_reviews :: "MemoryReviewJob list"
  memory_candidates :: "MemoryCandidate list"
  artifacts :: "rstring \<Rightarrow> rstring option"

type_synonym 'a memres = "(DbError + 'a) \<times> mem"

definition empty_mem :: mem where
  "empty_mem = \<lparr>memories = [], memory_links = [], memory_fts = [], run_memory_uses = [],
     review_settings = \<lparr>rs_enabled = False, rs_provider = None, rs_model = None,
       rs_max_candidates = 5, rs_updated_at = ''1970-01-01T00:00:00Z''\<rparr>,
     workflow_memory_review = [], memory_reviews = [], memory_candidates = [],
     artifacts = (\<lambda>_. None)\<rparr>"

text \<open>The environment of a call: the clock, the parser of timestamps, the data directory (none when
  it cannot be resolved) and the files that can be written.\<close>

record mem_env =
  me_chrono :: chrono
  me_instant :: int
  me_data_dir :: "rstring option"
  me_writable :: "rstring \<Rightarrow> bool"

definition me_now :: "mem_env \<Rightarrow> rstring" where
  "me_now E = to_rfc3339 (me_chrono E) (me_instant E)"

section \<open>The declared schema\<close>

definition memory_ids :: "mem \<Rightarrow> rstring set" where
  "memory_ids m = mm_id ` set (memories m)"

text \<open>The \<^verbatim>\<open>CHECK\<close> clauses of \<^verbatim>\<open>memories\<close>. SQLite's \<^verbatim>\<open>trim\<close> removes spaces only.\<close>

definition scope_check :: "Memory \<Rightarrow> bool" where
  "scope_check r = (case mm_scope_type r of
      ScopeWorkflow \<Rightarrow> mm_workflow_id r = Some (mm_scope_key r)
    | ScopeWorkspace \<Rightarrow> list_ex (\<lambda>c. c \<noteq> CHR '' '') (mm_scope_key r)
    | ScopeUser \<Rightarrow> mm_scope_key r = ''local-user'')"

definition row_check :: "Memory \<Rightarrow> bool" where
  "row_check r = (mm_kind r \<in> {''text'', ''note'', ''artifact''}
     \<and> mm_source r \<in> {''run'', ''manual'', ''import'', ''review''}
     \<and> 0 \<le> mm_confidence r \<and> mm_confidence r \<le> 1
     \<and> 0 \<le> mm_salience r \<and> mm_salience r \<le> 100 \<and> scope_check r)"

definition owner_ok :: "db \<Rightarrow> Memory \<Rightarrow> bool" where
  "owner_ok d r = (case mm_workflow_id r of None \<Rightarrow> True | Some w \<Rightarrow> workflow_exists w d)"

definition supersedes_ok :: "rstring set \<Rightarrow> Memory \<Rightarrow> bool" where
  "supersedes_ok ids r = (case mm_supersedes_id r of None \<Rightarrow> True | Some i \<Rightarrow> i \<in> ids)"

definition rows_ok :: "db \<Rightarrow> Memory list \<Rightarrow> bool" where
  "rows_ok d ms = (distinct (map mm_id ms) \<and> (\<forall>r \<in> set ms. row_check r \<and> owner_ok d r
     \<and> supersedes_ok (mm_id ` set ms) r \<and> (mm_pinned r \<longrightarrow> mm_status r = Active)))"

abbreviation ln_key :: "link_row \<Rightarrow> rstring \<times> rstring" where
  "ln_key l \<equiv> (ln_workflow l, ln_memory l)"

abbreviation us_key :: "use_row \<Rightarrow> rstring \<times> rstring \<times> rstring" where
  "us_key u \<equiv> (us_run u, us_node u, us_memory u)"

abbreviation cd_key :: "MemoryCandidate \<Rightarrow> rstring \<times> rstring" where
  "cd_key c \<equiv> (cd_review_run_id c, cd_content_hash c)"

definition run_exists :: "rstring \<Rightarrow> db \<Rightarrow> bool" where
  "run_exists i d = (i \<in> set (map run_id (runs d)))"

definition links_ok :: "db \<Rightarrow> rstring set \<Rightarrow> link_row list \<Rightarrow> bool" where
  "links_ok d ids ls = (distinct (map ln_id ls) \<and> distinct (map ln_key ls)
     \<and> (\<forall>l \<in> set ls. workflow_exists (ln_workflow l) d \<and> ln_memory l \<in> ids))"

definition uses_ok :: "db \<Rightarrow> rstring set \<Rightarrow> use_row list \<Rightarrow> bool" where
  "uses_ok d ids us = (distinct (map us_id us) \<and> distinct (map us_key us)
     \<and> (\<forall>u \<in> set us. run_exists (us_run u) d \<and> us_memory u \<in> ids))"

definition toggles_ok :: "db \<Rightarrow> WorkflowMemoryReview list \<Rightarrow> bool" where
  "toggles_ok d ws = (distinct (map wr_workflow_id ws) \<and> (\<forall>w \<in> set ws. workflow_exists (wr_workflow_id w) d))"

definition jobs_ok :: "db \<Rightarrow> MemoryReviewJob list \<Rightarrow> bool" where
  "jobs_ok d js = (distinct (map rj_run_id js)
     \<and> (\<forall>j \<in> set js. run_exists (rj_run_id j) d \<and> workflow_exists (rj_workflow_id j) d))"

definition candidates_ok ::
  "db \<Rightarrow> rstring set \<Rightarrow> rstring set \<Rightarrow> MemoryCandidate list \<Rightarrow> bool" where
  "candidates_ok d ids jobs cs = (distinct (map cd_id cs) \<and> distinct (map cd_key cs)
     \<and> (\<forall>c \<in> set cs. workflow_exists (cd_workflow_id c) d \<and> cd_review_run_id c \<in> jobs
          \<and> 0 \<le> cd_confidence c \<and> cd_confidence c \<le> 1
          \<and> (case cd_target_memory_id c of None \<Rightarrow> True | Some i \<Rightarrow> i \<in> ids)))"

text \<open>The index row of a memory, and an index that is right outside the ids \<open>S\<close>.\<close>

definition fts_of :: "Memory \<Rightarrow> memory_fts_row" where
  "fts_of r = \<lparr>mf_memory = mm_id r, mf_workflow = mm_workflow_id r, mf_title = mm_title r,
     mf_body = mm_body r\<rparr>"

definition fts_ok_except :: "rstring set \<Rightarrow> Memory list \<Rightarrow> memory_fts_row list \<Rightarrow> bool" where
  "fts_ok_except S ms fs = (distinct (map mf_memory fs)
     \<and> (\<forall>f \<in> set fs. mf_memory f \<notin> S \<longrightarrow> f \<in> fts_of ` set ms)
     \<and> (\<forall>r \<in> set ms. mm_id r \<notin> S \<longrightarrow> fts_of r \<in> set fs))"

abbreviation fts_ok :: "Memory list \<Rightarrow> memory_fts_row list \<Rightarrow> bool" where
  "fts_ok \<equiv> fts_ok_except {}"

definition mem_ok_except :: "rstring set \<Rightarrow> db \<Rightarrow> mem \<Rightarrow> bool" where
  "mem_ok_except S d m = (rows_ok d (memories m) \<and> links_ok d (memory_ids m) (memory_links m)
     \<and> fts_ok_except S (memories m) (memory_fts m) \<and> uses_ok d (memory_ids m) (run_memory_uses m)
     \<and> toggles_ok d (workflow_memory_review m) \<and> jobs_ok d (memory_reviews m)
     \<and> candidates_ok d (memory_ids m) (rj_run_id ` set (memory_reviews m)) (memory_candidates m))"

abbreviation mem_ok :: "db \<Rightarrow> mem \<Rightarrow> bool" where
  "mem_ok \<equiv> mem_ok_except {}"

lemma mem_ok_empty: "mem_ok d empty_mem"
  by (simp add: mem_ok_except_def empty_mem_def rows_ok_def links_ok_def fts_ok_except_def uses_ok_def
      toggles_ok_def jobs_ok_def candidates_ok_def)

lemma memory_ids_simps [simp]:
  "memory_ids (m\<lparr>memory_links := a\<rparr>) = memory_ids m"
  "memory_ids (m\<lparr>memory_fts := b\<rparr>) = memory_ids m"
  "memory_ids (m\<lparr>run_memory_uses := c\<rparr>) = memory_ids m"
  "memory_ids (m\<lparr>review_settings := s\<rparr>) = memory_ids m"
  "memory_ids (m\<lparr>workflow_memory_review := w\<rparr>) = memory_ids m"
  "memory_ids (m\<lparr>memory_reviews := j\<rparr>) = memory_ids m"
  "memory_ids (m\<lparr>memory_candidates := k\<rparr>) = memory_ids m"
  "memory_ids (m\<lparr>artifacts := f\<rparr>) = memory_ids m"
  "memory_ids (m\<lparr>memories := ms\<rparr>) = mm_id ` set ms"
  by (simp_all add: memory_ids_def)

lemma mem_ok_artifacts [simp]: "mem_ok_except S d (m\<lparr>artifacts := f\<rparr>) = mem_ok_except S d m"
  by (simp add: mem_ok_except_def)

lemma mem_ok_settings [simp]: "mem_ok_except S d (m\<lparr>review_settings := s\<rparr>) = mem_ok_except S d m"
  by (simp add: mem_ok_except_def)

text \<open>References to memories survive when more memories exist.\<close>

lemma links_ok_mono: "links_ok d S ls \<Longrightarrow> S \<subseteq> T \<Longrightarrow> links_ok d T ls"
  by (auto simp: links_ok_def)

lemma uses_ok_mono: "uses_ok d S us \<Longrightarrow> S \<subseteq> T \<Longrightarrow> uses_ok d T us"
  by (auto simp: uses_ok_def)

lemma candidates_ok_mono: "candidates_ok d S J cs \<Longrightarrow> S \<subseteq> T \<Longrightarrow> candidates_ok d T J cs"
  unfolding candidates_ok_def by (auto split: option.splits)

section \<open>The full-text index\<close>

definition delete_memory_index :: "rstring \<Rightarrow> mem \<Rightarrow> mem" where
  "delete_memory_index i m = m\<lparr>memory_fts := filter (\<lambda>f. mf_memory f \<noteq> i) (memory_fts m)\<rparr>"

definition index_memory :: "rstring \<Rightarrow> mem \<Rightarrow> mem" where
  "index_memory i m =
     (let m1 = delete_memory_index i m in
      case find (\<lambda>r. mm_id r = i) (memories m) of
        None \<Rightarrow> m1
      | Some r \<Rightarrow> m1\<lparr>memory_fts := memory_fts m1 @ [fts_of r]\<rparr>)"

lemma fts_of_memory [simp]: "mf_memory (fts_of r) = mm_id r"
  by (simp add: fts_of_def)

lemma index_memory_other [simp]:
  "memories (index_memory i m) = memories m"
  "memory_links (index_memory i m) = memory_links m"
  "run_memory_uses (index_memory i m) = run_memory_uses m"
  "review_settings (index_memory i m) = review_settings m"
  "workflow_memory_review (index_memory i m) = workflow_memory_review m"
  "memory_reviews (index_memory i m) = memory_reviews m"
  "memory_candidates (index_memory i m) = memory_candidates m"
  "artifacts (index_memory i m) = artifacts m"
  by (simp_all add: index_memory_def delete_memory_index_def Let_def split: option.split)

lemma delete_memory_index_other [simp]:
  "memories (delete_memory_index i m) = memories m"
  "memory_links (delete_memory_index i m) = memory_links m"
  "run_memory_uses (delete_memory_index i m) = run_memory_uses m"
  "review_settings (delete_memory_index i m) = review_settings m"
  "workflow_memory_review (delete_memory_index i m) = workflow_memory_review m"
  "memory_reviews (delete_memory_index i m) = memory_reviews m"
  "memory_candidates (delete_memory_index i m) = memory_candidates m"
  "artifacts (delete_memory_index i m) = artifacts m"
  by (simp_all add: delete_memory_index_def)

lemma memory_ids_index [simp]:
  "memory_ids (index_memory i m) = memory_ids m" "memory_ids (delete_memory_index i m) = memory_ids m"
  by (simp_all add: memory_ids_def)

lemma distinct_map_filterI: "distinct (map f xs) \<Longrightarrow> distinct (map f (filter p xs))"
  by (induction xs) auto

text \<open>Indexing a memory repairs exactly its own row.\<close>

lemma index_memory_fts:
  assumes "fts_ok_except S (memories m) (memory_fts m)" and "distinct (map mm_id (memories m))"
  shows "fts_ok_except (S - {i}) (memories m) (memory_fts (index_memory i m))"
proof -
  let ?fs = "filter (\<lambda>f. mf_memory f \<noteq> i) (memory_fts m)"
  have fs: "distinct (map mf_memory (memory_fts m))"
    and old: "\<And>f. f \<in> set (memory_fts m) \<Longrightarrow> mf_memory f \<notin> S \<Longrightarrow> f \<in> fts_of ` set (memories m)"
    and rows: "\<And>r. r \<in> set (memories m) \<Longrightarrow> mm_id r \<notin> S \<Longrightarrow> fts_of r \<in> set (memory_fts m)"
    using assms(1) by (simp_all add: fts_ok_except_def)
  have kept: "r \<in> set (memories m) \<Longrightarrow> mm_id r \<notin> S - {i} \<Longrightarrow> mm_id r \<noteq> i \<Longrightarrow> fts_of r \<in> set ?fs" for r
    using rows [of r] by simp
  have dist: "distinct (map mf_memory ?fs)" using fs by (rule distinct_map_filterI)
  show ?thesis
  proof (cases "find (\<lambda>r. mm_id r = i) (memories m)")
    case None
    then have none: "\<And>r. r \<in> set (memories m) \<Longrightarrow> mm_id r \<noteq> i" by (auto simp: find_None_iff)
    have "memory_fts (index_memory i m) = ?fs" using None by (simp add: index_memory_def delete_memory_index_def)
    with dist old kept none show ?thesis by (auto simp: fts_ok_except_def)
  next
    case (Some r)
    then have r: "r \<in> set (memories m)" "mm_id r = i" by (auto simp: find_Some_iff)
    have only: "s = r" if "s \<in> set (memories m)" "mm_id s = i" for s
      using distinct_map_eq [OF assms(2)] that r by blast
    have new: "memory_fts (index_memory i m) = ?fs @ [fts_of r]"
      using Some by (simp add: index_memory_def delete_memory_index_def)
    have "distinct (map mf_memory (?fs @ [fts_of r]))" using dist r by auto
    moreover have "f \<in> fts_of ` set (memories m)" if "f \<in> set (?fs @ [fts_of r])" "mf_memory f \<notin> S - {i}" for f
      using that old r by auto
    moreover have "fts_of s \<in> set (?fs @ [fts_of r])" if "s \<in> set (memories m)" "mm_id s \<notin> S - {i}" for s
      using that only [of s] kept [of s] by (cases "mm_id s = i") auto
    ultimately show ?thesis unfolding new fts_ok_except_def by blast
  qed
qed

lemma fts_ok_weaken: "fts_ok_except S ms fs \<Longrightarrow> S \<subseteq> T \<Longrightarrow> fts_ok_except T ms fs"
  unfolding fts_ok_except_def by blast

text \<open>Rows that keep what the index shows, and rows that are excepted, may change.\<close>

lemma fts_ok_update:
  assumes "fts_ok_except S ms fs" and "\<And>r. mm_id (f r) = mm_id r"
    and "\<And>r. r \<in> set ms \<Longrightarrow> p r \<Longrightarrow> mm_id r \<in> T"
  shows "fts_ok_except (S \<union> T) (update_where p f ms) fs"
proof -
  have d: "distinct (map mf_memory fs)"
    and old: "\<And>g. g \<in> set fs \<Longrightarrow> mf_memory g \<notin> S \<Longrightarrow> g \<in> fts_of ` set ms"
    and rows: "\<And>r. r \<in> set ms \<Longrightarrow> mm_id r \<notin> S \<Longrightarrow> fts_of r \<in> set fs"
    using assms(1) by (simp_all add: fts_ok_except_def)
  have "g \<in> fts_of ` set (update_where p f ms)" if g: "g \<in> set fs" "mf_memory g \<notin> S \<union> T" for g
  proof -
    from old g obtain r where r: "r \<in> set ms" "g = fts_of r" by auto
    with g assms(3) [of r] have "\<not> p r" by auto
    with r show ?thesis by (auto simp: set_update_where)
  qed
  moreover have "fts_of r \<in> set fs" if r: "r \<in> set (update_where p f ms)" "mm_id r \<notin> S \<union> T" for r
  proof -
    from r(1) consider s where "s \<in> set ms" "p s" "r = f s" | "r \<in> set ms" "\<not> p r"
      by (auto simp: set_update_where)
    then show ?thesis
    proof cases
      case 1
      then have "mm_id r \<in> T" using assms(2,3) by simp
      with r show ?thesis by simp
    next
      case 2
      with rows r show ?thesis by simp
    qed
  qed
  ultimately show ?thesis using d unfolding fts_ok_except_def by blast
qed

lemma fts_ok_append: "fts_ok_except S ms fs \<Longrightarrow> mm_id r \<in> S \<Longrightarrow> fts_ok_except S (ms @ [r]) fs"
  unfolding fts_ok_except_def by auto

section \<open>Preservation\<close>

lemma mem_ok_index: "mem_ok_except S d m \<Longrightarrow> mem_ok_except (S - {i}) d (index_memory i m)"
  using index_memory_fts [of S m i] by (simp add: mem_ok_except_def rows_ok_def)

lemma mem_ok_weaken: "mem_ok_except S d m \<Longrightarrow> S \<subseteq> T \<Longrightarrow> mem_ok_except T d m"
  using fts_ok_weaken by (auto simp: mem_ok_except_def)

lemma mem_ok_fold_index:
  "mem_ok_except S d m \<Longrightarrow> mem_ok_except (S - set is) d (fold index_memory is m)"
proof (induction "is" arbitrary: S m)
  case (Cons i "is")
  from mem_ok_index [OF Cons.prems, of i] have "mem_ok_except (S - {i} - set is) d (fold index_memory is (index_memory i m))"
    by (rule Cons.IH)
  then show ?case by (simp add: insert_Diff_if Diff_insert2 [symmetric])
qed simp

text \<open>A row may be added, and rows may change where their clauses still hold.\<close>

definition row_ok :: "db \<Rightarrow> rstring set \<Rightarrow> Memory \<Rightarrow> bool" where
  "row_ok d ids r = (row_check r \<and> owner_ok d r \<and> supersedes_ok ids r \<and> (mm_pinned r \<longrightarrow> mm_status r = Active))"

lemma rows_ok_row_ok:
  "rows_ok d ms \<longleftrightarrow> distinct (map mm_id ms) \<and> (\<forall>r \<in> set ms. row_ok d (mm_id ` set ms) r)"
  by (auto simp: rows_ok_def row_ok_def)

lemma row_ok_mono: "row_ok d S r \<Longrightarrow> S \<subseteq> T \<Longrightarrow> row_ok d T r"
  by (auto simp: row_ok_def supersedes_ok_def split: option.splits)

lemma mem_ok_insert:
  assumes "mem_ok_except S d m" and "mm_id r \<notin> memory_ids m" and "row_ok d (insert (mm_id r) (memory_ids m)) r"
  shows "mem_ok_except (insert (mm_id r) S) d (m\<lparr>memories := memories m @ [r]\<rparr>)"
proof -
  let ?ids = "insert (mm_id r) (memory_ids m)"
  have ids: "mm_id ` set (memories m @ [r]) = ?ids" by (auto simp: memory_ids_def)
  have sub: "memory_ids m \<subseteq> ?ids" by blast
  have "rows_ok d (memories m @ [r])"
    using assms row_ok_mono [OF _ sub] unfolding rows_ok_row_ok ids mem_ok_except_def
    by (auto simp: memory_ids_def)
  moreover have "fts_ok_except (insert (mm_id r) S) (memories m @ [r]) (memory_fts m)"
    using assms(1) by (intro fts_ok_append) (auto simp: mem_ok_except_def intro: fts_ok_weaken)
  ultimately show ?thesis
    using assms(1) links_ok_mono [OF _ sub] uses_ok_mono [OF _ sub] candidates_ok_mono [OF _ sub]
    by (simp add: mem_ok_except_def ids del: set_append)
qed

lemma mem_ok_update:
  assumes "mem_ok_except S d m" and "\<And>r. p r \<Longrightarrow> mm_id (f r) = mm_id r"
    and "\<And>r. r \<in> set (memories m) \<Longrightarrow> p r \<Longrightarrow> row_ok d (memory_ids m) r \<Longrightarrow> row_ok d (memory_ids m) (f r) \<and> mm_id r \<in> T"
  shows "mem_ok_except (S \<union> T) d (m\<lparr>memories := update_where p f (memories m)\<rparr>)"
proof -
  let ?g = "\<lambda>r. if p r then f r else r"
  have g: "update_where p f (memories m) = update_where p ?g (memories m)"
    by (simp add: update_where_def)
  have id: "mm_id (?g r) = mm_id r" for r using assms(2) by simp
  have keys: "map mm_id (update_where p ?g (memories m)) = map mm_id (memories m)"
    using id by (rule map_update_where)
  then have ids: "mm_id ` set (update_where p ?g (memories m)) = memory_ids m"
    unfolding memory_ids_def set_map [symmetric] by (simp only:)
  have old: "distinct (map mm_id (memories m))" "\<forall>r \<in> set (memories m). row_ok d (memory_ids m) r"
    using assms(1) by (simp_all add: mem_ok_except_def rows_ok_row_ok memory_ids_def)
  have "row_ok d (memory_ids m) r" if "r \<in> set (update_where p ?g (memories m))" for r
    using that old(2) assms(3) by (auto simp: set_update_where)
  then have "rows_ok d (update_where p ?g (memories m))"
    unfolding rows_ok_row_ok ids keys using old(1) by blast
  moreover have "fts_ok_except (S \<union> T) (update_where p ?g (memories m)) (memory_fts m)"
  proof (rule fts_ok_update)
    show "fts_ok_except S (memories m) (memory_fts m)" using assms(1) by (simp add: mem_ok_except_def)
    show "mm_id (?g r) = mm_id r" for r by (rule id)
    show "mm_id r \<in> T" if "r \<in> set (memories m)" "p r" for r using assms(3) old(2) that by blast
  qed
  ultimately show ?thesis
    using assms(1) unfolding g by (simp add: mem_ok_except_def ids)
qed

end
