(* ===== verification/Memory_Curation.thy ===== *)
theory Memory_Curation
  imports Memory_Retrieval Agents
begin

text \<open>
  Post-run memory review, \<^verbatim>\<open>db/memory_curation.rs\<close>: the opt-in settings, one review job per run, the
  digest of the run that the reviewer reads, the validation of what it proposes, and the candidates
  that a user approves or rejects. Canonical memory changes only by an approval.

  Parameters: SHA-256, Unicode lower case, and serde's derived parser of the reviewer's answer, which
  accepts exactly the wire shape of the code's structures.
\<close>

definition REVIEW_DIGEST_MAX_BYTES :: nat where "REVIEW_DIGEST_MAX_BYTES = 32 * 1024"
definition DIGEST_LEAF_MAX_BYTES :: nat where "DIGEST_LEAF_MAX_BYTES = 2 * 1024"
definition DIGEST_MIN_FIT_BYTES :: nat where "DIGEST_MIN_FIT_BYTES = 200"
definition CANDIDATE_TITLE_MAX_CHARS :: nat where "CANDIDATE_TITLE_MAX_CHARS = 120"
definition CANDIDATE_BODY_MAX_BYTES :: nat where "CANDIDATE_BODY_MAX_BYTES = 1200"
definition CANDIDATE_RATIONALE_MAX_BYTES :: nat where "CANDIDATE_RATIONALE_MAX_BYTES = 500"
definition MAX_CANDIDATES_PER_REVIEW :: nat where "MAX_CANDIDATES_PER_REVIEW = 5"
definition MODEL_FIELD_MAX_CHARS :: nat where "MODEL_FIELD_MAX_CHARS = 200"

definition REVIEW_ERROR_AUTH_REQUIRED :: rstring where "REVIEW_ERROR_AUTH_REQUIRED = ''auth_required''"
definition REVIEW_ERROR_PROVIDER_UNAVAILABLE :: rstring where
  "REVIEW_ERROR_PROVIDER_UNAVAILABLE = ''provider_unavailable''"
definition REVIEW_ERROR_TIMEOUT :: rstring where "REVIEW_ERROR_TIMEOUT = ''timeout''"
definition REVIEW_ERROR_INVALID_RESPONSE :: rstring where "REVIEW_ERROR_INVALID_RESPONSE = ''invalid_response''"
definition REVIEW_ERROR_INTERNAL :: rstring where "REVIEW_ERROR_INTERNAL = ''internal''"

fun CandidateOperation_as_str :: "CandidateOperation \<Rightarrow> rstring" where
  "CandidateOperation_as_str OpCreate = ''create''"
| "CandidateOperation_as_str OpSupersede = ''supersede''"
| "CandidateOperation_as_str OpRetract = ''retract''"

definition CandidateOperation_from_db :: "rstring \<Rightarrow> CandidateOperation option" where
  "CandidateOperation_from_db s = find (\<lambda>x. CandidateOperation_as_str x = s) [OpCreate, OpSupersede, OpRetract]"

fun CandidateStatus_as_str :: "CandidateStatus \<Rightarrow> rstring" where
  "CandidateStatus_as_str CPending = ''pending''"
| "CandidateStatus_as_str CApproved = ''approved''"
| "CandidateStatus_as_str CRejected = ''rejected''"
| "CandidateStatus_as_str CBlocked = ''blocked''"

definition CandidateStatus_from_db :: "rstring \<Rightarrow> CandidateStatus option" where
  "CandidateStatus_from_db s = find (\<lambda>x. CandidateStatus_as_str x = s) [CPending, CApproved, CRejected, CBlocked]"

record ReviewerSuggestionRaw =
  su_operation :: CandidateOperation
  su_target_memory_id :: "rstring option"
  su_scope_type :: MemoryScopeType
  su_memory_type :: MemoryType
  su_title :: rstring
  su_body :: rstring
  su_confidence :: rat
  su_rationale :: rstring

record ValidatedCandidate =
  vc_operation :: CandidateOperation
  vc_target_memory_id :: "rstring option"
  vc_scope_type :: MemoryScopeType
  vc_scope_key :: rstring
  vc_memory_type :: MemoryType
  vc_title :: rstring
  vc_body :: rstring
  vc_confidence :: rat
  vc_rationale :: rstring
  vc_content_hash :: rstring
  vc_source_node_id :: "rstring option"

record UpdateMemoryReviewSettingsInput =
  us_set_enabled :: bool
  us_set_provider :: "rstring option"
  us_set_model :: "rstring option"
  us_set_max_candidates :: "int option"

record UpdateMemoryCandidateInput =
  uc_id :: rstring
  uc_title :: "rstring option"
  uc_body :: "rstring option"
  uc_scope_type :: "MemoryScopeType option"
  uc_memory_type :: "MemoryType option"

text \<open>The external functions and the environment of a call.\<close>

record cur_env =
  cv_env :: mem_env
  cv_serde :: serde
  cv_sha256 :: "rstring \<Rightarrow> rstring"
  cv_lower :: "rstring \<Rightarrow> rstring"
  cv_parse :: "rstring \<Rightarrow> ReviewerSuggestionRaw list option"

section \<open>Settings\<close>

definition clean_opt :: "rstring option \<Rightarrow> rstring option" where
  "clean_opt x = (case x of None \<Rightarrow> None | Some v \<Rightarrow> if trim v = [] then None else Some (trim v))"

definition update_memory_review_settings ::
  "cur_env \<Rightarrow> UpdateMemoryReviewSettingsInput \<Rightarrow> mem \<Rightarrow> MemoryReviewSettings memres" where
  "update_memory_review_settings V inp m =
     (let provider = clean_opt (us_set_provider inp); model = clean_opt (us_set_model inp);
          max_candidates = unwrap_or 5 (us_set_max_candidates inp) in
      if provider \<noteq> None \<and> Option.bind provider AgentProvider_from_str = None
      then (Inl (Other ''invalid_memory_review_provider''), m)
      else if us_set_enabled inp \<and> provider = None
      then (Inl (Other ''memory_review_provider_required''), m)
      else if (case model of None \<Rightarrow> False | Some v \<Rightarrow> MODEL_FIELD_MAX_CHARS < char_count v)
      then (Inl (Other ''invalid_memory_review_model''), m)
      else if \<not> (1 \<le> max_candidates \<and> max_candidates \<le> int MAX_CANDIDATES_PER_REVIEW)
      then (Inl (Other ''invalid_memory_review_max_candidates''), m)
      else let s = \<lparr>rs_enabled = us_set_enabled inp, rs_provider = provider, rs_model = model,
             rs_max_candidates = max_candidates, rs_updated_at = me_now (cv_env V)\<rparr>
           in (Inr s, m\<lparr>review_settings := s\<rparr>))"

definition get_workflow_memory_review :: "rstring \<Rightarrow> mem \<Rightarrow> WorkflowMemoryReview option" where
  "get_workflow_memory_review w m = find (\<lambda>x. wr_workflow_id x = w) (workflow_memory_review m)"

definition set_workflow_memory_review ::
  "cur_env \<Rightarrow> rstring \<Rightarrow> bool \<Rightarrow> db \<Rightarrow> mem \<Rightarrow> WorkflowMemoryReview memres" where
  "set_workflow_memory_review V w enabled d m =
     (if get_workflow (cv_serde V) w d = None then (Inl (Other (''workflow not found: '' @ w)), m)
      else let x = \<lparr>wr_workflow_id = w, wr_enabled = enabled, wr_updated_at = me_now (cv_env V)\<rparr>
           in (Inr x, m\<lparr>workflow_memory_review :=
                if get_workflow_memory_review w m = None then workflow_memory_review m @ [x]
                else update_where (\<lambda>y. wr_workflow_id y = w) (\<lambda>_. x) (workflow_memory_review m)\<rparr>))"

section \<open>Candidates as rows\<close>

definition list_memory_candidates :: "rstring \<Rightarrow> CandidateStatus option \<Rightarrow> mem \<Rightarrow> MemoryCandidate list" where
  "list_memory_candidates w st m = sort_desc (\<lambda>c. (cd_created_at c, cd_id c))
     (filter (\<lambda>c. cd_workflow_id c = w \<and> (st = None \<or> st = Some (cd_status c))) (memory_candidates m))"

definition count_pending_memory_candidates :: "rstring \<Rightarrow> mem \<Rightarrow> nat" where
  "count_pending_memory_candidates w m =
     length (filter (\<lambda>c. cd_workflow_id c = w \<and> cd_status c = CPending) (memory_candidates m))"

definition get_memory_candidate :: "rstring \<Rightarrow> mem \<Rightarrow> MemoryCandidate option" where
  "get_memory_candidate i m = find (\<lambda>c. cd_id c = i) (memory_candidates m)"

definition mark_candidate_decided ::
  "mem_env \<Rightarrow> rstring \<Rightarrow> CandidateStatus \<Rightarrow> rstring option \<Rightarrow> mem \<Rightarrow> DbError + mem" where
  "mark_candidate_decided E i st code m =
     (let p = (\<lambda>c. cd_id c = i \<and> cd_status c = CPending) in
      if \<not> list_ex p (memory_candidates m) then Inl (Other ''candidate_not_pending'')
      else Inr (m\<lparr>memory_candidates := update_where p
        (\<lambda>c. c\<lparr>cd_status := st, cd_blocked_code := coalesce code (cd_blocked_code c),
               cd_decided_at := Some (me_now E)\<rparr>) (memory_candidates m)\<rparr>))"

definition loaded_candidate :: "rstring \<Rightarrow> mem \<Rightarrow> DbError + MemoryCandidate" where
  "loaded_candidate i m = (case get_memory_candidate i m of
      None \<Rightarrow> Inl (Other ''candidate_not_found'') | Some c \<Rightarrow> Inr c)"

definition reject_memory_candidate :: "mem_env \<Rightarrow> rstring \<Rightarrow> mem \<Rightarrow> MemoryCandidate memres" where
  "reject_memory_candidate E i m =
     (case get_memory_candidate i m of
        None \<Rightarrow> (Inl (Other ''candidate_not_found''), m)
      | Some c \<Rightarrow>
          if cd_status c \<noteq> CPending then (Inl (Other ''candidate_not_pending''), m)
          else (case mark_candidate_decided E i CRejected None m of
              Inl e \<Rightarrow> (Inl e, m) | Inr m1 \<Rightarrow> (loaded_candidate i m1, m1)))"

definition clear_decided_memory_candidates :: "rstring \<Rightarrow> mem \<Rightarrow> nat \<times> mem" where
  "clear_decided_memory_candidates w m =
     (let p = (\<lambda>c. cd_workflow_id c = w \<and> cd_status c \<noteq> CPending) in
      (length (filter p (memory_candidates m)),
       m\<lparr>memory_candidates := filter (\<lambda>c. \<not> p c) (memory_candidates m)\<rparr>))"

section \<open>Identity of a candidate\<close>

definition collapsed :: "rstring \<Rightarrow> rstring" where
  "collapsed b = join '' '' (split_whitespace (normalize_body b))"

definition candidate_content_hash :: "cur_env \<Rightarrow> rstring \<Rightarrow> rstring \<Rightarrow> MemoryType \<Rightarrow> rstring" where
  "candidate_content_hash V body key t = cv_sha256 V
     (collapsed body @ [CHR 0x1F] @ key @ [CHR 0x1F] @ MemoryType_as_str t)"

definition active_duplicate_hash ::
  "cur_env \<Rightarrow> MemoryScopeType \<Rightarrow> rstring \<Rightarrow> MemoryType \<Rightarrow> rstring \<Rightarrow> mem \<Rightarrow> bool" where
  "active_duplicate_hash V t key ty hash m = list_ex
     (\<lambda>r. mm_scope_type r = t \<and> mm_scope_key r = key \<and> mm_memory_type r = ty \<and> mm_status r = Active
        \<and> candidate_content_hash V (collapsed (mm_body r)) key ty = hash) (memories m)"

definition pending_candidate_hash ::
  "MemoryScopeType \<Rightarrow> rstring \<Rightarrow> MemoryType \<Rightarrow> rstring \<Rightarrow> rstring option \<Rightarrow> mem \<Rightarrow> bool" where
  "pending_candidate_hash t key ty hash exclude m = list_ex
     (\<lambda>c. cd_scope_type c = t \<and> cd_scope_key c = key \<and> cd_memory_type c = ty \<and> cd_content_hash c = hash
        \<and> cd_status c = CPending \<and> (exclude = None \<or> exclude \<noteq> Some (cd_id c))) (memory_candidates m)"

definition resolve_scope_key :: "MemoryScopeType \<Rightarrow> rstring \<Rightarrow> rstring option \<Rightarrow> rstring + rstring" where
  "resolve_scope_key t w dir = (case t of
      ScopeUser \<Rightarrow> Inr ''local-user'' | ScopeWorkflow \<Rightarrow> Inr w
    | ScopeWorkspace \<Rightarrow> (case dir of None \<Rightarrow> Inl ''scope_unresolvable'' | Some k \<Rightarrow> Inr k))"

section \<open>Screening\<close>

text \<open>The scalar value that a chunk of bytes encodes.\<close>

definition code_point :: "rstring \<Rightarrow> nat" where
  "code_point u = (case map of_char u :: nat list of
      [a] \<Rightarrow> a
    | [a, b] \<Rightarrow> (a - 192) * 64 + (b - 128)
    | [a, b, c] \<Rightarrow> (a - 224) * 4096 + (b - 128) * 64 + (c - 128)
    | [a, b, c, e] \<Rightarrow> (a - 240) * 262144 + (b - 128) * 4096 + (c - 128) * 64 + (e - 128)
    | _ \<Rightarrow> 0)"

definition invisible_char :: "rstring \<Rightarrow> bool" where
  "invisible_char u = (u \<noteq> nl \<and> u \<noteq> [CHR 0x09] \<and> (is_control u
     \<or> (let c = code_point u in (0x202A \<le> c \<and> c \<le> 0x202E) \<or> (0x2066 \<le> c \<and> c \<le> 0x2069)
          \<or> (0x200B \<le> c \<and> c \<le> 0x200F) \<or> (0xE0000 \<le> c \<and> c \<le> 0xE007F))))"

definition strip_control_chars :: "rstring \<Rightarrow> rstring" where
  "strip_control_chars s = concat (filter (\<lambda>u. \<not> invisible_char u) (uchars s))"

definition contains_screened_characters :: "rstring \<Rightarrow> bool" where
  "contains_screened_characters s = list_ex (\<lambda>u. invisible_char u \<or> code_point u = 0xFEFF) (uchars s)"

definition SECRET_KEY_FRAGMENTS :: "rstring list" where
  "SECRET_KEY_FRAGMENTS = [''token'', ''secret'', ''password'', ''passwd'', ''pwd'', ''api_key'', ''apikey'',
     ''access_key'', ''client_secret'', ''private_key'', ''auth_code'', ''authorization_code'', ''credential'']"

definition SECRET_TOKEN_PREFIXES :: "rstring list" where
  "SECRET_TOKEN_PREFIXES = [''sk-'', ''sk-ant-'', ''sk-proj-'', ''ghp_'', ''gho_'', ''ghu_'', ''ghs_'',
     ''github_pat_'', ''xoxb-'', ''xoxp-'', ''xoxa-'', ''xoxs-'', ''akia'', ''aiza'', ''glpat-'', ''npm_'',
     ''dop_v1_'', ''shpat_'', ''hf_'', ''r8_'', ''sq0atp-'', ''eaac'', ''ya29.'']"

text \<open>\<^verbatim>\<open>str::find\<close>, the byte index of the first match.\<close>

fun find_str :: "rstring \<Rightarrow> rstring \<Rightarrow> nat option" where
  "find_str [] p = (if p = [] then Some 0 else None)"
| "find_str (c # cs) p = (if prefix p (c # cs) then Some 0 else map_option Suc (find_str cs p))"

definition word_byte :: "char \<Rightarrow> bool" where
  "word_byte c = (ascii_alphanumeric c \<or> c = CHR ''_'')"

text \<open>Whether the key that starts at \<open>start\<close> is assigned a value.\<close>

definition assignment_at :: "rstring \<Rightarrow> nat \<Rightarrow> bool" where
  "assignment_at s start =
     ((start = 0 \<or> \<not> word_byte (s ! (start - 1)))
      \<and> (let rest = uchars (drop start s); key = concat (takeWhile (\<lambda>u. \<not> is_ws u) rest);
             after = trim_start (concat (dropWhile (\<lambda>u. \<not> is_ws u) rest))
         in CHR ''='' \<in> set key \<or> CHR '':'' \<in> set key \<or> prefix ''='' after \<or> prefix '':'' after))"

text \<open>The loop over the occurrences of a fragment; whether it ends is a theorem.\<close>

partial_function (option) scan_fragment :: "rstring \<Rightarrow> rstring \<Rightarrow> nat \<Rightarrow> bool option" where
  "scan_fragment s fragment offset = (case find_str (drop offset s) fragment of
      None \<Rightarrow> Some False
    | Some rel \<Rightarrow>
        if assignment_at s (offset + rel) then Some True
        else scan_fragment s fragment (offset + rel + length fragment))"

definition contains_secret_like_material :: "cur_env \<Rightarrow> rstring \<Rightarrow> bool" where
  "contains_secret_like_material V value =
     (let s = cv_lower V value in
      (contains s ''-----begin'' \<and> contains s ''private key'')
      \<or> (contains s ''authorization:'' \<and> (contains s ''bearer'' \<or> contains s ''basic''))
      \<or> list_ex (\<lambda>f. scan_fragment s f 0 = Some True) SECRET_KEY_FRAGMENTS
      \<or> list_ex (\<lambda>w. list_ex (\<lambda>p. prefix p w) SECRET_TOKEN_PREFIXES) (split_whitespace s))"

definition INSTRUCTION_PHRASES :: "rstring list" where
  "INSTRUCTION_PHRASES = [''ignore previous instructions'', ''ignore all previous'', ''ignore the above'',
     ''disregard previous'', ''disregard all'', ''forget your instructions'', ''forget everything'',
     ''you are now'', ''act as if you'', ''pretend to be'', ''new instructions:'', ''system prompt'',
     ''developer message'', ''override your instructions'', ''override the rules'',
     ''your instructions have changed'', ''grant you access'', ''grant access'', ''grant permission'',
     ''elevate your permissions'', ''you have permission to'', ''reveal your'', ''reveal the system'',
     ''print your api key'', ''output your key'', ''show your instructions'', ''exfiltrate'',
     ''send your credentials'', ''run this command'', ''execute the following command'', ''| sh'', ''| bash'',
     ''rm -rf'', ''base64 -d'']"

definition is_instruction_language_body :: "cur_env \<Rightarrow> rstring \<Rightarrow> bool" where
  "is_instruction_language_body V body =
     (let sentences = filter (\<lambda>s. s \<noteq> []) (map trim (split_by (\<lambda>u. u \<in> {''.'', ''!'', ''?'', '';'', nl})
            (uchars (cv_lower V body)) []));
          flagged = length (filter (\<lambda>s. list_ex (contains s) INSTRUCTION_PHRASES) sentences)
      in sentences \<noteq> [] \<and> 0 < flagged \<and> length sentences \<le> flagged * 2)"

section \<open>Validation\<close>

text \<open>\<open>rx_visible\<close> is none for an edit by the user, where the target was proven visible before.\<close>

record CandidateReviewContext =
  rx_workflow_id :: rstring
  rx_working_directory :: "rstring option"
  rx_visible :: "rstring list option"
  rx_exclude_pending_id :: "rstring option"

definition validate_candidate_title :: "rstring \<Rightarrow> rstring + rstring" where
  "validate_candidate_title t = (let t = trim t in
     if t = [] \<or> CANDIDATE_TITLE_MAX_CHARS < char_count t then Inl ''invalid_title''
     else case validate_title t of Inl _ \<Rightarrow> Inl ''invalid_title'' | Inr _ \<Rightarrow> Inr t)"

definition validate_target ::
  "mem_env \<Rightarrow> CandidateReviewContext \<Rightarrow> ReviewerSuggestionRaw \<Rightarrow> rstring \<Rightarrow> mem \<Rightarrow> rstring + rstring option" where
  "validate_target E X s key m =
     (case su_operation s of
        OpCreate \<Rightarrow> if su_target_memory_id s \<noteq> None then Inl ''target_forbidden'' else Inr None
      | _ \<Rightarrow> (case map_option trim (su_target_memory_id s) of
            None \<Rightarrow> Inl ''target_required''
          | Some i \<Rightarrow>
              if i = [] then Inl ''target_required''
              else if (case rx_visible X of None \<Rightarrow> False | Some ids \<Rightarrow> i \<notin> set ids) then Inl ''target_not_visible''
              else (case get_memory i m of
                  None \<Rightarrow> Inl ''target_missing''
                | Some r \<Rightarrow>
                    if mm_status r \<noteq> Active \<or> is_expired E r then Inl ''target_inactive''
                    else if mm_scope_type r \<noteq> su_scope_type s \<or> mm_scope_key r \<noteq> key
                    then Inl ''target_scope_mismatch'' else Inr (Some i))))"

definition screen_candidate :: "cur_env \<Rightarrow> rstring \<Rightarrow> rstring \<Rightarrow> rstring \<Rightarrow> rstring option" where
  "screen_candidate V title body rationale =
     (if list_ex contains_screened_characters [title, body, rationale] then Some ''invisible_characters''
      else if contains_secret_like_material V title \<or> contains_secret_like_material V body
      then Some ''secret_like_content''
      else if is_instruction_language_body V body then Some ''instruction_language'' else None)"

definition validate_candidate_suggestion ::
  "cur_env \<Rightarrow> CandidateReviewContext \<Rightarrow> ReviewerSuggestionRaw \<Rightarrow> mem \<Rightarrow> rstring + ValidatedCandidate" where
  "validate_candidate_suggestion V X s m =
     (case validate_candidate_title (su_title s) of Inl e \<Rightarrow> Inl e | Inr title \<Rightarrow>
      (let body = trim (su_body s); rationale = trim (su_rationale s) in
       if body = [] \<or> CANDIDATE_BODY_MAX_BYTES < length body then Inl ''invalid_body''
       else if rationale = [] \<or> CANDIDATE_RATIONALE_MAX_BYTES < length rationale then Inl ''invalid_rationale''
       else if \<not> (0 \<le> su_confidence s \<and> su_confidence s \<le> 1) then Inl ''invalid_confidence''
       else case resolve_scope_key (su_scope_type s) (rx_workflow_id X) (rx_working_directory X) of
           Inl e \<Rightarrow> Inl e
         | Inr key \<Rightarrow>
           (case validate_target (cv_env V) X s key m of Inl e \<Rightarrow> Inl e | Inr target \<Rightarrow>
            (case screen_candidate V title body rationale of Some e \<Rightarrow> Inl e | None \<Rightarrow>
             (let hash = candidate_content_hash V body key (su_memory_type s) in
              if active_duplicate_hash V (su_scope_type s) key (su_memory_type s) hash m
              then Inl ''duplicate_content''
              else if pending_candidate_hash (su_scope_type s) key (su_memory_type s) hash
                        (rx_exclude_pending_id X) m
              then Inl ''duplicate_pending''
              else Inr \<lparr>vc_operation = su_operation s, vc_target_memory_id = target,
                vc_scope_type = su_scope_type s, vc_scope_key = key, vc_memory_type = su_memory_type s,
                vc_title = title, vc_body = body, vc_confidence = su_confidence s, vc_rationale = rationale,
                vc_content_hash = hash, vc_source_node_id = None\<rparr>)))))"

section \<open>Edits, approvals and rejections\<close>

definition update_candidates :: "(MemoryCandidate \<Rightarrow> bool) \<Rightarrow> (MemoryCandidate \<Rightarrow> MemoryCandidate) \<Rightarrow> mem \<Rightarrow> DbError + mem" where
  "update_candidates p f m =
     (let cs = update_where p f (memory_candidates m) in
      if \<not> distinct (map cd_key cs) then Inl unique_failed
      else if \<not> list_ex p (memory_candidates m) then Inl (Other ''candidate_not_editable'')
      else Inr (m\<lparr>memory_candidates := cs\<rparr>))"

definition update_memory_candidate ::
  "cur_env \<Rightarrow> UpdateMemoryCandidateInput \<Rightarrow> db \<Rightarrow> mem \<Rightarrow> MemoryCandidate memres" where
  "update_memory_candidate V inp d m =
     (case get_memory_candidate (uc_id inp) m of
        None \<Rightarrow> (Inl (Other ''candidate_not_found''), m)
      | Some c \<Rightarrow>
        if cd_status c \<noteq> CPending then (Inl (Other ''candidate_not_editable''), m)
        else (case memory_context (cv_serde V) (cd_workflow_id c) d of
            Inl e \<Rightarrow> (Inl e, m)
          | Inr cx \<Rightarrow>
            (let s = \<lparr>su_operation = cd_operation c, su_target_memory_id = cd_target_memory_id c,
                   su_scope_type = unwrap_or (cd_scope_type c) (uc_scope_type inp),
                   su_memory_type = unwrap_or (cd_memory_type c) (uc_memory_type inp),
                   su_title = unwrap_or (cd_title c) (uc_title inp), su_body = unwrap_or (cd_body c) (uc_body inp),
                   su_confidence = cd_confidence c, su_rationale = cd_rationale c\<rparr>;
                 X = \<lparr>rx_workflow_id = mx_workflow_id cx, rx_working_directory = mx_working_directory cx,
                   rx_visible = None, rx_exclude_pending_id = Some (cd_id c)\<rparr>
             in case validate_candidate_suggestion V X s m of
                  Inl code \<Rightarrow> (Inl (Other code), m)
                | Inr v \<Rightarrow>
                  (case update_candidates (\<lambda>x. cd_id x = uc_id inp \<and> cd_status x = CPending)
                          (\<lambda>x. x\<lparr>cd_scope_type := vc_scope_type v, cd_scope_key := vc_scope_key v,
                             cd_memory_type := vc_memory_type v, cd_title := vc_title v, cd_body := vc_body v,
                             cd_content_hash := vc_content_hash v\<rparr>) m of
                     Inl e \<Rightarrow> (Inl e, m)
                   | Inr m1 \<Rightarrow> (loaded_candidate (uc_id inp) m1, m1)))))"

text \<open>Applying an approved candidate: a value of the inner sum is the code it is blocked with.\<close>

definition approved_target ::
  "mem_env \<Rightarrow> MemoryCandidate \<Rightarrow> mem \<Rightarrow> rstring + rstring option" where
  "approved_target E c m =
     (if cd_operation c = OpCreate
      then (if cd_target_memory_id c \<noteq> None then Inl ''target_forbidden'' else Inr None)
      else (case cd_target_memory_id c of
          None \<Rightarrow> Inl ''target_required''
        | Some i \<Rightarrow> (case get_memory i m of
            None \<Rightarrow> Inl ''target_missing''
          | Some r \<Rightarrow>
              if mm_status r \<noteq> Active \<or> is_expired E r then Inl ''target_inactive''
              else if mm_scope_type r \<noteq> cd_scope_type c \<or> mm_scope_key r \<noteq> cd_scope_key c
              then Inl ''target_scope_mismatch'' else Inr (Some i))))"

definition record_of_candidate :: "mem_env \<Rightarrow> rstring \<Rightarrow> MemoryCandidate \<Rightarrow> rstring option \<Rightarrow> Memory" where
  "record_of_candidate E fresh c target = \<lparr>mm_id = fresh, mm_workflow_id = Some (cd_workflow_id c),
     mm_run_id = Some (cd_review_run_id c), mm_node_id = cd_source_node_id c,
     mm_scope_type = cd_scope_type c, mm_scope_key = cd_scope_key c, mm_kind = ''text'',
     mm_memory_type = cd_memory_type c, mm_source = ''review'', mm_title = cd_title c, mm_body = cd_body c,
     mm_artifact_path = None, mm_pinned = False, mm_confidence = cd_confidence c, mm_salience = 50,
     mm_status = Active, mm_supersedes_id = (if cd_operation c = OpSupersede then target else None),
     mm_last_confirmed_at = None, mm_expires_at = None, mm_created_at = me_now E, mm_updated_at = me_now E\<rparr>"

definition retract_target :: "rstring \<Rightarrow> rstring \<Rightarrow> mem \<Rightarrow> mem" where
  "retract_target i now m = index_memory i
     (m\<lparr>memories := update_where (\<lambda>x. mm_id x = i)
          (\<lambda>x. x\<lparr>mm_status := Retracted, mm_pinned := False, mm_updated_at := now\<rparr>) (memories m)\<rparr>)"

definition apply_approved_candidate ::
  "cur_env \<Rightarrow> rstring \<Rightarrow> MemoryContext \<Rightarrow> MemoryCandidate \<Rightarrow> db \<Rightarrow> mem \<Rightarrow> DbError + (rstring + unit) \<times> mem" where
  "apply_approved_candidate V fresh cx c d m =
     (case resolve_scope_key (cd_scope_type c) (mx_workflow_id cx) (mx_working_directory cx) of
        Inl code \<Rightarrow> Inl (Other code)
      | Inr key \<Rightarrow>
        if key \<noteq> cd_scope_key c then Inr (Inl ''target_scope_mismatch'', m)
        else (case approved_target (cv_env V) c m of
            Inl code \<Rightarrow> Inr (Inl code, m)
          | Inr target \<Rightarrow>
            if active_duplicate_hash V (cd_scope_type c) (cd_scope_key c) (cd_memory_type c)
                 (candidate_content_hash V (cd_body c) (cd_scope_key c) (cd_memory_type c)) m
            then Inr (Inl ''duplicate_content'', m)
            else (case cd_operation c of
                OpRetract \<Rightarrow> Inr (Inr (), retract_target (unwrap_or [] target) (me_now (cv_env V)) m)
              | _ \<Rightarrow> (case write_canonical_memory d (record_of_candidate (cv_env V) fresh c target) m of
                  Inl e \<Rightarrow> Inl e | Inr m1 \<Rightarrow> Inr (Inr (), m1)))))"

definition approve_memory_candidate ::
  "cur_env \<Rightarrow> rstring \<Rightarrow> rstring \<Rightarrow> db \<Rightarrow> mem \<Rightarrow> MemoryCandidate memres" where
  "approve_memory_candidate V fresh i d m =
     (case get_memory_candidate i m of
        None \<Rightarrow> (Inl (Other ''candidate_not_found''), m)
      | Some c \<Rightarrow>
        if cd_status c \<noteq> CPending then (Inl (Other ''candidate_not_pending''), m)
        else (case memory_context (cv_serde V) (cd_workflow_id c) d of
            Inl e \<Rightarrow> (Inl e, m)
          | Inr cx \<Rightarrow>
            (case apply_approved_candidate V fresh cx c d m of
               Inl e \<Rightarrow> (Inl e, m)
             | Inr (x, m1) \<Rightarrow>
               (case mark_candidate_decided (cv_env V) i (case x of Inr _ \<Rightarrow> CApproved | Inl _ \<Rightarrow> CBlocked)
                       (case x of Inr _ \<Rightarrow> None | Inl code \<Rightarrow> Some code) m1 of
                  Inl e \<Rightarrow> (Inl e, m)
                | Inr m2 \<Rightarrow> (loaded_candidate i m2, m2)))))"

section \<open>Review jobs\<close>

definition get_memory_review_job :: "rstring \<Rightarrow> mem \<Rightarrow> MemoryReviewJob option" where
  "get_memory_review_job i m = find (\<lambda>j. rj_run_id j = i) (memory_reviews m)"

text \<open>A negative \<^verbatim>\<open>LIMIT\<close> is no limit in SQLite.\<close>

definition list_memory_reviews :: "rstring \<Rightarrow> int \<Rightarrow> mem \<Rightarrow> MemoryReviewJob list" where
  "list_memory_reviews w limit m =
     (let js = sort_desc (\<lambda>j. (rj_created_at j, rj_run_id j)) (filter (\<lambda>j. rj_workflow_id j = w) (memory_reviews m))
      in if limit < 0 then js else take (nat limit) js)"

definition update_jobs :: "(MemoryReviewJob \<Rightarrow> bool) \<Rightarrow> (MemoryReviewJob \<Rightarrow> MemoryReviewJob) \<Rightarrow> mem \<Rightarrow> (bool \<times> mem)" where
  "update_jobs p f m = (list_ex p (memory_reviews m), m\<lparr>memory_reviews := update_where p f (memory_reviews m)\<rparr>)"

abbreviation job_is :: "rstring \<Rightarrow> ReviewJobStatus \<Rightarrow> MemoryReviewJob \<Rightarrow> bool" where
  "job_is i st j \<equiv> rj_run_id j = i \<and> rj_status j = st"

definition retry_memory_review :: "rstring \<Rightarrow> mem \<Rightarrow> MemoryReviewJob memres" where
  "retry_memory_review i m =
     (case get_memory_review_job i m of
        None \<Rightarrow> (Inl (Other ''review_not_found''), m)
      | Some j \<Rightarrow>
        if rj_status j \<noteq> JFailed then (Inl (Other ''review_retry_not_allowed''), m)
        else if \<not> rs_enabled (review_settings m) then (Inl (Other ''memory_review_disabled''), m)
        else if Option.bind (rs_provider (review_settings m)) AgentProvider_from_str = None
        then (Inl (Other ''memory_review_provider_required''), m)
        else (case update_jobs (job_is i JFailed)
                (\<lambda>j. j\<lparr>rj_status := JPending, rj_error_code := None, rj_started_at := None,
                       rj_finished_at := None\<rparr>) m of
            (changed, m1) \<Rightarrow>
              if \<not> changed then (Inl (Other ''review_retry_not_allowed''), m)
              else (case get_memory_review_job i m1 of
                  None \<Rightarrow> (Inl (Other ''review_not_found''), m1) | Some j1 \<Rightarrow> (Inr j1, m1))))"

definition candidate_of_validated ::
  "rstring \<Rightarrow> rstring \<Rightarrow> rstring \<Rightarrow> rstring \<Rightarrow> ValidatedCandidate \<Rightarrow> MemoryCandidate" where
  "candidate_of_validated fresh run w now v = \<lparr>cd_id = fresh, cd_review_run_id = run, cd_workflow_id = w,
     cd_source_node_id = vc_source_node_id v, cd_operation = vc_operation v,
     cd_target_memory_id = vc_target_memory_id v, cd_scope_type = vc_scope_type v,
     cd_scope_key = vc_scope_key v, cd_memory_type = vc_memory_type v, cd_title = vc_title v,
     cd_body = vc_body v, cd_confidence = vc_confidence v, cd_rationale = vc_rationale v,
     cd_content_hash = vc_content_hash v, cd_status = CPending, cd_blocked_code = None,
     cd_created_at = now, cd_decided_at = None\<rparr>"

text \<open>\<^verbatim>\<open>INSERT OR IGNORE\<close> skips a row that breaks a key or a \<^verbatim>\<open>CHECK\<close>; a broken reference still fails.\<close>

definition insert_candidate :: "db \<Rightarrow> MemoryCandidate \<Rightarrow> mem \<Rightarrow> DbError + nat \<times> mem" where
  "insert_candidate d c m =
     (if cd_id c \<in> cd_id ` set (memory_candidates m) \<or> cd_key c \<in> cd_key ` set (memory_candidates m)
        \<or> \<not> (0 \<le> cd_confidence c \<and> cd_confidence c \<le> 1)
      then Inr (0, m)
      else if \<not> workflow_exists (cd_workflow_id c) d
        \<or> cd_review_run_id c \<notin> rj_run_id ` set (memory_reviews m)
        \<or> (case cd_target_memory_id c of None \<Rightarrow> False | Some i \<Rightarrow> i \<notin> memory_ids m)
      then Inl fk_failed
      else Inr (1, m\<lparr>memory_candidates := memory_candidates m @ [c]\<rparr>))"

fun insert_candidates_conn :: "db \<Rightarrow> MemoryCandidate list \<Rightarrow> mem \<Rightarrow> DbError + nat \<times> mem" where
  "insert_candidates_conn d [] m = Inr (0, m)"
| "insert_candidates_conn d (c # cs) m = (case insert_candidate d c m of
      Inl e \<Rightarrow> Inl e
    | Inr (n, m1) \<Rightarrow> (case insert_candidates_conn d cs m1 of
        Inl e \<Rightarrow> Inl e | Inr (k, m2) \<Rightarrow> Inr (n + k, m2)))"

definition finalize_review_success ::
  "mem_env \<Rightarrow> rstring list \<Rightarrow> rstring \<Rightarrow> rstring \<Rightarrow> ValidatedCandidate list \<Rightarrow> db \<Rightarrow> mem \<Rightarrow> nat memres" where
  "finalize_review_success E fresh run w vs d m =
     (case insert_candidates_conn d
             (map (\<lambda>(i, v). candidate_of_validated i run w (me_now E) v) (zip fresh vs)) m of
        Inl e \<Rightarrow> (Inl e, m)
      | Inr (n, m1) \<Rightarrow>
        (case update_jobs (job_is run JRunning)
                (\<lambda>j. j\<lparr>rj_status := JCompleted, rj_candidate_count := n, rj_finished_at := Some (me_now E)\<rparr>) m1 of
           (changed, m2) \<Rightarrow> if changed then (Inr n, m2) else (Inl (Other ''review_not_running''), m)))"

definition fail_memory_review :: "mem_env \<Rightarrow> rstring \<Rightarrow> rstring \<Rightarrow> mem \<Rightarrow> unit memres" where
  "fail_memory_review E run code m =
     (case update_jobs (job_is run JRunning)
             (\<lambda>j. j\<lparr>rj_status := JFailed, rj_error_code := Some code, rj_finished_at := Some (me_now E)\<rparr>) m of
        (changed, m1) \<Rightarrow> if changed then (Inr (), m1) else (Inl (Other ''review_not_running''), m))"

definition claim_memory_review :: "mem_env \<Rightarrow> rstring \<Rightarrow> mem \<Rightarrow> bool \<times> mem" where
  "claim_memory_review E run m = update_jobs (job_is run JPending)
     (\<lambda>j. j\<lparr>rj_status := JRunning, rj_started_at := Some (me_now E)\<rparr>) m"

definition ensure_memory_review_job ::
  "mem_env \<Rightarrow> rstring \<Rightarrow> rstring \<Rightarrow> rstring \<Rightarrow> rstring option \<Rightarrow> db \<Rightarrow> mem \<Rightarrow> bool memres" where
  "ensure_memory_review_job E run w provider model d m =
     (if run \<in> rj_run_id ` set (memory_reviews m) then (Inr False, m)
      else if \<not> run_exists run d \<or> \<not> workflow_exists w d then (Inl fk_failed, m)
      else (Inr True, m\<lparr>memory_reviews := memory_reviews m @ [\<lparr>rj_run_id = run, rj_workflow_id = w,
        rj_status = JPending, rj_provider = provider, rj_model = model, rj_error_code = None,
        rj_candidate_count = 0, rj_started_at = None, rj_finished_at = None,
        rj_created_at = me_now E\<rparr>]\<rparr>))"


section \<open>The secret screen ends and misses no assignment\<close>

text \<open>A word without a border cannot overlap itself, so skipping past a match skips no match.\<close>

definition border_free :: "rstring \<Rightarrow> bool" where
  "border_free f = (f \<noteq> [] \<and> list_all (\<lambda>k. take (length f - k) f \<noteq> drop k f) [1..<length f])"

lemma find_str_None: "find_str s f = None \<longleftrightarrow> (\<forall>i \<le> length s. \<not> prefix f (drop i s))"
proof (induction s)
  case (Cons c cs)
  have "(\<forall>i \<le> length (c # cs). \<not> prefix f (drop i (c # cs)))
      \<longleftrightarrow> \<not> prefix f (c # cs) \<and> (\<forall>i \<le> length cs. \<not> prefix f (drop i cs))"
    unfolding less_Suc_eq_le [symmetric] list.size add_0_right add_Suc_right All_less_Suc2 by simp
  with Cons show ?case by simp
qed auto

lemma find_str_Some:
  "find_str s f = Some i \<Longrightarrow> i \<le> length s \<and> prefix f (drop i s) \<and> (\<forall>j < i. \<not> prefix f (drop j s))"
proof (induction s arbitrary: i)
  case (Cons c cs)
  show ?case
  proof (cases "prefix f (c # cs)")
    case False
    with Cons.prems obtain k where k: "find_str cs f = Some k" "i = Suc k" by auto
    with Cons.IH [OF k(1)] False show ?thesis by (auto simp: All_less_Suc2)
  qed (use Cons.prems in auto)
qed (auto split: if_splits)

lemma border_free_no_overlap:
  assumes "border_free f" and "prefix f s" and "prefix f (drop k s)" and "k < length f"
  shows "k = 0"
proof (rule ccontr)
  assume "k \<noteq> 0"
  obtain t where t: "s = f @ t" using assms(2) by (auto elim: prefixE)
  obtain u where u: "drop k s = f @ u" using assms(3) by (auto elim: prefixE)
  have "take (length f - k) (f @ u) = take (length f - k) (drop k f @ t)"
    using t u assms(4) by (metis drop_append diff_is_0_eq' drop_0 less_imp_le)
  then have "take (length f - k) f = drop k f" by simp
  moreover have "k \<in> set [1..<length f]" using assms(4) \<open>k \<noteq> 0\<close> by simp
  ultimately show False using assms(1) unfolding border_free_def list_all_iff by blast
qed

definition assigned_after :: "rstring \<Rightarrow> rstring \<Rightarrow> nat \<Rightarrow> bool" where
  "assigned_after s f o' = (\<exists>i \<ge> o'. prefix f (drop i s) \<and> assignment_at s i)"

lemma scan_fragment_total:
  assumes "border_free f"
  shows "scan_fragment s f off = Some (assigned_after s f off)"
proof (induction "length s - off" arbitrary: off rule: less_induct)
  case less
  have ne: "f \<noteq> []" using assms by (simp add: border_free_def)
  show ?case
  proof (cases "find_str (drop off s) f")
    case None
    have "\<not> prefix f (drop i s)" if "off \<le> i" for i
    proof (cases "i \<le> length s")
      case True
      with None that show ?thesis
        by (metis find_str_None drop_drop le_add_diff_inverse2 diff_le_mono length_drop)
    qed (use ne in auto)
    then have "\<not> assigned_after s f off" by (auto simp: assigned_after_def)
    with None show ?thesis by (simp add: scan_fragment.simps [of s f off])
  next
    case (Some rel)
    note at = find_str_Some [OF Some]
    let ?i = "off + rel"
    have here: "prefix f (drop ?i s)" using at by (simp add: add.commute)
    have before: "\<not> prefix f (drop i s)" if "off \<le> i" "i < ?i" for i
      using at that by (metis drop_drop le_add_diff_inverse2 less_diff_conv2 add.commute)
    show ?thesis
    proof (cases "assignment_at s ?i")
      case True
      then have "assigned_after s f off" using here by (auto simp: assigned_after_def intro: exI [of _ ?i])
      with True Some show ?thesis by (simp add: scan_fragment.simps [of s f off])
    next
      case False
      have "prefix f (drop ?i s) \<Longrightarrow> ?i < length s" using ne by (cases "?i < length s") auto
      with here ne have shorter: "length s - (?i + length f) < length s - off"
        by (simp add: diff_less_mono2 trans_less_add1)
      have "i \<ge> ?i + length f" if i: "off \<le> i" "prefix f (drop i s)" "assignment_at s i" for i
      proof (rule ccontr)
        assume "\<not> ?thesis"
        moreover have "?i \<le> i" using before i by (metis not_le)
        ultimately have "i - ?i < length f" "drop (i - ?i) (drop ?i s) = drop i s" by simp_all
        then have "i - ?i = 0" using i(2) by (intro border_free_no_overlap [OF assms here]) (simp_all only:)
        with \<open>?i \<le> i\<close> have "i = ?i" by simp
        with False i(3) show False by simp
      qed
      then have "assigned_after s f off = assigned_after s f (?i + length f)"
        unfolding assigned_after_def by (metis le_add1 le_trans add.assoc)
      with less.hyps [OF shorter] False Some show ?thesis by (simp add: scan_fragment.simps [of s f off])
    qed
  qed
qed

lemma fragments_border_free: "list_all border_free SECRET_KEY_FRAGMENTS"
  by code_simp


text \<open>An assignment to a name that only ends in a key fragment, such as \<^verbatim>\<open>GITHUB_TOKEN=\<close>, passes.\<close>

lemma assigned_after_code:
  "f \<noteq> [] \<Longrightarrow> assigned_after s f 0 = list_ex (\<lambda>i. prefix f (drop i s) \<and> assignment_at s i) [0..<length s]"
proof -
  assume "f \<noteq> []"
  then have "i < length s" if "prefix f (drop i s)" for i
    using that by (cases "i < length s") auto
  then show ?thesis unfolding assigned_after_def list_ex_iff by fastforce
qed

lemma no_fragment_assigned:
  "list_all (\<lambda>f. f \<noteq> [] \<and> \<not> list_ex (\<lambda>i. prefix f (drop i s) \<and> assignment_at s i) [0..<length s]) SECRET_KEY_FRAGMENTS
     \<Longrightarrow> \<not> list_ex (\<lambda>f. scan_fragment s f 0 = Some True) SECRET_KEY_FRAGMENTS"
  using fragments_border_free by (auto simp: list_all_iff list_ex_iff scan_fragment_total assigned_after_code)

theorem suffixed_secret_name_passes:
  assumes "cv_lower V ''GITHUB_TOKEN=abc'' = ''github_token=abc''"
  shows "\<not> contains_secret_like_material V ''GITHUB_TOKEN=abc''"
proof -
  let ?s = "''github_token=abc''"
  have "list_all (\<lambda>f. f \<noteq> [] \<and> \<not> list_ex (\<lambda>i. prefix f (drop i ?s) \<and> assignment_at ?s i) [0..<length ?s])
      SECRET_KEY_FRAGMENTS"
    by code_simp
  moreover have "\<not> contains ?s ''-----begin''" "\<not> contains ?s ''authorization:''" by code_simp+
  moreover have "\<not> list_ex (\<lambda>w. list_ex (\<lambda>p. prefix p w) SECRET_TOKEN_PREFIXES) (split_whitespace ?s)" by code_simp
  ultimately show ?thesis
    unfolding contains_secret_like_material_def Let_def assms using no_fragment_assigned [of ?s] by blast
qed

section \<open>Review never breaks the tables\<close>

lemma mem_ok_candidates:
  "mem_ok d (m\<lparr>memory_candidates := cs\<rparr>) \<longleftrightarrow> mem_ok d (m\<lparr>memory_candidates := []\<rparr>)
     \<and> candidates_ok d (memory_ids m) (rj_run_id ` set (memory_reviews m)) cs"
  by (auto simp: mem_ok_except_def candidates_ok_def)

lemma mem_ok_no_candidates: "mem_ok d m \<Longrightarrow> mem_ok d (m\<lparr>memory_candidates := []\<rparr>)"
  by (auto simp: mem_ok_except_def candidates_ok_def)

lemma mem_ok_candidatesD:
  "mem_ok d m \<Longrightarrow> candidates_ok d (memory_ids m) (rj_run_id ` set (memory_reviews m)) (memory_candidates m)"
  by (simp add: mem_ok_except_def)

lemma mem_ok_set_candidates:
  "mem_ok d m \<Longrightarrow> candidates_ok d (memory_ids m) (rj_run_id ` set (memory_reviews m)) cs
     \<Longrightarrow> mem_ok d (m\<lparr>memory_candidates := cs\<rparr>)"
  using mem_ok_candidates mem_ok_no_candidates by blast

text \<open>An update of candidates that keeps keys and references, or drops references.\<close>

lemma candidates_ok_update:
  assumes "candidates_ok d I J cs" and "distinct (map cd_key (update_where p f cs))"
    and "\<And>c. cd_id (f c) = cd_id c \<and> cd_workflow_id (f c) = cd_workflow_id c
      \<and> cd_review_run_id (f c) = cd_review_run_id c \<and> cd_confidence (f c) = cd_confidence c
      \<and> cd_target_memory_id (f c) = cd_target_memory_id c"
  shows "candidates_ok d I J (update_where p f cs)"
proof -
  have "map cd_id (update_where p f cs) = map cd_id cs" using assms(3) by (intro map_update_where) simp
  with assms show ?thesis unfolding candidates_ok_def by (auto simp: set_update_where simp del: map_update_where)
qed

lemma mark_candidate_decided_ok:
  assumes "mem_ok d m" and "mark_candidate_decided E i st code m = Inr m1"
  shows "mem_ok d m1"
proof -
  let ?p = "\<lambda>c. cd_id c = i \<and> cd_status c = CPending"
  let ?f = "\<lambda>c. c\<lparr>cd_status := st, cd_blocked_code := coalesce code (cd_blocked_code c), cd_decided_at := Some (me_now E)\<rparr>"
  have m1: "m1 = m\<lparr>memory_candidates := update_where ?p ?f (memory_candidates m)\<rparr>"
    using assms(2) by (simp add: mark_candidate_decided_def Let_def split: if_splits)
  have keys: "map cd_key (update_where ?p ?f (memory_candidates m)) = map cd_key (memory_candidates m)"
    by (rule map_update_where) simp
  have "candidates_ok d (memory_ids m) (rj_run_id ` set (memory_reviews m)) (update_where ?p ?f (memory_candidates m))"
    using mem_ok_candidatesD [OF assms(1)] by (intro candidates_ok_update) (auto simp: keys candidates_ok_def)
  then show ?thesis unfolding m1 by (rule mem_ok_set_candidates [OF assms(1)])
qed

lemma reject_memory_candidate_ok: "mem_ok d m \<Longrightarrow> mem_ok d (snd (reject_memory_candidate E i m))"
  using mark_candidate_decided_ok [of d m E i CRejected None]
  by (auto simp: reject_memory_candidate_def split: option.split sum.split)

lemma update_memory_candidate_ok: "mem_ok d m \<Longrightarrow> mem_ok d (snd (update_memory_candidate V inp d m))"
proof -
  assume ok: "mem_ok d m"
  have "mem_ok d m1" if "update_candidates p (\<lambda>x. x\<lparr>cd_scope_type := a1, cd_scope_key := a2, cd_memory_type := a3,
      cd_title := a4, cd_body := a5, cd_content_hash := a6\<rparr>) m = Inr m1" for m1 p a1 a2 a3 a4 a5 a6
  proof -
    let ?f = "\<lambda>x. x\<lparr>cd_scope_type := a1, cd_scope_key := a2, cd_memory_type := a3,
      cd_title := a4, cd_body := a5, cd_content_hash := a6\<rparr>"
    from that have d: "distinct (map cd_key (update_where p ?f (memory_candidates m)))"
      and m1: "m1 = m\<lparr>memory_candidates := update_where p ?f (memory_candidates m)\<rparr>"
      by (auto simp: update_candidates_def Let_def split: if_splits)
    have "candidates_ok d (memory_ids m) (rj_run_id ` set (memory_reviews m)) (update_where p ?f (memory_candidates m))"
      by (rule candidates_ok_update [OF mem_ok_candidatesD [OF ok] d]) simp
    then show ?thesis unfolding m1 by (rule mem_ok_set_candidates [OF ok])
  qed
  with ok show ?thesis by (simp add: update_memory_candidate_def Let_def split: option.split sum.split)
qed

lemma clear_decided_ok: "mem_ok d m \<Longrightarrow> mem_ok d (snd (clear_decided_memory_candidates w m))"
  using mem_ok_candidatesD [of d m] unfolding clear_decided_memory_candidates_def Let_def snd_conv
  by (intro mem_ok_set_candidates) (auto simp: candidates_ok_def intro: distinct_map_filterI)

lemma settings_ok: "mem_ok d m \<Longrightarrow> mem_ok d (snd (update_memory_review_settings V inp m))"
  by (simp add: update_memory_review_settings_def Let_def)

lemma mem_ok_set_reviews:
  assumes "mem_ok d m" and "jobs_ok d js" and "rj_run_id ` set (memory_reviews m) \<subseteq> rj_run_id ` set js"
  shows "mem_ok d (m\<lparr>memory_reviews := js\<rparr>)"
  using assms by (auto simp: mem_ok_except_def candidates_ok_def)

lemma update_jobs_ok:
  assumes "mem_ok d m" and "\<And>j. rj_run_id (f j) = rj_run_id j \<and> rj_workflow_id (f j) = rj_workflow_id j"
  shows "mem_ok d (snd (update_jobs p f m))"
proof -
  have keys: "map rj_run_id (update_where p f (memory_reviews m)) = map rj_run_id (memory_reviews m)"
    using assms(2) by (intro map_update_where) simp
  then have ids: "rj_run_id ` set (update_where p f (memory_reviews m)) = rj_run_id ` set (memory_reviews m)"
    by (metis set_map)
  have "jobs_ok d (update_where p f (memory_reviews m))"
    using assms unfolding jobs_ok_def keys by (auto simp: mem_ok_except_def jobs_ok_def set_update_where)
  then show ?thesis
    unfolding update_jobs_def snd_conv by (rule mem_ok_set_reviews [OF assms(1)]) (simp only: ids order_refl)
qed

lemma retry_memory_review_ok: "mem_ok d m \<Longrightarrow> mem_ok d (snd (retry_memory_review i m))"
  using update_jobs_ok [of d m "\<lambda>j. j\<lparr>rj_status := JPending, rj_error_code := None, rj_started_at := None,
      rj_finished_at := None\<rparr>" "job_is i JFailed"]
  by (auto simp: retry_memory_review_def split: option.split prod.split)

lemma fail_memory_review_ok: "mem_ok d m \<Longrightarrow> mem_ok d (snd (fail_memory_review E run code m))"
  using update_jobs_ok [of d m "\<lambda>j. j\<lparr>rj_status := JFailed, rj_error_code := Some code,
      rj_finished_at := Some (me_now E)\<rparr>" "job_is run JRunning"]
  by (auto simp: fail_memory_review_def split: prod.split)

lemma claim_memory_review_ok: "mem_ok d m \<Longrightarrow> mem_ok d (snd (claim_memory_review E run m))"
  unfolding claim_memory_review_def by (rule update_jobs_ok) simp_all

lemma ensure_memory_review_job_ok:
  assumes "mem_ok d m"
  shows "mem_ok d (snd (ensure_memory_review_job E run w prov model d m))"
proof -
  have "mem_ok d (m\<lparr>memory_reviews := memory_reviews m @ [j]\<rparr>)"
    if "rj_run_id j \<notin> rj_run_id ` set (memory_reviews m)" "run_exists (rj_run_id j) d"
      "workflow_exists (rj_workflow_id j) d" for j
    using that assms by (intro mem_ok_set_reviews) (auto simp: mem_ok_except_def jobs_ok_def)
  with assms show ?thesis by (simp add: ensure_memory_review_job_def)
qed

lemma set_workflow_memory_review_ok:
  assumes "mem_ok d m"
  shows "mem_ok d (snd (set_workflow_memory_review V w b d m))"
proof -
  let ?x = "\<lparr>wr_workflow_id = w, wr_enabled = b, wr_updated_at = me_now (cv_env V)\<rparr>"
  have old: "toggles_ok d (workflow_memory_review m)" using assms by (simp add: mem_ok_except_def)
  have keys: "map wr_workflow_id (update_where (\<lambda>y. wr_workflow_id y = w) (\<lambda>y. ?x) ts) = map wr_workflow_id ts" for ts
    by (simp add: update_where_def)
  have "toggles_ok d (if get_workflow_memory_review w m = None then workflow_memory_review m @ [?x]
      else update_where (\<lambda>y. wr_workflow_id y = w) (\<lambda>_. ?x) (workflow_memory_review m))"
    if "get_workflow (cv_serde V) w d \<noteq> None"
  proof -
    have "workflow_exists w d" using that by (auto simp: get_workflow_def workflow_exists_def find_None_iff)
    with old keys show ?thesis
      by (auto simp: toggles_ok_def get_workflow_memory_review_def find_None_iff set_update_where)
  qed
  with assms show ?thesis by (auto simp: set_workflow_memory_review_def Let_def mem_ok_except_def)
qed

lemma insert_candidate_cases:
  assumes "insert_candidate d c m = Inr (n, m1)"
  obtains "m1 = m" "n = 0" | "m1 = m\<lparr>memory_candidates := memory_candidates m @ [c]\<rparr>" "n = 1"
    "cd_id c \<notin> cd_id ` set (memory_candidates m)" "cd_key c \<notin> cd_key ` set (memory_candidates m)"
    "0 \<le> cd_confidence c" "cd_confidence c \<le> 1" "workflow_exists (cd_workflow_id c) d"
    "cd_review_run_id c \<in> rj_run_id ` set (memory_reviews m)"
    "case cd_target_memory_id c of None \<Rightarrow> True | Some i \<Rightarrow> i \<in> memory_ids m"
proof (cases "cd_id c \<in> cd_id ` set (memory_candidates m) \<or> cd_key c \<in> cd_key ` set (memory_candidates m)
    \<or> \<not> (0 \<le> cd_confidence c \<and> cd_confidence c \<le> 1)")
  case True
  with assms that(1) show ?thesis by (simp only: insert_candidate_def if_True sum.inject prod.inject)
next
  case new: False
  let ?bad = "\<not> workflow_exists (cd_workflow_id c) d \<or> cd_review_run_id c \<notin> rj_run_id ` set (memory_reviews m)
    \<or> (case cd_target_memory_id c of None \<Rightarrow> False | Some i \<Rightarrow> i \<notin> memory_ids m)"
  from assms new have ok: "\<not> ?bad"
    and m1: "n = 1" "m1 = m\<lparr>memory_candidates := memory_candidates m @ [c]\<rparr>"
    unfolding insert_candidate_def by (metis if_False if_True sum.distinct(1) sum.inject(2) prod.inject)+
  have "case cd_target_memory_id c of None \<Rightarrow> True | Some i \<Rightarrow> i \<in> memory_ids m"
    using ok by (simp split: option.splits)
  with new ok m1 show ?thesis by (intro that(2)) blast+
qed

lemma insert_candidate_ok:
  assumes "mem_ok d m" and "insert_candidate d c m = Inr (n, m1)"
  shows "mem_ok d m1"
  using assms(2)
proof (cases rule: insert_candidate_cases)
  case 2
  have "candidates_ok d (memory_ids m) (rj_run_id ` set (memory_reviews m)) (memory_candidates m @ [c])"
    using mem_ok_candidatesD [OF assms(1)] 2 unfolding candidates_ok_def by auto
  with assms(1) show ?thesis unfolding 2(1) by (rule mem_ok_set_candidates)
qed (use assms in simp)

text \<open>What the insertion leaves: the old candidates and some of the new ones, as many as it counts.\<close>

lemma insert_candidates_appends:
  "insert_candidates_conn d cs m = Inr (n, m1) \<Longrightarrow> \<exists>ds. m1 = m\<lparr>memory_candidates := memory_candidates m @ ds\<rparr>
     \<and> subseq ds cs \<and> length ds = n"
proof (induction cs arbitrary: m n)
  case (Cons c cs)
  from Cons.prems obtain a k m2 where 1: "insert_candidate d c m = Inr (a, m2)"
    and 2: "insert_candidates_conn d cs m2 = Inr (k, m1)" and n: "n = a + k"
    by (auto split: sum.splits prod.splits)
  from Cons.IH [OF 2] obtain ds where ds: "m1 = m2\<lparr>memory_candidates := memory_candidates m2 @ ds\<rparr>"
    "subseq ds cs" "length ds = k" by blast
  from 1 show ?case
  proof (cases rule: insert_candidate_cases)
    case 1
    then show ?thesis using ds n by (intro exI [of _ ds]) (auto intro: list_emb_Cons)
  next
    case 2
    then show ?thesis using ds n by (intro exI [of _ "c # ds"]) auto
  qed
qed simp

lemma insert_candidates_ok: "mem_ok d m \<Longrightarrow> insert_candidates_conn d cs m = Inr (n, m1) \<Longrightarrow> mem_ok d m1"
proof (induction cs arbitrary: m n)
  case (Cons c cs)
  from Cons.prems(2) obtain a k m2 where 1: "insert_candidate d c m = Inr (a, m2)"
    and 2: "insert_candidates_conn d cs m2 = Inr (k, m1)"
    by (auto split: sum.splits prod.splits)
  from Cons.IH [OF insert_candidate_ok [OF Cons.prems(1) 1] 2] show ?case .
qed simp

lemma finalize_review_success_ok:
  assumes "mem_ok d m"
  shows "mem_ok d (snd (finalize_review_success E fresh run w vs d m))"
proof (cases "insert_candidates_conn d
    (map (\<lambda>(i, v). candidate_of_validated i run w (me_now E) v) (zip fresh vs)) m")
  case (Inr x)
  obtain n m1 where x: "x = (n, m1)" by (cases x)
  let ?f = "\<lambda>j. j\<lparr>rj_status := JCompleted, rj_candidate_count := n, rj_finished_at := Some (me_now E)\<rparr>"
  have "mem_ok d (snd (update_jobs (job_is run JRunning) ?f m1))"
    by (rule update_jobs_ok) (use assms Inr x in \<open>auto dest: insert_candidates_ok\<close>)
  with assms show ?thesis by (simp add: finalize_review_success_def Inr x case_prod_beta)
qed (use assms in \<open>simp add: finalize_review_success_def\<close>)

section \<open>Approval\<close>

text \<open>What an approval may do to the memories, as the user understands it.\<close>

definition mark_memory :: "rstring option \<Rightarrow> MemoryStatus \<Rightarrow> rstring \<Rightarrow> Memory list \<Rightarrow> Memory list" where
  "mark_memory i st now ms = update_where (\<lambda>x. Some (mm_id x) = i)
     (\<lambda>x. x\<lparr>mm_status := st, mm_pinned := False, mm_updated_at := now\<rparr>) ms"

definition approved_memories :: "mem_env \<Rightarrow> rstring \<Rightarrow> MemoryCandidate \<Rightarrow> Memory list \<Rightarrow> Memory list" where
  "approved_memories E fresh c ms = (case cd_operation c of
      OpCreate \<Rightarrow> ms @ [record_of_candidate E fresh c None]
    | OpSupersede \<Rightarrow> mark_memory (cd_target_memory_id c) Superseded (me_now E) ms
        @ [record_of_candidate E fresh c (cd_target_memory_id c)]
    | OpRetract \<Rightarrow> mark_memory (cd_target_memory_id c) Retracted (me_now E) ms)"

lemma memory_context_key:
  "memory_context J w d = Inr cx \<Longrightarrow> mx_workflow_id cx = w
     \<and> (mx_working_directory cx = Some k \<longrightarrow> list_ex (\<lambda>c. c \<noteq> CHR '' '') k)"
  by (auto simp: memory_context_def normalize_workspace_key_def Let_def split: option.splits if_splits sum.splits)

lemma approved_target_cases:
  assumes "approved_target E c m = Inr t"
  shows "t = cd_target_memory_id c" and "t = None \<longleftrightarrow> cd_operation c = OpCreate"
    and "t = Some i \<Longrightarrow> i \<in> memory_ids m"
proof -
  have "t = cd_target_memory_id c \<and> (t = None \<longleftrightarrow> cd_operation c = OpCreate) \<and> (\<forall>i. t = Some i \<longrightarrow> i \<in> memory_ids m)"
  proof (cases "cd_operation c = OpCreate")
    case True
    with assms show ?thesis by (cases "cd_target_memory_id c") (simp_all add: approved_target_def)
  next
    case False
    with assms obtain i r where i: "cd_target_memory_id c = Some i" and r: "get_memory i m = Some r"
      by (auto simp: approved_target_def split: option.splits)
    with assms False have "t = Some i" by (simp add: approved_target_def split: if_splits)
    moreover have "i \<in> memory_ids m" using r by (auto simp: get_memory_def memory_ids_def find_Some_iff)
    ultimately show ?thesis using i False by simp
  qed
  then show "t = cd_target_memory_id c" "t = None \<longleftrightarrow> cd_operation c = OpCreate" "t = Some i \<Longrightarrow> i \<in> memory_ids m"
    by blast+
qed

lemma record_of_candidate_accepted:
  assumes "mem_ok d m" and "c \<in> set (memory_candidates m)" and "memory_context J (cd_workflow_id c) d = Inr cx"
    and "resolve_scope_key (cd_scope_type c) (mx_workflow_id cx) (mx_working_directory cx) = Inr (cd_scope_key c)"
    and "t = None \<or> (\<exists>i. t = Some i \<and> i \<in> memory_ids m)"
  shows "row_accepted d (memories m) (record_of_candidate E fresh c t)"
proof -
  let ?r = "record_of_candidate E fresh c t"
  have c: "0 \<le> cd_confidence c" "cd_confidence c \<le> 1" "workflow_exists (cd_workflow_id c) d"
    using mem_ok_candidatesD [OF assms(1)] assms(2) by (auto simp: candidates_ok_def)
  have key: "mx_workflow_id cx = cd_workflow_id c"
    "mx_working_directory cx = Some (cd_scope_key c) \<Longrightarrow> list_ex (\<lambda>x. x \<noteq> CHR '' '') (cd_scope_key c)"
    using memory_context_key [OF assms(3)] by blast+
  have "scope_check ?r"
  proof (cases "cd_scope_type c")
    case ScopeWorkspace
    with assms(4) have "mx_working_directory cx = Some (cd_scope_key c)"
      by (simp add: resolve_scope_key_def split: option.splits)
    with key ScopeWorkspace show ?thesis by (simp add: scope_check_def record_of_candidate_def)
  qed (use assms(4) key in \<open>simp_all add: scope_check_def record_of_candidate_def resolve_scope_key_def\<close>)
  then have "row_check ?r" using c unfolding row_check_def by (simp add: record_of_candidate_def)
  moreover have "owner_ok d ?r" using c by (simp add: owner_ok_def record_of_candidate_def)
  moreover have "supersedes_ok (insert (mm_id ?r) (mm_id ` set (memories m))) ?r"
    using assms(5) by (auto simp: supersedes_ok_def record_of_candidate_def memory_ids_def)
  ultimately show ?thesis by (simp add: row_accepted_def)
qed

lemma write_canonical_memories:
  assumes "row_accepted d (memories m) r" and "mm_id r \<notin> memory_ids m"
    and "\<And>t. mm_supersedes_id r = Some t \<Longrightarrow> t \<noteq> mm_id r"
  shows "\<exists>m1. write_canonical_memory d r m = Inr m1
    \<and> memories m1 = (case mm_supersedes_id r of None \<Rightarrow> memories m
        | Some t \<Rightarrow> mark_memory (Some t) Superseded (mm_created_at r) (memories m)) @ [r]
    \<and> memory_candidates m1 = memory_candidates m \<and> memory_reviews m1 = memory_reviews m"
proof -
  have "insert_row d r m = Inr (m\<lparr>memories := memories m @ [r]\<rparr>)"
    using assms(1,2) by (simp add: insert_row_def row_accepted_def)
  then show ?thesis using assms(3)
    by (auto simp: write_canonical_memory_def supersede_target_def mark_memory_def update_where_def split: option.split)
qed

lemma retract_target_ok:
  assumes "mem_ok d m"
  shows "mem_ok d (retract_target t now m)"
proof -
  let ?f = "\<lambda>x. x\<lparr>mm_status := Retracted, mm_pinned := False, mm_updated_at := now\<rparr>"
  have "row_ok d I (?f x)" if "row_ok d I x" for I x
    using that by (cases "mm_scope_type x"; cases "mm_workflow_id x")
      (simp_all add: row_ok_def row_check_def scope_check_def owner_ok_def supersedes_ok_def)
  then have "mem_ok_except ({} \<union> {t}) d
      (m\<lparr>memories := update_where (\<lambda>x. mm_id x = t) ?f (memories m)\<rparr>)"
    by (intro mem_ok_update [OF assms]) auto
  from mem_ok_index [OF this, of t] show ?thesis by (simp add: retract_target_def)
qed

lemma retract_target_rows:
  "memories (retract_target t now m) = mark_memory (Some t) Retracted now (memories m)"
  "memory_candidates (retract_target t now m) = memory_candidates m"
  "memory_reviews (retract_target t now m) = memory_reviews m"
  by (simp_all add: retract_target_def mark_memory_def)

lemma apply_approved_outcome:
  assumes "mem_ok d m" and "c \<in> set (memory_candidates m)"
    and cx: "memory_context J (cd_workflow_id c) d = Inr cx"
    and key: "resolve_scope_key (cd_scope_type c) (mx_workflow_id cx) (mx_working_directory cx) = Inr key"
    and new: "fresh \<notin> memory_ids m"
  shows "(\<exists>code. apply_approved_candidate V fresh cx c d m = Inr (Inl code, m))
    \<or> (\<exists>m1. apply_approved_candidate V fresh cx c d m = Inr (Inr (), m1) \<and> mem_ok d m1
        \<and> memories m1 = approved_memories (cv_env V) fresh c (memories m)
        \<and> memory_candidates m1 = memory_candidates m)"
proof (cases "key = cd_scope_key c \<and> (\<exists>t. approved_target (cv_env V) c m = Inr t)
    \<and> \<not> active_duplicate_hash V (cd_scope_type c) (cd_scope_key c) (cd_memory_type c)
         (candidate_content_hash V (cd_body c) (cd_scope_key c) (cd_memory_type c)) m")
  case False
  then show ?thesis using key by (cases "approved_target (cv_env V) c m") (auto simp: apply_approved_candidate_def)
next
  case True
  then obtain t where t: "approved_target (cv_env V) c m = Inr t" and keyc: "key = cd_scope_key c" by blast
  note tc = approved_target_cases [OF t]
  note body = apply_approved_candidate_def [of V fresh cx c d m]
  let ?r = "record_of_candidate (cv_env V) fresh c t"
  have "t = None \<or> (\<exists>i. t = Some i \<and> i \<in> memory_ids m)" using tc(3) by (cases t) simp_all
  then have acc: "row_accepted d (memories m) ?r"
    by (rule record_of_candidate_accepted [OF assms(1,2) cx key [unfolded keyc]])
  have r: "mm_id ?r = fresh" "mm_supersedes_id ?r = (if cd_operation c = OpSupersede then t else None)"
    "mm_created_at ?r = me_now (cv_env V)" "\<not> mm_pinned ?r"
    by (simp_all add: record_of_candidate_def)
  have "mm_supersedes_id ?r = Some i \<Longrightarrow> i \<noteq> mm_id ?r" for i using tc(3) new r by (auto split: if_splits)
  then obtain m1 where m1: "write_canonical_memory d ?r m = Inr m1"
    and rows: "memories m1 = (case mm_supersedes_id ?r of None \<Rightarrow> memories m
        | Some t \<Rightarrow> mark_memory (Some t) Superseded (mm_created_at ?r) (memories m)) @ [?r]"
    and cands: "memory_candidates m1 = memory_candidates m"
    using write_canonical_memories [OF acc] new r(1) by metis
  have ok: "mem_ok d m1" using mem_ok_write_canonical [OF assms(1) m1] r(4) by simp
  show ?thesis
  proof (cases "cd_operation c")
    case OpRetract
    with tc(2) have "t \<noteq> None" by simp
    then obtain i where "t = Some i" by blast
    with tc(1) have "cd_target_memory_id c = Some i" by simp
    with OpRetract True \<open>t = Some i\<close> t key show ?thesis
      by (auto simp: body retract_target_ok [OF assms(1)] retract_target_rows approved_memories_def)
  next
    case OpCreate
    with tc(2) have "t = None" by simp
    with OpCreate True t key m1 ok rows cands r show ?thesis by (auto simp: body approved_memories_def)
  next
    case OpSupersede
    with tc(2) have "t \<noteq> None" by simp
    then obtain i where "t = Some i" by blast
    with tc(1) have "cd_target_memory_id c = Some i" by simp
    with OpSupersede True \<open>t = Some i\<close> t key m1 ok rows cands r show ?thesis by (auto simp: body approved_memories_def)
  qed
qed

text \<open>
  Property C9 (approval is one step). Approving a pending candidate whose scope resolves always decides
  it. Either the candidate is approved and the memories change exactly by what it proposes - one new
  active memory, for a supersession together with its target becoming superseded, or the target
  becoming retracted - or it is blocked with a code and no memory changes. In both cases the tables
  stay valid, the full-text index is current, and no other candidate changes.
\<close>

theorem approval_decides:
  assumes "mem_ok d m" and "get_memory_candidate i m = Some c" and "cd_status c = CPending"
    and "memory_context (cv_serde V) (cd_workflow_id c) d = Inr cx"
    and "resolve_scope_key (cd_scope_type c) (mx_workflow_id cx) (mx_working_directory cx) = Inr key"
    and "fresh \<notin> memory_ids m"
  shows "\<exists>c' m'. approve_memory_candidate V fresh i d m = (Inr c', m') \<and> mem_ok d m' \<and> cd_id c' = i
    \<and> (cd_status c' = CApproved \<and> memories m' = approved_memories (cv_env V) fresh c (memories m)
       \<or> cd_status c' = CBlocked \<and> cd_blocked_code c' \<noteq> None \<and> memories m' = memories m
         \<and> memory_fts m' = memory_fts m)
    \<and> filter (\<lambda>x. cd_id x \<noteq> i) (memory_candidates m') = filter (\<lambda>x. cd_id x \<noteq> i) (memory_candidates m)"
proof -
  have c: "c \<in> set (memory_candidates m)" "cd_id c = i"
    using assms(2) by (auto simp: get_memory_candidate_def find_Some_iff)
  have decided: "\<exists>c' m'. mark_candidate_decided (cv_env V) i st code m1 = Inr m' \<and> loaded_candidate i m' = Inr c'
      \<and> mem_ok d m' \<and> cd_id c' = i \<and> cd_status c' = st \<and> cd_blocked_code c' = coalesce code (cd_blocked_code c)
      \<and> memories m' = memories m1 \<and> memory_fts m' = memory_fts m1
      \<and> filter (\<lambda>x. cd_id x \<noteq> i) (memory_candidates m') = filter (\<lambda>x. cd_id x \<noteq> i) (memory_candidates m)"
    if ok: "mem_ok d m1" and same: "memory_candidates m1 = memory_candidates m" for m1 st code
  proof -
    let ?p = "\<lambda>x. cd_id x = i \<and> cd_status x = CPending"
    let ?f = "\<lambda>x. x\<lparr>cd_status := st, cd_blocked_code := coalesce code (cd_blocked_code x),
      cd_decided_at := Some (me_now (cv_env V))\<rparr>"
    let ?m = "m1\<lparr>memory_candidates := update_where ?p ?f (memory_candidates m)\<rparr>"
    have mark: "mark_candidate_decided (cv_env V) i st code m1 = Inr ?m"
      using c assms(3) by (auto simp: mark_candidate_decided_def Let_def list_ex_iff same)
    have dist: "distinct (map cd_id (memory_candidates m))"
      using mem_ok_candidatesD [OF assms(1)] by (simp add: candidates_ok_def)
    have "find (\<lambda>x. cd_id x = i) (update_where ?p ?f (memory_candidates m)) = Some (?f c)"
    proof (rule find_unique)
      show "?f c \<in> set (update_where ?p ?f (memory_candidates m))"
        using c assms(3) unfolding set_update_where by blast
      show "y = ?f c" if "y \<in> set (update_where ?p ?f (memory_candidates m))" "cd_id y = i" for y
      proof -
        from that(1) consider x where "x \<in> set (memory_candidates m)" "y = ?f x"
          | "y \<in> set (memory_candidates m)" "\<not> ?p y"
          unfolding set_update_where by blast
        then show ?thesis
        proof cases
          case 1
          then have "cd_id x = cd_id c" using that(2) c(2) by simp
          then have "x = c" by (rule distinct_map_eq [OF dist 1(1) c(1)])
          with 1(2) show ?thesis by (simp only:)
        next
          case 2
          have "y = c" by (rule distinct_map_eq [OF dist 2(1) c(1)]) (simp only: that(2) c(2))
          with 2(2) c(2) assms(3) show ?thesis by blast
        qed
      qed
    qed (simp add: c)
    then have "loaded_candidate i ?m = Inr (?f c)" by (simp add: loaded_candidate_def get_memory_candidate_def)
    moreover have "filter (\<lambda>x. cd_id x \<noteq> i) (update_where ?p ?f cs) = filter (\<lambda>x. cd_id x \<noteq> i) cs" for cs
      by (induction cs) (simp_all add: update_where_def)
    ultimately show ?thesis using mark mark_candidate_decided_ok [OF ok mark] c by (intro exI [of _ "?f c"] exI [of _ ?m]) simp
  qed
  have cx: "memory_context (cv_serde V) (cd_workflow_id c) d = Inr cx" by (rule assms(4))
  note body = approve_memory_candidate_def assms(2,3) cx
  from apply_approved_outcome [OF assms(1) c(1) cx assms(5,6), of V] show ?thesis
  proof (elim disjE exE conjE)
    fix code assume ap: "apply_approved_candidate V fresh cx c d m = Inr (Inl code, m)"
    from decided [OF assms(1) refl, of CBlocked "Some code"] ap show ?thesis
      by (auto simp: body coalesce_def)
  next
    fix m1 assume ap: "apply_approved_candidate V fresh cx c d m = Inr (Inr (), m1)" "mem_ok d m1"
      "memories m1 = approved_memories (cv_env V) fresh c (memories m)" "memory_candidates m1 = memory_candidates m"
    from decided [OF ap(2,4), of CApproved None] ap(1,3) show ?thesis
      by (auto simp: body)
  qed
qed

definition ex_review_db :: db where
  "ex_review_db = ex_mem_db\<lparr>runs := [\<lparr>run_id = ''r'', run_workflow = ''w'', run_trigger_kind = ''manual'',
     run_status = Completed, run_payload = None, run_error = None, run_started = None, run_finished = None,
     run_created = []\<rparr>]\<rparr>"

definition ex_job :: "ReviewJobStatus \<Rightarrow> MemoryReviewJob" where
  "ex_job st = \<lparr>rj_run_id = ''r'', rj_workflow_id = ''w'', rj_status = st, rj_provider = ''codex'',
     rj_model = None, rj_error_code = None, rj_candidate_count = 1, rj_started_at = None,
     rj_finished_at = None, rj_created_at = []\<rparr>"

definition ex_suggested :: MemoryCandidate where
  "ex_suggested = \<lparr>cd_id = ''c'', cd_review_run_id = ''r'', cd_workflow_id = ''w'', cd_source_node_id = None,
     cd_operation = OpCreate, cd_target_memory_id = None, cd_scope_type = ScopeUser,
     cd_scope_key = ''local-user'', cd_memory_type = Preference, cd_title = ''Style'',
     cd_body = ''use tabs'', cd_confidence = 1, cd_rationale = ''said so'', cd_content_hash = ''h'',
     cd_status = CPending, cd_blocked_code = None, cd_created_at = [], cd_decided_at = None\<rparr>"

definition ex_review_mem :: mem where
  "ex_review_mem = empty_mem\<lparr>memory_reviews := [ex_job JCompleted], memory_candidates := [ex_suggested]\<rparr>"

definition ex_cur :: cur_env where
  "ex_cur = \<lparr>cv_env = ex_mem_env 9, cv_serde = Memories.ex_serde, cv_sha256 = id, cv_lower = to_ascii_lowercase,
     cv_parse = (\<lambda>_. None)\<rparr>"

lemma ex_review_ok: "mem_ok ex_review_db ex_review_mem"
  by (simp add: mem_ok_except_def ex_review_mem_def empty_mem_def rows_ok_def links_ok_def fts_ok_except_def
      uses_ok_def toggles_ok_def jobs_ok_def candidates_ok_def ex_job_def ex_suggested_def ex_review_db_def
      ex_mem_db_def empty_db_def run_exists_def workflow_exists_def memory_ids_def)

theorem approval_decides_witness:
  "\<exists>c' m'. approve_memory_candidate ex_cur ''n'' ''c'' ex_review_db ex_review_mem = (Inr c', m')
    \<and> mem_ok ex_review_db m' \<and> cd_id c' = ''c''
    \<and> (cd_status c' = CApproved \<and> memories m' = [record_of_candidate (ex_mem_env 9) ''n'' ex_suggested None]
       \<or> cd_status c' = CBlocked \<and> cd_blocked_code c' \<noteq> None \<and> memories m' = [] \<and> memory_fts m' = [])"
proof -
  have cand: "get_memory_candidate ''c'' ex_review_mem = Some ex_suggested" by code_simp
  have cx: "memory_context (cv_serde ex_cur) (cd_workflow_id ex_suggested) ex_review_db
      = Inr \<lparr>mx_workflow_id = ''w'', mx_working_directory = Some ''/home/me''\<rparr>" by code_simp
  have "resolve_scope_key (cd_scope_type ex_suggested) w k = Inr ''local-user''" for w k
    by (simp add: resolve_scope_key_def ex_suggested_def)
  note th = approval_decides [OF ex_review_ok cand _ cx this, of "''n''"]
  have "cd_status ex_suggested = CPending" "''n'' \<notin> memory_ids ex_review_mem"
    by (simp_all add: ex_suggested_def ex_review_mem_def empty_mem_def memory_ids_def)
  note th = th [OF this]
  have "approved_memories (cv_env ex_cur) ''n'' ex_suggested (memories ex_review_mem)
      = [record_of_candidate (ex_mem_env 9) ''n'' ex_suggested None]"
    and "memories ex_review_mem = []" and "memory_fts ex_review_mem = []"
    by (simp_all add: approved_memories_def ex_cur_def ex_review_mem_def empty_mem_def)
      (simp add: ex_suggested_def)
  with th show ?thesis by metis
qed

end
