(* ===== verification/Run_History.thy ===== *)
theory Run_History
  imports Memories
begin

text \<open>
  The parts of \<^verbatim>\<open>db/history.rs\<close> that read the memory tables too: the detail of one run with its steps
  and the memories it was shown, and the search over steps and memories. SQLite's ranking and its
  snippets are a parameter; which rows are searched, in which order hits come and how many is the
  code's.
\<close>

section \<open>The detail of a run\<close>

record RunHistoryStep =
  hs_id :: rstring
  hs_node_id :: rstring
  hs_agent_provider :: "rstring option"
  hs_skill_name :: "rstring option"
  hs_status :: rstring
  hs_input :: json
  hs_output :: json
  hs_error :: "rstring option"
  hs_created_at :: rstring

record RunHistoryMemoryUse =
  hu_node_id :: rstring
  hu_memory_id :: rstring
  hu_memory_title :: rstring
  hu_scope_type :: MemoryScopeType
  hu_memory_type :: MemoryType
  hu_rank :: int
  hu_score :: rat
  hu_reason :: RetrievalReason
  hu_rendered_bytes :: nat
  hu_created_at :: rstring

record RunHistoryDetail =
  hd_run :: RunHistoryItem
  hd_steps :: "RunHistoryStep list"
  hd_memory_uses :: "RunHistoryMemoryUse list"

text \<open>\<^verbatim>\<open>f64::round\<close>: ties away from zero.\<close>

definition round_away :: "rat \<Rightarrow> int" where
  "round_away x = (if 0 \<le> x then \<lfloor>x + 1 / 2\<rfloor> else - \<lfloor>1 / 2 - x\<rfloor>)"

definition history_step :: "serde \<Rightarrow> step_row \<Rightarrow> RunHistoryStep" where
  "history_step J s = \<lparr>hs_id = step_id s, hs_node_id = step_node s, hs_agent_provider = step_provider s,
     hs_skill_name = step_skill s, hs_status = step_status s, hs_input = parse_json_or_empty J (step_input s),
     hs_output = parse_json_or_empty J (step_output s), hs_error = step_error s,
     hs_created_at = step_created s\<rparr>"

definition history_use :: "use_row \<Rightarrow> Memory \<Rightarrow> RunHistoryMemoryUse" where
  "history_use u r = \<lparr>hu_node_id = us_node u, hu_memory_id = us_memory u, hu_memory_title = mm_title r,
     hu_scope_type = mm_scope_type r, hu_memory_type = mm_memory_type r, hu_rank = us_rank u,
     hu_score = of_int (round_away (us_score u * 100)) / 100, hu_reason = us_reason u,
     hu_rendered_bytes = us_bytes u, hu_created_at = us_created u\<rparr>"

definition history_uses :: "rstring \<Rightarrow> mem \<Rightarrow> RunHistoryMemoryUse list" where
  "history_uses i m = sort_key (\<lambda>u. (hu_created_at u, hu_node_id u, hu_rank u, hu_memory_id u))
     (List.map_filter (\<lambda>u. map_option (history_use u) (get_memory (us_memory u) m))
        (filter (\<lambda>u. us_run u = i) (run_memory_uses m)))"

definition get_run_history :: "serde \<Rightarrow> rstring \<Rightarrow> db \<Rightarrow> mem \<Rightarrow> RunHistoryDetail option" where
  "get_run_history J i d m =
     (case find (\<lambda>r. run_id r = i) (runs d) of
        None \<Rightarrow> None
      | Some r \<Rightarrow> map_option (\<lambda>w. \<lparr>hd_run = row_to_run_history_item J d w r,
            hd_steps = map (history_step J) (steps_of i d), hd_memory_uses = history_uses i m\<rparr>)
          (find (\<lambda>w. wf_id w = run_workflow r) (workflows d)))"

section \<open>Search\<close>

datatype hit_kind = MemoryHit | RunStepHit

record HistorySearchInput =
  hq_query :: rstring
  hq_workflow_id :: "rstring option"
  hq_limit :: "nat option"

record HistorySearchHit =
  hh_kind :: hit_kind
  hh_source_id :: rstring
  hh_run_id :: "rstring option"
  hh_workflow_id :: "rstring option"
  hh_workflow_name :: rstring
  hh_title :: rstring
  hh_snippet :: rstring
  hh_timestamp :: rstring
  hh_rank :: rat

text \<open>The full-text engine: whether a row matches, with the rank it is ordered by and the rank that is
  returned, and its snippet.\<close>

record fts_engine =
  fe_step :: "rstring \<Rightarrow> fts_row list \<Rightarrow> fts_row \<Rightarrow> (rat \<times> rat) option"
  fe_step_snippet :: "rstring \<Rightarrow> fts_row \<Rightarrow> rstring"
  fe_memory :: "rstring \<Rightarrow> memory_fts_row list \<Rightarrow> memory_fts_row \<Rightarrow> (rat \<times> rat) option"
  fe_memory_snippet :: "rstring \<Rightarrow> memory_fts_row \<Rightarrow> rstring"

definition nonempty :: "rstring option \<Rightarrow> rstring option" where
  "nonempty x = (if x = Some [] then None else x)"

definition step_title :: "step_row \<Rightarrow> rstring" where
  "step_title s = unwrap_or (step_node s) (coalesce (nonempty (step_skill s)) (nonempty (step_provider s)))"

definition run_step_hit ::
  "fts_engine \<Rightarrow> rstring \<Rightarrow> rstring option \<Rightarrow> db \<Rightarrow> fts_row \<Rightarrow> (rat \<times> HistorySearchHit) option" where
  "run_step_hit F q wid d f =
     (case (fe_step F q (run_step_fts d) f, find (\<lambda>s. step_id s = fts_step f) (run_steps d),
            find (\<lambda>w. wf_id w = fts_workflow f) (workflows d)) of
        (Some (order, rank), Some s, Some w) \<Rightarrow>
          if wid = None \<or> wid = Some (fts_workflow f)
          then Some (order, \<lparr>hh_kind = RunStepHit, hh_source_id = fts_step f, hh_run_id = Some (fts_run f),
            hh_workflow_id = Some (fts_workflow f), hh_workflow_name = wf_name w, hh_title = step_title s,
            hh_snippet = fe_step_snippet F q f, hh_timestamp = step_created s, hh_rank = rank\<rparr>)
          else None
      | _ \<Rightarrow> None)"

definition memory_hit_name :: "db \<Rightarrow> Memory \<Rightarrow> rstring" where
  "memory_hit_name d r = (case mm_scope_type r of
      ScopeUser \<Rightarrow> ''User memory'' | ScopeWorkspace \<Rightarrow> ''Workspace memory''
    | ScopeWorkflow \<Rightarrow> unwrap_or ''Workflow memory'' (workflow_name (mm_workflow_id r) d))"

definition searchable_memory :: "MemoryContext option \<Rightarrow> mem \<Rightarrow> Memory \<Rightarrow> bool" where
  "searchable_memory cx m r = (case cx of
      None \<Rightarrow> True
    | Some c \<Rightarrow> (case mm_scope_type r of
          ScopeUser \<Rightarrow> mm_scope_key r = ''local-user''
        | ScopeWorkspace \<Rightarrow> Some (mm_scope_key r) = mx_working_directory c
        | ScopeWorkflow \<Rightarrow> mm_scope_key r = mx_workflow_id c \<or> is_linked (mx_workflow_id c) (mm_id r) m))"

definition memory_hit ::
  "fts_engine \<Rightarrow> rstring \<Rightarrow> MemoryContext option \<Rightarrow> db \<Rightarrow> mem \<Rightarrow> memory_fts_row \<Rightarrow> (rat \<times> HistorySearchHit) option" where
  "memory_hit F q cx d m f =
     (case (fe_memory F q (memory_fts m) f, get_memory (mf_memory f) m) of
        (Some (order, rank), Some r) \<Rightarrow>
          if searchable_memory cx m r
          then Some (order, \<lparr>hh_kind = MemoryHit, hh_source_id = mf_memory f, hh_run_id = mm_run_id r,
            hh_workflow_id = mm_workflow_id r, hh_workflow_name = memory_hit_name d r, hh_title = mm_title r,
            hh_snippet = fe_memory_snippet F q f, hh_timestamp = mm_updated_at r, hh_rank = rank\<rparr>)
          else None
      | _ \<Rightarrow> None)"

text \<open>\<^verbatim>\<open>ORDER BY rank, time DESC, id LIMIT n\<close> of either statement.\<close>

definition top_hits :: "nat \<Rightarrow> (rat \<times> HistorySearchHit) list \<Rightarrow> HistorySearchHit list" where
  "top_hits n hs = map snd (take n (sort_key fst (sort_desc (hh_timestamp \<circ> snd)
     (sort_key (hh_source_id \<circ> snd) hs))))"

fun kind_text :: "hit_kind \<Rightarrow> rstring" where
  "kind_text MemoryHit = ''memory''"
| "kind_text RunStepHit = ''run_step''"

definition sort_hits :: "HistorySearchHit list \<Rightarrow> HistorySearchHit list" where
  "sort_hits hs = sort_key hh_rank (sort_desc hh_timestamp
     (sort_key (\<lambda>h. (kind_text (hh_kind h), hh_source_id h)) hs))"

definition search_limit :: "HistorySearchInput \<Rightarrow> nat" where
  "search_limit inp = max 1 (min 50 (unwrap_or 25 (hq_limit inp)))"

definition search_context :: "serde \<Rightarrow> rstring option \<Rightarrow> db \<Rightarrow> DbError + MemoryContext option" where
  "search_context J wid d = (case wid of
      None \<Rightarrow> Inr None
    | Some w \<Rightarrow> (case memory_context J w d of Inl e \<Rightarrow> Inl e | Inr cx \<Rightarrow> Inr (Some cx)))"

definition search_history ::
  "fts_engine \<Rightarrow> serde \<Rightarrow> HistorySearchInput \<Rightarrow> db \<Rightarrow> mem \<Rightarrow> DbError + HistorySearchHit list" where
  "search_history F J inp d m =
     (case plain_text_fts_query (hq_query inp) of
        None \<Rightarrow> Inl (Other ''history search query must not be empty'')
      | Some q \<Rightarrow>
        (case search_context J (hq_workflow_id inp) d of
           Inl e \<Rightarrow> Inl e
         | Inr cx \<Rightarrow>
           (let n = search_limit inp;
                run_hits = top_hits n (List.map_filter (run_step_hit F q (map_option mx_workflow_id cx) d) (run_step_fts d));
                memory_hits = top_hits n (List.map_filter (memory_hit F q cx d m) (memory_fts m))
            in Inr (take n (sort_hits (run_hits @ memory_hits))))))"

lemma set_top_hits: "h \<in> set (top_hits n hs) \<Longrightarrow> \<exists>k. (k, h) \<in> set hs"
  unfolding top_hits_def set_map by (auto dest!: in_set_takeD)

lemma set_sort_hits [simp]: "set (sort_hits hs) = set hs"
  by (simp add: sort_hits_def)

lemma in_map_filter: "y \<in> set (List.map_filter f xs) \<longleftrightarrow> (\<exists>x \<in> set xs. f x = Some y)"
  by (induction xs) (auto simp: map_filter_simps split: option.splits)


text \<open>A search of workflow \<open>w\<close> in a store with one memory of the user, which every engine row matches.\<close>

definition ex_engine :: fts_engine where
  "ex_engine = \<lparr>fe_step = (\<lambda>_ _ _. Some (0, 0)), fe_step_snippet = (\<lambda>_ _. []), fe_memory = (\<lambda>_ _ _. Some (0, 0)),
     fe_memory_snippet = (\<lambda>_ _. [])\<rparr>"

definition ex_search :: HistorySearchInput where
  "ex_search = \<lparr>hq_query = ''tabs'', hq_workflow_id = Some ''w'', hq_limit = Some 9\<rparr>"

definition ex_indexed :: mem where
  "ex_indexed = empty_mem\<lparr>memories := [ex_row], memory_fts := [fts_of ex_row]\<rparr>"

lemma ex_search_hit:
  "\<exists>h. search_history ex_engine Memories.ex_serde ex_search ex_mem_db ex_indexed = Inr [h]
    \<and> hh_source_id h = ''a'' \<and> hh_kind h = MemoryHit"
proof -
  have cx: "search_context Memories.ex_serde (Some ''w'') ex_mem_db
      = Inr (Some \<lparr>mx_workflow_id = ''w'', mx_working_directory = Some ''/home/me''\<rparr>)" by code_simp
  have q: "plain_text_fts_query ''tabs'' \<noteq> None" by code_simp
  have hit: "\<exists>h. memory_hit ex_engine q (Some \<lparr>mx_workflow_id = ''w'', mx_working_directory = Some ''/home/me''\<rparr>)
      ex_mem_db ex_indexed (fts_of ex_row) = Some (0, h) \<and> hh_source_id h = ''a'' \<and> hh_kind h = MemoryHit" for q
    by (simp add: memory_hit_def ex_engine_def ex_indexed_def get_memory_def searchable_memory_def ex_row_def fts_of_def)
  obtain q' where q': "plain_text_fts_query ''tabs'' = Some q'" using q by blast
  from hit obtain h where h: "memory_hit ex_engine q' (Some \<lparr>mx_workflow_id = ''w'', mx_working_directory = Some ''/home/me''\<rparr>)
      ex_mem_db ex_indexed (fts_of ex_row) = Some (0, h)" "hh_source_id h = ''a''" "hh_kind h = MemoryHit" by blast
  have rows: "run_step_fts ex_mem_db = []" "memory_fts ex_indexed = [fts_of ex_row]"
    by (simp_all add: ex_mem_db_def empty_db_def ex_indexed_def)
  have none: "List.map_filter f [] = []" for f :: "'a \<Rightarrow> 'b option" by (simp add: List.map_filter_def)
  have one: "top_hits 9 [(0, h)] = [h]" "top_hits 9 [] = []" "sort_hits [h] = [h]"
    by (simp_all add: top_hits_def sort_hits_def sort_desc_def)
  have "search_history ex_engine Memories.ex_serde ex_search ex_mem_db ex_indexed = Inr [h]"
    unfolding search_history_def ex_search_def
    by (simp add: q' cx search_limit_def rows none map_filter_simps h one)
  with h show ?thesis by blast
qed


end
