(* ===== verification/Store_Growth.thy ===== *)
theory Store_Growth
  imports Store_Steps
begin

text \<open>
  Every operation of the store but the deletion of a workflow keeps the identity of the workflows and
  of the runs, with the workflow a run belongs to. The tables of the memory refer to both, so they
  stay consistent with the store whatever the rest of the application does.
\<close>

definition run_owner :: "run_row \<Rightarrow> rstring \<times> rstring" where
  "run_owner r = (run_id r, run_workflow r)"

definition db_grows :: "db \<Rightarrow> db \<Rightarrow> bool" where
  "db_grows d d' = (wf_id ` set (workflows d) \<subseteq> wf_id ` set (workflows d')
     \<and> run_owner ` set (runs d) \<subseteq> run_owner ` set (runs d'))"

lemma db_growsI: "workflows d' = workflows d \<Longrightarrow> runs d' = runs d \<Longrightarrow> db_grows d d'"
  by (simp add: db_grows_def)

lemma insert_same:
  "insert_receipt r d = Inr d' \<Longrightarrow> workflows d' = workflows d \<and> runs d' = runs d"
  "insert_queue q d = Inr d' \<Longrightarrow> workflows d' = workflows d \<and> runs d' = runs d"
  "upsert_state ins upd d = Inr d' \<Longrightarrow> workflows d' = workflows d \<and> runs d' = runs d"
  by (auto simp: insert_receipt_def insert_queue_def upsert_state_def split: if_splits)

lemma insert_run_grows:
  "insert_run r d = Inr d' \<Longrightarrow> workflows d' = workflows d \<and> runs d' = runs d @ [r]"
  by (auto simp: insert_run_def split: if_splits)

lemma update_where_image: "(\<And>r. k (f r) = k r) \<Longrightarrow> k ` set (update_where p f rows) = k ` set rows"
  unfolding set_map [symmetric] by simp

lemma lift_db_same: "(\<And>d'. x = Inr d' \<Longrightarrow> workflows d' = workflows d \<and> runs d' = runs d) \<Longrightarrow> db_grows d (snd (lift_db d x))"
  by (cases x) (simp_all add: lift_db_def db_grows_def)

lemma enqueue_run_grows: "db_grows d (snd (enqueue_run J w tr pl rid now d))"
  by (auto simp: enqueue_run_def db_grows_def Let_def dest: insert_run_grows split: sum.splits option.splits)

lemma set_run_status_grows: "db_grows d (set_run_status rid st err now d)"
  by (auto simp: set_run_status_def db_grows_def Let_def run_owner_def update_where_image)

lemma insert_step_grows: "db_grows d (snd (insert_step J rid nid pv sk st inp outp err sid now d))"
  by (auto intro!: db_growsI simp: insert_step_def index_run_step_def delete_run_step_index_def Let_def split: sum.splits option.splits)

lemma save_app_trigger_checkpoint_grows: "db_grows d (snd (save_app_trigger_checkpoint t u now d))"
  unfolding save_app_trigger_checkpoint_def by (rule lift_db_same) (rule insert_same)

lemma mark_app_trigger_error_grows: "db_grows d (snd (mark_app_trigger_error t code nx now d))"
  unfolding mark_app_trigger_error_def Let_def by (rule lift_db_same) (rule insert_same)

lemma record_rejected_grows: "db_grows d (snd (record_rejected_app_event t e reason now d))"
  by (auto intro!: db_growsI simp: record_rejected_app_event_def dest!: insert_same split: sum.splits option.splits)

lemma record_app_event_grows: "db_grows d (snd (record_app_event t e pl replayable cap now qid d))"
  unfolding record_app_event_def by (auto intro!: db_growsI dest!: insert_same split: sum.splits)

lemma promote_grows: "db_grows d (snd (promote_next_app_event w rid now d))"
  by (auto simp: promote_next_app_event_def db_grows_def Let_def dest: insert_run_grows split: sum.splits option.splits list.splits)

lemma fail_interrupted_grows: "db_grows d (snd (fail_interrupted_app_event_runs now d))"
  by (auto simp: fail_interrupted_app_event_runs_def db_grows_def Let_def run_owner_def update_where_image)

lemma prune_grows: "db_grows d (snd (prune_app_event_receipts cutoff d))"
  by (auto intro!: db_growsI simp: prune_app_event_receipts_def Let_def split: sum.splits option.splits)

lemma create_workflow_grows: "db_grows d (snd (create_workflow J cinp i now d))"
  by (auto simp: create_workflow_def db_grows_def Let_def split: sum.splits option.splits)

lemma update_workflow_grows: "db_grows d (snd (update_workflow J uinp now d))"
  by (auto simp: update_workflow_def db_grows_def Let_def update_where_image split: sum.splits option.splits)

lemma reorder_workflows_grows: "db_grows d (reorder_workflows ids d)"
proof -
  have same: "wf_id ` set (workflows d1) = wf_id ` set (workflows d) \<and> runs d1 = runs d" if "d1 = fold (\<lambda>(n, i) d. d\<lparr>workflows :=
       update_where (\<lambda>r. wf_id r = i) (\<lambda>r. r\<lparr>wf_sort_order := int n\<rparr>) (workflows d)\<rparr>) xs d" for xs d d1
    using that
  proof (induction xs arbitrary: d d1)
    case (Cons x xs)
    obtain n i where x: "x = (n, i)" by (cases x)
    from Cons.IH [OF refl] Cons.prems show ?case by (simp add: x update_where_image)
  qed simp
  from same [of "reorder_workflows ids d" "enumerate 0 ids" d, unfolded reorder_workflows_def, OF refl]
  show ?thesis unfolding reorder_workflows_def db_grows_def by (elim conjE) (simp only: order_refl simp_thms)
qed

lemma upsert_schedule_row_grows: "db_grows d (snd (upsert_schedule_row J w cron en nx i now d))"
  by (auto intro!: db_growsI simp: upsert_schedule_row_def Let_def split: sum.splits option.splits)

lemma schedule_grows: "db_grows d (set_schedule_next_run i nx now d)" "db_grows d (delete_schedule_for_workflow w d)"
  by (auto intro!: db_growsI simp: set_schedule_next_run_def delete_schedule_for_workflow_def)

lemma upsert_trigger_grows: "db_grows d (snd (upsert_trigger J tinp fid fsec now d))"
  unfolding upsert_trigger_def Let_def
  by (cases "get_workflow J (ut_workflow_id tinp) d"; cases "to_text J (ut_config tinp)";
      cases "Option.bind (ut_id tinp) (\<lambda>i. get_trigger J i d)")
    (auto intro!: db_growsI split: option.split)

lemma trigger_grows: "db_grows d (mark_trigger_fired i now d)" "db_grows d (delete_trigger i d)"
  by (auto intro!: db_growsI simp: mark_trigger_fired_def delete_trigger_def keep_triggers_def)

lemma save_connection_same:
  "save_connection inp sj mj i now d = Inr (s, d') \<Longrightarrow> workflows d' = workflows d \<and> runs d' = runs d"
  by (auto simp: save_connection_def split: option.splits if_splits)

lemma upsert_app_connection_grows: "db_grows d (snd (upsert_app_connection J ainp i now d))"
proof (rule db_growsI)
  let ?P = "\<lambda>d'. workflows d' = workflows d \<and> runs d' = runs d"
  have "?P (snd (upsert_app_connection J ainp i now d))"
    unfolding upsert_app_connection_def Let_def
    by (simp split: option.split sum.split) (blast dest: save_connection_same)
  then show "workflows (snd (upsert_app_connection J ainp i now d)) = workflows d"
    "runs (snd (upsert_app_connection J ainp i now d)) = runs d" by blast+
qed

lemma connection_grows: "db_grows d (snd (set_app_connection_refresh_state i cst expires err now d))"
   "db_grows d (snd (mark_app_connection_revoked i now d))" "db_grows d (delete_app_connection_metadata i d)"
  by (auto intro!: db_growsI simp: set_app_connection_refresh_state_def mark_app_connection_revoked_def
      delete_app_connection_metadata_def Let_def split: sum.splits option.splits)

lemmas store_grows = enqueue_run_grows set_run_status_grows insert_step_grows save_app_trigger_checkpoint_grows
  mark_app_trigger_error_grows record_rejected_grows record_app_event_grows promote_grows
  fail_interrupted_grows prune_grows create_workflow_grows update_workflow_grows reorder_workflows_grows
  upsert_schedule_row_grows schedule_grows upsert_trigger_grows trigger_grows upsert_app_connection_grows
  connection_grows

lemma db_step_grows: "db_step d d' \<Longrightarrow> db_grows d d' \<or> (\<exists>w. d' = snd (delete_workflow w d))"
  by (induction rule: db_step.induct)
    ((rule disjI1, rule store_grows) | (rule disjI2, rule exI, rule refl))+

lemma db_grows_exists:
  assumes "db_grows d d'"
  shows "workflow_exists w d \<Longrightarrow> workflow_exists w d'"
    and "i \<in> run_id ` set (runs d) \<Longrightarrow> i \<in> run_id ` set (runs d')"
proof -
  show "workflow_exists w d \<Longrightarrow> workflow_exists w d'"
    using assms by (auto simp: db_grows_def workflow_exists_def)
  have ids: "run_id ` S = fst ` run_owner ` S" for S by (simp add: image_image run_owner_def)
  have "run_owner ` set (runs d) \<subseteq> run_owner ` set (runs d')" using assms by (simp add: db_grows_def)
  from image_mono [OF this, of fst] show "i \<in> run_id ` set (runs d) \<Longrightarrow> i \<in> run_id ` set (runs d')"
    unfolding ids by (rule subsetD)
qed

end
