(* ===== verification/Review_Jobs.thy ===== *)
theory Review_Jobs
  imports Memory_Review Store_Growth
begin

text \<open>
  The review jobs as a state machine over the store and the memory tables. A review task is spawned by
  a completed run or by a retry; it claims its job, reads its inputs, asks the reviewer and, some time
  later, validates the answer and writes the candidates. Between these steps any other operation may
  run: a command on the memories, a decision about a candidate, any step of the store, the deletion of
  a workflow, and the end of the process, which loses every task.
\<close>

datatype phase = Spawned | Claimed | Asking gathered | Deciding gathered "ValidatedCandidate list"

record review_sys =
  vs_db :: db
  vs_mem :: mem
  vs_tasks :: "(rstring \<times> phase) list"

text \<open>One task moves. The identifiers and the clock of a step are arbitrary.\<close>

inductive task_step :: "cur_env \<Rightarrow> fts_match \<Rightarrow> review_sys \<Rightarrow> review_sys \<Rightarrow> bool" for V F where
  schedule: "r \<in> set (runs (vs_db s)) \<Longrightarrow>
    schedule_memory_review_with E (run_id r) (run_workflow r) (vs_db s) (vs_mem s) = (b, m) \<Longrightarrow>
    task_step V F s (s\<lparr>vs_mem := m, vs_tasks := vs_tasks s @ (if b then [(run_id r, Spawned)] else [])\<rparr>)"
| retry: "retry_memory_review run (vs_mem s) = (Inr j, m) \<Longrightarrow>
    task_step V F s (s\<lparr>vs_mem := m, vs_tasks := vs_tasks s @ [(run, Spawned)]\<rparr>)"
| claim: "vs_tasks s = ts1 @ (run, Spawned) # ts2 \<Longrightarrow> claim_memory_review E run (vs_mem s) = (b, m) \<Longrightarrow>
    task_step V F s (s\<lparr>vs_mem := m, vs_tasks := ts1 @ (if b then [(run, Claimed)] else []) @ ts2\<rparr>)"
| gather: "vs_tasks s = ts1 @ (run, Claimed) # ts2 \<Longrightarrow>
    gather_review (V\<lparr>cv_env := E\<rparr>) F run (vs_db s) (vs_mem s) = Inr g \<Longrightarrow>
    task_step V F s (s\<lparr>vs_tasks := ts1 @ (run, Asking g) # ts2\<rparr>)"
| gather_failed: "vs_tasks s = ts1 @ (run, Claimed) # ts2 \<Longrightarrow>
    gather_review (V\<lparr>cv_env := E\<rparr>) F run (vs_db s) (vs_mem s) = Inl code \<Longrightarrow>
    task_step V F s (s\<lparr>vs_mem := snd (fail_memory_review E' run code (vs_mem s)), vs_tasks := ts1 @ ts2\<rparr>)"
| answer: "vs_tasks s = ts1 @ (run, Asking g) # ts2 \<Longrightarrow>
    validate_answer (V\<lparr>cv_env := E\<rparr>) installed g reply (vs_mem s) = Inr vs \<Longrightarrow>
    task_step V F s (s\<lparr>vs_tasks := ts1 @ (run, Deciding g vs) # ts2\<rparr>)"
| answer_failed: "vs_tasks s = ts1 @ (run, Asking g) # ts2 \<Longrightarrow>
    validate_answer (V\<lparr>cv_env := E\<rparr>) installed g reply (vs_mem s) = Inl code \<Longrightarrow>
    task_step V F s (s\<lparr>vs_mem := snd (fail_memory_review E' run code (vs_mem s)), vs_tasks := ts1 @ ts2\<rparr>)"
| conclude: "vs_tasks s = ts1 @ (run, Deciding g vs) # ts2 \<Longrightarrow>
    task_step V F s (s\<lparr>vs_mem := conclude_review E fresh run g vs (vs_db s) (vs_mem s), vs_tasks := ts1 @ ts2\<rparr>)"

text \<open>The commands on memories and candidates, and the log of memories used by runs.\<close>

inductive mem_step :: "cur_env \<Rightarrow> db \<Rightarrow> mem \<Rightarrow> mem \<Rightarrow> bool" for V d where
  create: "mem_step V d m (snd (create_memory J E fresh cinp d m))"
| update: "mem_step V d m (snd (update_memory J E uinp d m))"
| delete: "mem_step V d m (snd (delete_memory_for_context i cx m))"
| clear: "mem_step V d m (snd (clear_memories w m))"
| link: "mem_step V d m (snd (link_memory J E fresh w i d m))"
| unlink: "mem_step V d m (snd (unlink_memory w i m))"
| uses: "mem_step V d m (snd (insert_run_memory_uses E ids run node us d m))"
| settings: "mem_step V d m (snd (update_memory_review_settings (V\<lparr>cv_env := E\<rparr>) sinp m))"
| toggle: "mem_step V d m (snd (set_workflow_memory_review (V\<lparr>cv_env := E\<rparr>) w b d m))"
| edit: "mem_step V d m (snd (update_memory_candidate (V\<lparr>cv_env := E\<rparr>) einp d m))"
| approve: "mem_step V d m (snd (approve_memory_candidate (V\<lparr>cv_env := E\<rparr>) fresh i d m))"
| reject: "mem_step V d m (snd (reject_memory_candidate E i m))"
| clear_decided: "mem_step V d m (snd (clear_decided_memory_candidates w m))"

text \<open>A new run has an identifier that no pending task refers to, as a fresh UUID has.\<close>

inductive review_step :: "cur_env \<Rightarrow> fts_match \<Rightarrow> review_sys \<Rightarrow> review_sys \<Rightarrow> bool" for V F where
  task: "task_step V F s t \<Longrightarrow> review_step V F s t"
| command: "mem_step V (vs_db s) (vs_mem s) m \<Longrightarrow> review_step V F s (s\<lparr>vs_mem := m\<rparr>)"
| store: "db_step (vs_db s) d \<Longrightarrow> db_grows (vs_db s) d \<Longrightarrow>
    (run_id ` set (runs d) - run_id ` set (runs (vs_db s))) \<inter> fst ` set (vs_tasks s) = {} \<Longrightarrow>
    review_step V F s (s\<lparr>vs_db := d\<rparr>)"
| remove: "review_step V F s (s\<lparr>vs_db := snd (delete_workflow w (vs_db s)),
    vs_mem := delete_workflow_memories w (vs_db s) (vs_mem s)\<rparr>)"
| restart: "review_step V F s (s\<lparr>vs_tasks := []\<rparr>)"

definition review_init :: review_sys where
  "review_init = \<lparr>vs_db = empty_db, vs_mem = empty_mem, vs_tasks = []\<rparr>"

section \<open>What a command leaves of the review tables\<close>

text \<open>The decided candidates stay as they are; only a reference to a deleted memory is cleared.\<close>

definition untargeted :: "MemoryCandidate \<Rightarrow> MemoryCandidate" where
  "untargeted c = c\<lparr>cd_target_memory_id := None\<rparr>"

definition cand_from :: "MemoryCandidate \<Rightarrow> MemoryCandidate \<Rightarrow> bool" where
  "cand_from c c' = (cd_id c' = cd_id c \<and> cd_review_run_id c' = cd_review_run_id c
     \<and> (cd_status c \<noteq> CPending \<longrightarrow> untargeted c' = untargeted c))"

definition cand_kept :: "MemoryCandidate list \<Rightarrow> MemoryCandidate list \<Rightarrow> bool" where
  "cand_kept cs cs' = (\<forall>c' \<in> set cs'. \<exists>c \<in> set cs. cand_from c c')"

definition review_frame :: "mem \<Rightarrow> mem \<Rightarrow> bool" where
  "review_frame m m' = (memory_reviews m' = memory_reviews m
     \<and> cand_kept (memory_candidates m) (memory_candidates m'))"

lemma cand_from_refl: "cand_from c c"
  by (simp add: cand_from_def)

lemma cand_kept_refl: "cand_kept cs cs"
  by (auto simp: cand_kept_def intro: cand_from_refl)

lemma review_frame_refl: "review_frame m m"
  by (simp add: review_frame_def cand_kept_refl)

lemma review_frameI:
  "memory_reviews m' = memory_reviews m \<Longrightarrow> memory_candidates m' = memory_candidates m \<Longrightarrow> review_frame m m'"
  by (simp add: review_frame_def cand_kept_refl)

lemma cand_kept_update:
  "(\<And>c. p c \<Longrightarrow> cand_from c (f c)) \<Longrightarrow> cand_kept cs (update_where p f cs)"
  by (auto simp: cand_kept_def set_update_where intro: cand_from_refl)

lemma artifact_frame [simp]:
  "memory_reviews (snd (write_artifact E w i b m)) = memory_reviews m"
  "memory_candidates (snd (write_artifact E w i b m)) = memory_candidates m"
  "memory_reviews (remove_artifact p m) = memory_reviews m"
  "memory_candidates (remove_artifact p m) = memory_candidates m"
  by (simp_all add: write_artifact_def remove_artifact_def Let_def split: option.split)

lemma spill_plan_frame [simp]:
  "memory_reviews (snd (spill_plan E p m)) = memory_reviews m"
  "memory_candidates (snd (spill_plan E p m)) = memory_candidates m"
  by (simp_all add: spill_plan_snd split: option.split bool.split)

lemma insert_row_frame:
  "insert_row d r m = Inr m1 \<Longrightarrow> memory_reviews m1 = memory_reviews m \<and> memory_candidates m1 = memory_candidates m"
  "update_row d r m = Inr m1 \<Longrightarrow> memory_reviews m1 = memory_reviews m \<and> memory_candidates m1 = memory_candidates m"
  by (auto simp: insert_row_def update_row_def split: if_splits)

lemma write_canonical_frame:
  "write_canonical_memory d r m = Inr m1 \<Longrightarrow> memory_reviews m1 = memory_reviews m \<and> memory_candidates m1 = memory_candidates m"
  by (auto simp: write_canonical_memory_def supersede_target_def dest!: insert_row_frame split: sum.splits option.split)

lemma create_memory_frame: "review_frame m (snd (create_memory J E fresh inp d m))"
proof -
  have spill: "memory_reviews m1 = memory_reviews m \<and> memory_candidates m1 = memory_candidates m"
    if "spill_plan E p m = (x, m1)" for p x m1
    using spill_plan_frame [of E p m] that by simp
  show ?thesis
    by (rule review_frameI) (auto simp: create_memory_def dest!: spill write_canonical_frame
      split: sum.split option.split prod.split)
qed

lemma store_update_frame:
  "memory_reviews (snd (store_update inp old r d m)) = memory_reviews m
   \<and> memory_candidates (snd (store_update inp old r d m)) = memory_candidates m"
  by (auto simp: store_update_def Let_def dest!: insert_row_frame split: sum.split option.split)

lemma updated_artifact_frame:
  "updated_artifact E inp cx kind body r m = (x, m1)
     \<Longrightarrow> memory_reviews m1 = memory_reviews m \<and> memory_candidates m1 = memory_candidates m"
  using updated_artifact_snd [of E inp cx kind body r m] by (simp split: if_splits)

lemma apply_update_frame: "review_frame m (snd (apply_update J E inp r title body cx d m))"
  by (rule review_frameI)
    (simp_all add: apply_update_def Let_def store_update_frame updated_artifact_frame split: sum.split option.split prod.split)

lemma update_memory_frame: "review_frame m (snd (update_memory J E inp d m))"
  by (auto simp: update_memory_def Let_def apply_update_frame review_frame_refl split: sum.split option.split)

lemma cand_from_cleared: "cand_from c (c\<lparr>cd_target_memory_id := t\<rparr>)"
  by (simp add: cand_from_def untargeted_def)

lemma delete_rows_frame:
  "memory_reviews (delete_rows p m) = memory_reviews m"
  "cand_kept (memory_candidates m) (memory_candidates (delete_rows p m))"
  by (auto simp: delete_rows_def Let_def cand_kept_def intro!: bexI cand_from_cleared)

lemma fold_index_frame [simp]:
  "memory_reviews (fold (\<lambda>r. delete_memory_index (mm_id r)) rs m) = memory_reviews m"
  "memory_candidates (fold (\<lambda>r. delete_memory_index (mm_id r)) rs m) = memory_candidates m"
  by (simp_all add: fold_delete_index)

lemma fold_remove_frame [simp]:
  "memory_reviews (fold (\<lambda>r. remove_artifact (mm_artifact_path r)) rs m) = memory_reviews m"
  "memory_candidates (fold (\<lambda>r. remove_artifact (mm_artifact_path r)) rs m) = memory_candidates m"
  by (induction rs arbitrary: m) simp_all

lemma delete_memory_frame: "review_frame m (snd (delete_memory i m))"
  using delete_rows_frame [where m = "delete_memory_index i m"]
  by (auto simp: delete_memory_def Let_def review_frame_def split: option.split)

lemma delete_memory_for_context_frame: "review_frame m (snd (delete_memory_for_context i cx m))"
  by (auto simp: delete_memory_for_context_def delete_memory_frame review_frame_refl split: option.split)

lemma clear_memories_frame: "review_frame m (snd (clear_memories w m))"
  using delete_rows_frame [where p = "owned_by w" and m = "fold (\<lambda>r. delete_memory_index (mm_id r)) (filter (owned_by w) (memories m)) m"]
  by (simp add: clear_memories_def Let_def review_frame_def)

lemma link_frame: "review_frame m (snd (link_memory J E fresh w i d m))" "review_frame m (snd (unlink_memory w i m))"
  by (rule review_frameI; simp add: link_memory_def insert_link_def unlink_memory_def split: option.split sum.split)+

lemma uses_frame: "review_frame m (snd (insert_run_memory_uses E ids run node us d m))"
  by (auto intro!: review_frameI simp: insert_run_memory_uses_def dest!: insert_uses_appends split: sum.split)

lemma settings_frame: "review_frame m (snd (update_memory_review_settings V inp m))"
  "review_frame m (snd (set_workflow_memory_review V w b d m))"
  by (rule review_frameI; simp add: update_memory_review_settings_def set_workflow_memory_review_def Let_def)+

lemma update_candidates_frame:
  assumes "update_candidates p f m = Inr m1" and "\<And>c. p c \<Longrightarrow> cand_from c (f c)"
  shows "review_frame m m1"
  using assms cand_kept_update [of p f] by (auto simp: update_candidates_def Let_def review_frame_def split: if_splits)

lemma mark_frame:
  assumes "mark_candidate_decided E i st code m = Inr m1"
  shows "memory_reviews m1 = memory_reviews m" and "cand_kept (memory_candidates m) (memory_candidates m1)"
proof -
  let ?p = "\<lambda>c. cd_id c = i \<and> cd_status c = CPending"
  let ?f = "\<lambda>c. c\<lparr>cd_status := st, cd_blocked_code := coalesce code (cd_blocked_code c), cd_decided_at := Some (me_now E)\<rparr>"
  have m1: "m1 = m\<lparr>memory_candidates := update_where ?p ?f (memory_candidates m)\<rparr>"
    using assms by (simp add: mark_candidate_decided_def Let_def split: if_splits)
  show "memory_reviews m1 = memory_reviews m" by (simp add: m1)
  show "cand_kept (memory_candidates m) (memory_candidates m1)"
    using cand_kept_update [of ?p ?f] by (simp add: m1 cand_from_def)
qed

lemma reject_frame: "review_frame m (snd (reject_memory_candidate E i m))"
  using mark_frame [of E i CRejected None m]
  by (auto simp: reject_memory_candidate_def review_frame_refl review_frame_def [of m] cand_kept_refl
      split: option.split sum.split)

lemma update_candidate_frame: "review_frame m (snd (update_memory_candidate V inp d m))"
proof -
  have "review_frame m m1" if "update_candidates (\<lambda>x. cd_id x = i \<and> cd_status x = CPending) (\<lambda>x. x\<lparr>cd_scope_type := a1,
      cd_scope_key := a2, cd_memory_type := a3, cd_title := a4, cd_body := a5, cd_content_hash := a6\<rparr>) m = Inr m1"
    for m1 i a1 a2 a3 a4 a5 a6
    by (rule update_candidates_frame [OF that]) (simp add: cand_from_def)
  then show ?thesis
    by (simp add: update_memory_candidate_def Let_def review_frame_refl split: option.split sum.split)
qed

lemma apply_approved_frame:
  "apply_approved_candidate V fresh cx c d m = Inr (x, m1)
     \<Longrightarrow> memory_reviews m1 = memory_reviews m \<and> memory_candidates m1 = memory_candidates m"
  by (auto simp: apply_approved_candidate_def retract_target_rows dest!: write_canonical_frame
      split: sum.splits if_splits CandidateOperation.splits)

lemma approve_frame: "review_frame m (snd (approve_memory_candidate V fresh i d m))"
proof -
  have "review_frame m m2" if a: "apply_approved_candidate V fresh cx c d m = Inr (x, m1)"
    and b: "mark_candidate_decided E i st code m1 = Inr m2" for cx c x m1 E st code m2
    using apply_approved_frame [OF a] mark_frame [OF b] by (simp add: review_frame_def)
  then show ?thesis
    by (auto simp: approve_memory_candidate_def review_frame_refl split: option.split sum.split)
qed

lemma clear_decided_frame: "review_frame m (snd (clear_decided_memory_candidates w m))"
  by (auto simp: clear_decided_memory_candidates_def Let_def review_frame_def cand_kept_def intro: cand_from_refl)

lemmas command_frames = create_memory_frame update_memory_frame delete_memory_for_context_frame
  clear_memories_frame link_frame uses_frame settings_frame update_candidate_frame approve_frame
  reject_frame clear_decided_frame

lemma mem_step_frame: "mem_step V d m m' \<Longrightarrow> review_frame m m'"
  by (induction rule: mem_step.induct) (rule command_frames)+

section \<open>The invariant\<close>

definition claimed :: "phase \<Rightarrow> bool" where "claimed ph = (ph \<noteq> Spawned)"

abbreviation claimed_runs :: "(rstring \<times> phase) list \<Rightarrow> rstring list" where
  "claimed_runs ts \<equiv> map fst (filter (claimed \<circ> snd) ts)"

definition jobs_owned :: "db \<Rightarrow> MemoryReviewJob list \<Rightarrow> bool" where
  "jobs_owned d js = (\<forall>j \<in> set js. (rj_run_id j, rj_workflow_id j) \<in> run_owner ` set (runs d))"

definition tasks_ok :: "db \<Rightarrow> MemoryReviewJob list \<Rightarrow> (rstring \<times> phase) list \<Rightarrow> bool" where
  "tasks_ok d js ts = (distinct (claimed_runs ts)
     \<and> (\<forall>r \<in> set (claimed_runs ts). run_exists r d \<longrightarrow> (\<exists>j \<in> set js. job_is r JRunning j))
     \<and> (\<forall>r g vs. (r, Deciding g vs) \<in> set ts \<longrightarrow> length vs \<le> MAX_CANDIDATES_PER_REVIEW))"

definition candidates_of :: "rstring \<Rightarrow> MemoryCandidate list \<Rightarrow> rstring set" where
  "candidates_of run cs = cd_id ` {c \<in> set cs. cd_review_run_id c = run}"

definition reviewed :: "MemoryReviewJob list \<Rightarrow> MemoryCandidate list \<Rightarrow> bool" where
  "reviewed js cs = ((\<forall>c \<in> set cs. \<exists>j \<in> set js. job_is (cd_review_run_id c) JCompleted j)
     \<and> (\<forall>run. card (candidates_of run cs) \<le> MAX_CANDIDATES_PER_REVIEW))"

definition review_inv :: "review_sys \<Rightarrow> bool" where
  "review_inv s = (ev_inv (vs_db s) \<and> mem_ok (vs_db s) (vs_mem s)
     \<and> jobs_owned (vs_db s) (memory_reviews (vs_mem s))
     \<and> tasks_ok (vs_db s) (memory_reviews (vs_mem s)) (vs_tasks s)
     \<and> reviewed (memory_reviews (vs_mem s)) (memory_candidates (vs_mem s)))"

lemma finite_candidates_of [simp]: "finite (candidates_of run cs)"
  by (simp add: candidates_of_def)

lemma reviewed_kept:
  assumes "reviewed js cs" and "cand_kept cs cs'"
  shows "reviewed js cs'"
proof -
  have sub: "candidates_of run cs' \<subseteq> candidates_of run cs" for run
    using assms(2) unfolding candidates_of_def cand_kept_def cand_from_def by fastforce
  have "card (candidates_of run cs') \<le> MAX_CANDIDATES_PER_REVIEW" for run
    using card_mono [OF finite_candidates_of sub] assms(1) le_trans unfolding reviewed_def by blast
  moreover have "\<exists>j \<in> set js. job_is (cd_review_run_id c) JCompleted j" if "c \<in> set cs'" for c
  proof -
    from that assms(2) obtain x where "x \<in> set cs" "cd_review_run_id c = cd_review_run_id x"
      unfolding cand_kept_def cand_from_def by blast
    with assms(1) show ?thesis unfolding reviewed_def by auto
  qed
  ultimately show ?thesis unfolding reviewed_def by blast
qed

text \<open>Jobs that change from a state that is neither running nor completed leave tasks and candidates right.\<close>

lemma set_update_jobs:
  assumes "\<And>j. rj_run_id (f j) = rj_run_id j \<and> rj_workflow_id (f j) = rj_workflow_id j"
  shows "j \<in> set js \<Longrightarrow> \<not> p j \<Longrightarrow> j \<in> set (update_where p f js)"
    and "jobs_owned d js \<Longrightarrow> jobs_owned d (update_where p f js)"
  using assms by (auto simp: set_update_where jobs_owned_def)

lemma tasks_ok_update:
  assumes "tasks_ok d js ts" and "\<And>j. j \<in> set js \<Longrightarrow> rj_status j = JRunning \<Longrightarrow> rj_run_id j \<in> set (claimed_runs ts) \<Longrightarrow> j \<in> set js'"
  shows "tasks_ok d js' ts"
  using assms unfolding tasks_ok_def by blast

lemma reviewed_update:
  assumes "reviewed js cs" and "\<And>j. j \<in> set js \<Longrightarrow> rj_status j = JCompleted \<Longrightarrow> j \<in> set js'"
  shows "reviewed js' cs"
  using assms unfolding reviewed_def by blast

lemma update_jobs_rows:
  "memory_reviews (snd (update_jobs p f m)) = update_where p f (memory_reviews m)"
  "memory_candidates (snd (update_jobs p f m)) = memory_candidates m"
  by (simp_all add: update_jobs_def)

text \<open>A task that leaves.\<close>

lemma tasks_ok_remove:
  assumes "tasks_ok d js (ts1 @ (run, ph) # ts2)"
  shows "tasks_ok d js (ts1 @ ts2)"
  using assms unfolding tasks_ok_def by (auto split: if_splits)

lemma claimed_once:
  assumes "tasks_ok d js (ts1 @ (run, ph) # ts2)" and "claimed ph"
  shows "run \<notin> set (claimed_runs (ts1 @ ts2))"
  using assms unfolding tasks_ok_def by auto

lemma tasks_ok_replace:
  assumes "tasks_ok d js (ts1 @ (run, ph) # ts2)" and "claimed ph" and "claimed ph'"
    and "\<And>g vs. ph' = Deciding g vs \<Longrightarrow> length vs \<le> MAX_CANDIDATES_PER_REVIEW"
  shows "tasks_ok d js (ts1 @ (run, ph') # ts2)"
  using assms unfolding tasks_ok_def by (auto split: if_splits)

section \<open>Every step keeps it\<close>

lemma apply_approved_ok:
  assumes "mem_ok d m" and "apply_approved_candidate V fresh cx c d m = Inr (x, m1)"
  shows "mem_ok d m1"
proof -
  have "mem_ok d m2" if "write_canonical_memory d (record_of_candidate E fresh c t) m = Inr m2" for E t m2
    by (rule mem_ok_write_canonical [OF assms(1) that]) (simp add: record_of_candidate_def)
  with assms retract_target_ok [OF assms(1)] show ?thesis
    by (auto simp: apply_approved_candidate_def split: sum.splits if_splits CandidateOperation.splits)
qed

lemma approve_memory_candidate_ok:
  assumes "mem_ok d m"
  shows "mem_ok d (snd (approve_memory_candidate V fresh i d m))"
proof -
  have "mem_ok d m2" if "apply_approved_candidate V fresh cx c d m = Inr (x, m1)"
    "mark_candidate_decided E i st code m1 = Inr m2" for cx c x m1 E st code m2
    using mark_candidate_decided_ok [OF apply_approved_ok [OF assms that(1)] that(2)] .
  with assms show ?thesis by (auto simp: approve_memory_candidate_def split: option.split sum.split)
qed

lemma mem_step_ok: "mem_step V d m m' \<Longrightarrow> mem_ok d m \<Longrightarrow> mem_ok d m'"
  by (induction rule: mem_step.induct)
    (simp_all only: create_memory_ok update_memory_ok delete_memory_for_context_ok clear_memories_ok link_memory_ok
      unlink_memory_ok insert_run_memory_uses_ok settings_ok set_workflow_memory_review_ok
      update_memory_candidate_ok approve_memory_candidate_ok reject_memory_candidate_ok clear_decided_ok)

lemma mem_step_inv: "review_inv s \<Longrightarrow> mem_step V (vs_db s) (vs_mem s) m \<Longrightarrow> review_inv (s\<lparr>vs_mem := m\<rparr>)"
  using mem_step_ok mem_step_frame [of V "vs_db s" "vs_mem s" m] reviewed_kept
  by (auto simp: review_inv_def review_frame_def)

lemma fail_rows:
  "memory_reviews (snd (fail_memory_review E run code m)) = update_where (job_is run JRunning)
     (\<lambda>j. j\<lparr>rj_status := JFailed, rj_error_code := Some code, rj_finished_at := Some (me_now E)\<rparr>) (memory_reviews m)"
  "memory_candidates (snd (fail_memory_review E run code m)) = memory_candidates m"
proof -
  have none: "\<not> list_ex p xs \<Longrightarrow> update_where p f xs = xs" for p f and xs :: "MemoryReviewJob list"
    by (induction xs) (auto simp: update_where_def)
  show "memory_reviews (snd (fail_memory_review E run code m)) = update_where (job_is run JRunning)
     (\<lambda>j. j\<lparr>rj_status := JFailed, rj_error_code := Some code, rj_finished_at := Some (me_now E)\<rparr>) (memory_reviews m)"
    by (simp add: fail_memory_review_def update_jobs_def none)
  show "memory_candidates (snd (fail_memory_review E run code m)) = memory_candidates m"
    by (simp add: fail_memory_review_def update_jobs_def)
qed

lemma fail_inv:
  assumes inv: "review_inv s" and ts: "vs_tasks s = ts1 @ (run, ph) # ts2" and "claimed ph"
    and same: "mem_ok (vs_db s) m" "memory_reviews m = memory_reviews (vs_mem s)"
      "memory_candidates m = memory_candidates (vs_mem s)"
  shows "review_inv (s\<lparr>vs_mem := snd (fail_memory_review E run code m), vs_tasks := ts1 @ ts2\<rparr>)"
proof -
  let ?js = "memory_reviews (vs_mem s)"
  let ?js' = "memory_reviews (snd (fail_memory_review E run code m))"
  have js': "?js' = update_where (job_is run JRunning)
     (\<lambda>j. j\<lparr>rj_status := JFailed, rj_error_code := Some code, rj_finished_at := Some (me_now E)\<rparr>) ?js"
    by (simp add: fail_rows same)
  have task: "tasks_ok (vs_db s) ?js (ts1 @ (run, ph) # ts2)" using inv ts by (simp add: review_inv_def)
  have "tasks_ok (vs_db s) ?js' (ts1 @ ts2)"
    by (rule tasks_ok_update [OF tasks_ok_remove [OF task]])
      (use claimed_once [OF task \<open>claimed ph\<close>] in \<open>auto simp: js' set_update_where\<close>)
  moreover have "reviewed ?js' (memory_candidates (vs_mem s))"
    by (rule reviewed_update [of ?js]) (use inv in \<open>auto simp: review_inv_def js' set_update_where\<close>)
  moreover have "jobs_owned (vs_db s) ?js'"
    using inv unfolding js' by (intro set_update_jobs(2)) (simp_all add: review_inv_def)
  ultimately show ?thesis using inv same fail_memory_review_ok [of "vs_db s" m] by (simp add: review_inv_def fail_rows(2))
qed

lemma claim_inv:
  assumes inv: "review_inv s" and ts: "vs_tasks s = ts1 @ (run, Spawned) # ts2"
    and m: "claim_memory_review E run (vs_mem s) = (b, m)"
  shows "review_inv (s\<lparr>vs_mem := m, vs_tasks := ts1 @ (if b then [(run, Claimed)] else []) @ ts2\<rparr>)"
proof -
  let ?js = "memory_reviews (vs_mem s)"
  let ?f = "\<lambda>j. j\<lparr>rj_status := JRunning, rj_started_at := Some (me_now E)\<rparr>"
  have mj: "memory_reviews m = update_where (job_is run JPending) ?f ?js"
    and mc: "memory_candidates m = memory_candidates (vs_mem s)" and b: "b = list_ex (job_is run JPending) ?js"
    using m by (auto simp: claim_memory_review_def update_jobs_def)
  have ok: "mem_ok (vs_db s) m" using inv claim_memory_review_ok [of "vs_db s" "vs_mem s" E run] m
    by (simp add: review_inv_def)
  have owned: "jobs_owned (vs_db s) (memory_reviews m)"
    using inv unfolding mj by (intro set_update_jobs(2)) (simp_all add: review_inv_def)
  have rev: "reviewed (memory_reviews m) (memory_candidates m)"
    unfolding mc by (rule reviewed_update [of ?js]) (use inv in \<open>auto simp: review_inv_def mj set_update_where\<close>)
  have old: "tasks_ok (vs_db s) ?js (ts1 @ ts2)"
    by (rule tasks_ok_remove [of _ _ _ run Spawned]) (use inv ts in \<open>simp add: review_inv_def\<close>)
  have rest: "tasks_ok (vs_db s) (memory_reviews m) (ts1 @ ts2)"
    by (rule tasks_ok_update [OF old]) (auto simp: mj set_update_where)
  have "tasks_ok (vs_db s) (memory_reviews m) (ts1 @ (run, Claimed) # ts2)" if b
  proof -
    from that b obtain j where j: "j \<in> set ?js" "job_is run JPending j" by (auto simp: list_ex_iff)
    have dist: "distinct (map rj_run_id ?js)" using inv by (simp add: review_inv_def mem_ok_except_def jobs_ok_def)
    have exists: "run_exists run (vs_db s)"
      using inv j by (auto simp: review_inv_def mem_ok_except_def jobs_ok_def)
    have "run \<notin> set (claimed_runs (ts1 @ ts2))"
    proof
      assume "run \<in> set (claimed_runs (ts1 @ ts2))"
      with old exists obtain k where k: "k \<in> set ?js" "job_is run JRunning k" unfolding tasks_ok_def by blast
      have "k = j" by (rule distinct_map_eq [OF dist k(1) j(1)]) (use k j in simp)
      with k j show False by simp
    qed
    moreover have "?f j \<in> set (memory_reviews m)"
      using j unfolding mj set_update_where by auto
    then have "\<exists>k \<in> set (memory_reviews m). job_is run JRunning k" using j by (intro bexI) auto
    ultimately show ?thesis
      using rest unfolding tasks_ok_def by (auto simp: claimed_def)
  qed
  with rest ok owned rev inv show ?thesis by (simp add: review_inv_def)
qed

lemma retry_inv:
  assumes inv: "review_inv s" and m: "retry_memory_review run (vs_mem s) = (Inr j, m)"
  shows "review_inv (s\<lparr>vs_mem := m, vs_tasks := vs_tasks s @ [(run, Spawned)]\<rparr>)"
proof -
  let ?js = "memory_reviews (vs_mem s)"
  let ?f = "\<lambda>j. j\<lparr>rj_status := JPending, rj_error_code := None, rj_started_at := None, rj_finished_at := None\<rparr>"
  have m': "m = snd (update_jobs (job_is run JFailed) ?f (vs_mem s))"
    using m by (auto simp: retry_memory_review_def split: option.splits if_splits prod.splits)
  then have mj: "memory_reviews m = update_where (job_is run JFailed) ?f ?js"
    and mc: "memory_candidates m = memory_candidates (vs_mem s)" by (simp_all add: update_jobs_def)
  have ok: "mem_ok (vs_db s) m"
    using inv retry_memory_review_ok [of "vs_db s" "vs_mem s" run] m by (simp add: review_inv_def)
  have "jobs_owned (vs_db s) (memory_reviews m)"
    using inv unfolding mj by (intro set_update_jobs(2)) (simp_all add: review_inv_def)
  moreover have "reviewed (memory_reviews m) (memory_candidates m)"
    unfolding mc by (rule reviewed_update [of ?js]) (use inv in \<open>auto simp: review_inv_def mj set_update_where\<close>)
  moreover have "tasks_ok (vs_db s) (memory_reviews m) (vs_tasks s)"
    by (rule tasks_ok_update [of _ ?js]) (use inv in \<open>auto simp: review_inv_def mj set_update_where\<close>)
  ultimately show ?thesis using inv ok by (simp add: review_inv_def tasks_ok_def claimed_def)
qed

lemma ensure_rows:
  "(memory_reviews (snd (ensure_memory_review_job E run w p model d m)) = memory_reviews m
     \<or> (\<exists>j. memory_reviews (snd (ensure_memory_review_job E run w p model d m)) = memory_reviews m @ [j]
         \<and> rj_run_id j = run \<and> rj_workflow_id j = w))
   \<and> memory_candidates (snd (ensure_memory_review_job E run w p model d m)) = memory_candidates m"
  by (simp add: ensure_memory_review_job_def)

lemma schedule_inv:
  assumes inv: "review_inv s" and r: "r \<in> set (runs (vs_db s))"
    and m: "schedule_memory_review_with E (run_id r) (run_workflow r) (vs_db s) (vs_mem s) = (b, m)"
  shows "review_inv (s\<lparr>vs_mem := m, vs_tasks := vs_tasks s @ (if b then [(run_id r, Spawned)] else [])\<rparr>)"
proof -
  let ?js = "memory_reviews (vs_mem s)"
  have m': "m = vs_mem s \<or> (\<exists>p model. m = snd (ensure_memory_review_job E (run_id r) (run_workflow r) p model (vs_db s) (vs_mem s)))"
    using m by (auto simp: schedule_memory_review_with_def split: option.splits)
  have ok: "mem_ok (vs_db s) m" using inv m' ensure_memory_review_job_ok by (auto simp: review_inv_def)
  have grown: "memory_reviews m = ?js \<or> (\<exists>j. memory_reviews m = ?js @ [j] \<and> rj_run_id j = run_id r \<and> rj_workflow_id j = run_workflow r)"
    and mc: "memory_candidates m = memory_candidates (vs_mem s)"
    using m' ensure_rows [of E "run_id r" "run_workflow r" _ _ "vs_db s" "vs_mem s"] by metis+
  have sub: "set ?js \<subseteq> set (memory_reviews m)" using grown by auto
  have "(run_id r, run_workflow r) \<in> run_owner ` set (runs (vs_db s))"
    using r by (auto simp: run_owner_def)
  then have "jobs_owned (vs_db s) (memory_reviews m)"
    using inv grown by (auto simp: review_inv_def jobs_owned_def)
  moreover have "reviewed (memory_reviews m) (memory_candidates m)"
    unfolding mc by (rule reviewed_update [of ?js]) (use inv sub in \<open>auto simp: review_inv_def\<close>)
  moreover have "tasks_ok (vs_db s) (memory_reviews m) (vs_tasks s)"
    by (rule tasks_ok_update [of _ ?js]) (use inv sub in \<open>auto simp: review_inv_def\<close>)
  ultimately show ?thesis using inv ok by (auto simp: review_inv_def tasks_ok_def claimed_def)
qed

text \<open>The end of a review.\<close>

lemma validate_answer_bounded:
  assumes "validate_answer V installed g reply m = Inr vs"
  shows "length vs \<le> MAX_CANDIDATES_PER_REVIEW"
proof -
  from assms obtain t ss where "parse_reviewer_output V t = Some ss"
    and vs: "\<exists>n f. vs = take n (List.map_filter f ss)"
    by (auto simp: validate_answer_def Let_def split: sum.splits option.splits)
  then have ss: "length ss \<le> MAX_CANDIDATES_PER_REVIEW"
    by (auto simp: parse_reviewer_output_def Let_def split: if_splits option.splits)
  have "length (List.map_filter f xs) \<le> length xs" for f :: "ReviewerSuggestionRaw \<Rightarrow> ValidatedCandidate option" and xs
    by (simp add: List.map_filter_def)
  with ss vs show ?thesis by (metis le_trans length_take min.cobounded1)
qed

lemma finalize_outcome:
  assumes "finalize_review_success E fresh run w vs d m = (x, m2)"
  obtains e where "x = Inl e" "m2 = m"
  | n ds where "x = Inr n" "memory_candidates m2 = memory_candidates m @ ds" "length ds \<le> length vs"
      "\<And>c. c \<in> set ds \<Longrightarrow> cd_review_run_id c = run \<and> cd_status c = CPending"
      "list_ex (job_is run JRunning) (memory_reviews m)"
      "memory_reviews m2 = update_where (job_is run JRunning)
        (\<lambda>j. j\<lparr>rj_status := JCompleted, rj_candidate_count := n, rj_finished_at := Some (me_now E)\<rparr>) (memory_reviews m)"
proof (cases "insert_candidates_conn d (map (\<lambda>(i, v). candidate_of_validated i run w (me_now E) v) (zip fresh vs)) m")
  case (Inl e)
  with assms have "x = Inl e" "m2 = m" by (simp_all add: finalize_review_success_def)
  then show ?thesis by (rule that(1))
next
  case (Inr y)
  obtain n m1 where y: "y = (n, m1)" by (cases y)
  from insert_candidates_appends [OF Inr [unfolded y]] obtain ds where
    ds: "m1 = m\<lparr>memory_candidates := memory_candidates m @ ds\<rparr>"
      "subseq ds (map (\<lambda>(i, v). candidate_of_validated i run w (me_now E) v) (zip fresh vs))"
      "length ds = n" by blast
  show ?thesis
  proof (cases "list_ex (job_is run JRunning) (memory_reviews m)")
    case False
    with assms Inr y ds have "x = Inl (Other ''review_not_running'')" "m2 = m"
      by (simp_all add: finalize_review_success_def update_jobs_def)
    then show ?thesis by (rule that(1))
  next
    case True
    with assms Inr y ds have m2: "x = Inr n" "m2 = snd (update_jobs (job_is run JRunning)
        (\<lambda>j. j\<lparr>rj_status := JCompleted, rj_candidate_count := n, rj_finished_at := Some (me_now E)\<rparr>) m1)"
      by (auto simp: finalize_review_success_def update_jobs_def)
    have len: "length ds \<le> length vs" using list_emb_length [OF ds(2)] by simp
    have new: "cd_review_run_id c = run \<and> cd_status c = CPending" if c: "c \<in> set ds" for c
    proof -
      obtain y where "y \<in> set (map (\<lambda>(i, v). candidate_of_validated i run w (me_now E) v) (zip fresh vs))" "c = y"
        by (rule list_emb_set [OF ds(2) c])
      then show ?thesis by (auto simp: candidate_of_validated_def)
    qed
    show ?thesis
      by (rule that(2) [OF m2(1) _ len new True]) (simp_all add: m2(2) ds(1) update_jobs_def)
  qed
qed

lemma conclude_inv:
  assumes inv: "review_inv s" and ts: "vs_tasks s = ts1 @ (run, Deciding g vs) # ts2"
  shows "review_inv (s\<lparr>vs_mem := conclude_review E fresh run g vs (vs_db s) (vs_mem s), vs_tasks := ts1 @ ts2\<rparr>)"
proof -
  let ?js = "memory_reviews (vs_mem s)" and ?cs = "memory_candidates (vs_mem s)"
  let ?w = "rj_workflow_id (ga_job g)"
  have claimed: "claimed (Deciding g vs)" by (simp add: claimed_def)
  have task: "tasks_ok (vs_db s) ?js (ts1 @ (run, Deciding g vs) # ts2)" using inv ts by (simp add: review_inv_def)
  then have few: "length vs \<le> MAX_CANDIDATES_PER_REVIEW" unfolding tasks_ok_def by auto
  obtain x m2 where x: "finalize_review_success E fresh run ?w vs (vs_db s) (vs_mem s) = (x, m2)" by fastforce
  have ok: "mem_ok (vs_db s) m2"
    using finalize_review_success_ok [of "vs_db s" "vs_mem s" E fresh run ?w vs] inv x by (simp add: review_inv_def)
  from x show ?thesis
  proof (cases rule: finalize_outcome)
    case (1 e)
    have "review_inv (s\<lparr>vs_mem := snd (fail_memory_review E run REVIEW_ERROR_INTERNAL (vs_mem s)), vs_tasks := ts1 @ ts2\<rparr>)"
      by (rule fail_inv [OF inv ts claimed]) (use inv in \<open>simp_all add: review_inv_def\<close>)
    with 1 x show ?thesis by (simp add: conclude_review_def)
  next
    case (2 n ds)
    let ?f = "\<lambda>j. j\<lparr>rj_status := JCompleted, rj_candidate_count := n, rj_finished_at := Some (me_now E)\<rparr>"
    have dist: "distinct (map rj_run_id ?js)" using inv by (simp add: review_inv_def mem_ok_except_def jobs_ok_def)
    from 2(5) obtain k where k: "k \<in> set ?js" "job_is run JRunning k" by (auto simp: list_ex_iff)
    have none: "cd_review_run_id c \<noteq> run" if "c \<in> set ?cs" for c
    proof
      assume "cd_review_run_id c = run"
      with that inv obtain j where j: "j \<in> set ?js" "job_is run JCompleted j"
        unfolding review_inv_def reviewed_def by blast
      have "j = k" by (rule distinct_map_eq [OF dist j(1) k(1)]) (use j k in simp)
      with j k show False by simp
    qed
    have "\<exists>j \<in> set (memory_reviews m2). job_is (cd_review_run_id c) JCompleted j" if "c \<in> set (memory_candidates m2)" for c
    proof (cases "c \<in> set ds")
      case True
      have "?f k \<in> set (memory_reviews m2)" using k unfolding 2(6) set_update_where by blast
      then show ?thesis by (rule rev_bexI) (use 2(4) [OF True] k in simp)
    next
      case False
      with that 2(2) have "c \<in> set ?cs" by simp
      with inv obtain j where j: "j \<in> set ?js" "job_is (cd_review_run_id c) JCompleted j"
        unfolding review_inv_def reviewed_def by blast
      then have "j \<in> set (memory_reviews m2)" unfolding 2(6) set_update_where by simp
      with j(2) show ?thesis by blast
    qed
    moreover have "card (candidates_of r (memory_candidates m2)) \<le> MAX_CANDIDATES_PER_REVIEW" for r
    proof (cases "r = run")
      case True
      have "candidates_of run (memory_candidates m2) \<subseteq> set (map cd_id ds)"
        using none unfolding candidates_of_def 2(2) by auto
      then have "card (candidates_of run (memory_candidates m2)) \<le> length ds"
        by (metis card_length card_mono finite_set length_map le_trans)
      with 2(3) few True show ?thesis by simp
    next
      case False
      then have "candidates_of r (memory_candidates m2) = candidates_of r ?cs"
        using 2(4) unfolding candidates_of_def 2(2) by auto
      with inv show ?thesis by (simp add: review_inv_def reviewed_def)
    qed
    ultimately have "reviewed (memory_reviews m2) (memory_candidates m2)" unfolding reviewed_def by blast
    moreover have "jobs_owned (vs_db s) (memory_reviews m2)"
      using inv unfolding 2(6) by (intro set_update_jobs(2)) (simp_all add: review_inv_def)
    moreover have "tasks_ok (vs_db s) (memory_reviews m2) (ts1 @ ts2)"
      by (rule tasks_ok_update [OF tasks_ok_remove [OF task]])
        (use claimed_once [OF task claimed] in \<open>auto simp: 2(6) set_update_where\<close>)
    ultimately show ?thesis using inv ok x 2(1) by (simp add: conclude_review_def review_inv_def)
  qed
qed

lemma run_exists_iff: "run_exists i d \<longleftrightarrow> i \<in> run_id ` set (runs d)"
  by (simp add: run_exists_def)

lemma store_inv:
  assumes inv: "review_inv s" and step: "db_step (vs_db s) d" and grows: "db_grows (vs_db s) d"
    and new: "(run_id ` set (runs d) - run_id ` set (runs (vs_db s))) \<inter> fst ` set (vs_tasks s) = {}"
  shows "review_inv (s\<lparr>vs_db := d\<rparr>)"
proof -
  have "mem_ok d (vs_mem s)"
    by (rule mem_ok_db_mono [of "vs_db s"])
      (use inv db_grows_exists [OF grows] in \<open>auto simp: review_inv_def run_exists_iff\<close>)
  moreover have "jobs_owned d (memory_reviews (vs_mem s))"
  proof -
    have "run_owner ` set (runs (vs_db s)) \<subseteq> run_owner ` set (runs d)" using grows by (simp add: db_grows_def)
    moreover have "jobs_owned (vs_db s) (memory_reviews (vs_mem s))" using inv by (simp add: review_inv_def)
    ultimately show ?thesis unfolding jobs_owned_def by (metis subsetD)
  qed
  moreover have "tasks_ok d (memory_reviews (vs_mem s)) (vs_tasks s)"
  proof -
    have "run_exists r (vs_db s)" if "r \<in> set (claimed_runs (vs_tasks s))" "run_exists r d" for r
      using that new unfolding run_exists_iff by auto
    with inv show ?thesis unfolding review_inv_def tasks_ok_def by blast
  qed
  moreover have "ev_inv d" using inv step by (auto simp: review_inv_def intro: db_step_inv)
  ultimately show ?thesis using inv by (simp add: review_inv_def)
qed

text \<open>Deleting a workflow takes its jobs and their candidates with it.\<close>

lemma fold_index_memory_frame [simp]:
  "memory_reviews (fold (\<lambda>r. index_memory (mm_id r)) rs m) = memory_reviews m"
  "memory_candidates (fold (\<lambda>r. index_memory (mm_id r)) rs m) = memory_candidates m"
  by (induction rs arbitrary: m) simp_all

definition kept_jobs :: "rstring \<Rightarrow> db \<Rightarrow> MemoryReviewJob list \<Rightarrow> MemoryReviewJob list" where
  "kept_jobs w d js = filter (\<lambda>j. rj_workflow_id j \<noteq> w \<and> rj_run_id j \<notin> set (run_ids_of w d)) js"

lemma delete_workflow_memories_rows:
  "memory_reviews (delete_workflow_memories w d m) = kept_jobs w d (memory_reviews m)"
  "\<exists>cs. cand_kept (memory_candidates m) cs
     \<and> memory_candidates (delete_workflow_memories w d m)
       = filter (\<lambda>c. cd_workflow_id c \<noteq> w \<and> cd_review_run_id c \<in> rj_run_id ` set (kept_jobs w d (memory_reviews m))) cs"
proof -
  let ?m1 = "disown w (delete_rows (owned_by w) (fold (\<lambda>r. delete_memory_index (mm_id r)) (filter (owned_by w) (memories m)) m))"
  have m1: "memory_reviews ?m1 = memory_reviews m" "cand_kept (memory_candidates m) (memory_candidates ?m1)"
    using delete_rows_frame [where p = "owned_by w" and m = "fold (\<lambda>r. delete_memory_index (mm_id r)) (filter (owned_by w) (memories m)) m"]
    by (simp_all add: disown_def Let_def)
  show "memory_reviews (delete_workflow_memories w d m) = kept_jobs w d (memory_reviews m)"
    using m1 by (simp add: delete_workflow_memories_def Let_def cascade_workflow_def kept_jobs_def)
  have "memory_candidates (delete_workflow_memories w d m)
       = filter (\<lambda>c. cd_workflow_id c \<noteq> w \<and> cd_review_run_id c \<in> rj_run_id ` set (kept_jobs w d (memory_reviews m)))
           (memory_candidates ?m1)"
    using m1 by (simp add: delete_workflow_memories_def Let_def cascade_workflow_def kept_jobs_def)
  with m1(2) show "\<exists>cs. cand_kept (memory_candidates m) cs
     \<and> memory_candidates (delete_workflow_memories w d m)
       = filter (\<lambda>c. cd_workflow_id c \<noteq> w \<and> cd_review_run_id c \<in> rj_run_id ` set (kept_jobs w d (memory_reviews m))) cs"
    by blast
qed

lemma ev_inv_run_ids: "ev_inv d \<Longrightarrow> distinct (map run_id (runs d))"
  by (simp add: ev_inv_def schema_defs)

lemma run_owner_unique:
  assumes "ev_inv d" and "(i, v) \<in> run_owner ` set (runs d)" and "x \<in> set (runs d)" and "run_id x = i"
  shows "run_workflow x = v"
proof -
  from assms(2) obtain y where y: "y \<in> set (runs d)" "run_id y = i" "run_workflow y = v"
    by (auto simp: run_owner_def)
  have "x = y" by (rule distinct_map_eq [OF ev_inv_run_ids [OF assms(1)] assms(3) y(1)]) (simp add: assms(4) y(2))
  with y show ?thesis by simp
qed

lemma remove_inv:
  assumes inv: "review_inv s"
  shows "review_inv (s\<lparr>vs_db := snd (delete_workflow w (vs_db s)),
    vs_mem := delete_workflow_memories w (vs_db s) (vs_mem s)\<rparr>)"
proof -
  let ?d = "vs_db s" and ?m = "vs_mem s"
  let ?js = "memory_reviews ?m" and ?js' = "kept_jobs w ?d (memory_reviews ?m)"
  have d': "snd (delete_workflow w ?d) = remove_workflow w ?d" by (simp add: delete_workflow_def)
  have ev: "ev_inv ?d" and own: "jobs_owned ?d ?js" and task: "tasks_ok ?d ?js (vs_tasks s)"
    and rev: "reviewed ?js (memory_candidates ?m)" and ok: "mem_ok ?d ?m"
    using inv by (simp_all add: review_inv_def)
  have dist: "distinct (map rj_run_id ?js)" using ok by (simp add: mem_ok_except_def jobs_ok_def)
  have keep: "j \<in> set ?js'" if j: "j \<in> set ?js" and x: "x \<in> set (runs ?d)" "run_id x = rj_run_id j" "run_workflow x \<noteq> w" for j x
  proof -
    have owner: "(rj_run_id j, rj_workflow_id j) \<in> run_owner ` set (runs ?d)" using own j by (simp add: jobs_owned_def)
    then have "rj_workflow_id j = run_workflow x" using run_owner_unique [OF ev owner x(1)] x(2) by simp
    moreover have "rj_run_id j \<notin> set (run_ids_of w ?d)"
    proof
      assume "rj_run_id j \<in> set (run_ids_of w ?d)"
      then obtain y where "y \<in> set (runs ?d)" "run_id y = rj_run_id j" "run_workflow y = w"
        by (auto simp: run_ids_of_def)
      with run_owner_unique [OF ev owner this(1)] x(3) calculation show False by simp
    qed
    ultimately show ?thesis using j x(3) by (simp add: kept_jobs_def)
  qed
  have "jobs_owned (remove_workflow w ?d) ?js'"
  proof -
    have "(rj_run_id j, rj_workflow_id j) \<in> run_owner ` set (runs (remove_workflow w ?d))" if "j \<in> set ?js'" for j
    proof -
      from that have j: "j \<in> set ?js" "rj_workflow_id j \<noteq> w" by (simp_all add: kept_jobs_def)
      have "(rj_run_id j, rj_workflow_id j) \<in> run_owner ` set (runs ?d)"
        using own j(1) unfolding jobs_owned_def by blast
      then obtain x where x: "x \<in> set (runs ?d)" "(rj_run_id j, rj_workflow_id j) = run_owner x" by (rule imageE)
      with j(2) have "x \<in> set (runs (remove_workflow w ?d))" by (simp add: remove_workflow_def run_owner_def)
      then have "run_owner x \<in> run_owner ` set (runs (remove_workflow w ?d))" by (rule imageI)
      then show ?thesis by (simp only: x(2))
    qed
    then show ?thesis by (simp add: jobs_owned_def)
  qed
  moreover have "tasks_ok (remove_workflow w ?d) ?js' (vs_tasks s)"
  proof -
    have "\<exists>j \<in> set ?js'. job_is r JRunning j" if r: "r \<in> set (claimed_runs (vs_tasks s))"
      and ex: "run_exists r (remove_workflow w ?d)" for r
    proof -
      from ex obtain x where x: "x \<in> set (runs ?d)" "run_id x = r" "run_workflow x \<noteq> w"
        unfolding run_exists_remove by blast
      then have "run_exists r ?d" by (auto simp: run_exists_iff)
      with task r obtain j where j: "j \<in> set ?js" "job_is r JRunning j" unfolding tasks_ok_def by blast
      have "j \<in> set ?js'" by (rule keep [OF j(1) x(1) _ x(3)]) (use j x in simp)
      with j(2) show ?thesis by blast
    qed
    with task show ?thesis unfolding tasks_ok_def by blast
  qed
  moreover have "reviewed ?js' (memory_candidates (delete_workflow_memories w ?d ?m))"
  proof -
    obtain cs where cs: "cand_kept (memory_candidates ?m) cs" and new: "memory_candidates (delete_workflow_memories w ?d ?m)
       = filter (\<lambda>c. cd_workflow_id c \<noteq> w \<and> cd_review_run_id c \<in> rj_run_id ` set ?js') cs"
      using delete_workflow_memories_rows(2) by blast
    have "cand_kept cs (filter P cs)" for P by (auto simp: cand_kept_def intro: cand_from_refl)
    then have kept: "reviewed ?js (memory_candidates (delete_workflow_memories w ?d ?m))"
      unfolding new by (rule reviewed_kept [OF reviewed_kept [OF rev cs]])
    have "\<exists>j \<in> set ?js'. job_is (cd_review_run_id c) JCompleted j"
      if c: "c \<in> set (memory_candidates (delete_workflow_memories w ?d ?m))" for c
    proof -
      from kept c obtain j where j: "j \<in> set ?js" "job_is (cd_review_run_id c) JCompleted j"
        unfolding reviewed_def by blast
      from c obtain k where k: "k \<in> set ?js'" "rj_run_id k = cd_review_run_id c" unfolding new by auto
      then have "k \<in> set ?js" by (simp add: kept_jobs_def)
      then have "j = k" by (rule distinct_map_eq [OF dist j(1)]) (use j k in simp)
      with j k show ?thesis by blast
    qed
    with kept show ?thesis unfolding reviewed_def by blast
  qed
  moreover have "ev_inv (remove_workflow w ?d)" using delete_workflow_inv [OF ev, of w] by (simp add: d')
  moreover have "mem_ok (remove_workflow w ?d) (delete_workflow_memories w ?d ?m)"
    using delete_workflow_memories_ok [OF ok, of w] by (simp add: d')
  ultimately show ?thesis by (simp add: review_inv_def d' delete_workflow_memories_rows(1))
qed

lemma task_step_inv: "task_step V F s t \<Longrightarrow> review_inv s \<Longrightarrow> review_inv t"
proof (induction rule: task_step.induct)
  case (schedule r s E b m)
  then show ?case by (intro schedule_inv)
next
  case (retry run s j m)
  then show ?case by (intro retry_inv)
next
  case (claim s ts1 run ts2 E b m)
  then show ?case by (intro claim_inv)
next
  case (gather s ts1 run ts2 E g)
  then have "tasks_ok (vs_db s) (memory_reviews (vs_mem s)) (ts1 @ (run, Claimed) # ts2)" by (simp add: review_inv_def)
  then have "tasks_ok (vs_db s) (memory_reviews (vs_mem s)) (ts1 @ (run, Asking g) # ts2)"
    by (rule tasks_ok_replace) (simp_all add: claimed_def)
  with gather show ?case by (simp add: review_inv_def)
next
  case (gather_failed s ts1 run ts2 E code E')
  show ?case by (rule fail_inv [OF gather_failed.prems gather_failed.hyps(1)]) (use gather_failed.prems in \<open>simp_all add: claimed_def review_inv_def\<close>)
next
  case (answer s ts1 run g ts2 E installed reply vs)
  then have "tasks_ok (vs_db s) (memory_reviews (vs_mem s)) (ts1 @ (run, Asking g) # ts2)" by (simp add: review_inv_def)
  then have "tasks_ok (vs_db s) (memory_reviews (vs_mem s)) (ts1 @ (run, Deciding g vs) # ts2)"
    by (rule tasks_ok_replace) (use validate_answer_bounded [OF answer.hyps(2)] in \<open>auto simp: claimed_def\<close>)
  with answer show ?case by (simp add: review_inv_def)
next
  case (answer_failed s ts1 run g ts2 E installed reply code E')
  show ?case by (rule fail_inv [OF answer_failed.prems answer_failed.hyps(1)]) (use answer_failed.prems in \<open>simp_all add: claimed_def review_inv_def\<close>)
next
  case (conclude s ts1 run g vs ts2 E fresh)
  then show ?case by (intro conclude_inv)
qed

lemma review_step_inv: "review_step V F s t \<Longrightarrow> review_inv s \<Longrightarrow> review_inv t"
proof (induction rule: review_step.induct)
  case (restart s)
  then show ?case by (simp add: review_inv_def tasks_ok_def)
qed (simp_all add: task_step_inv mem_step_inv store_inv remove_inv)

lemma review_inv_init: "review_inv review_init"
  by (simp add: review_inv_def review_init_def mem_ok_empty ev_inv_empty jobs_owned_def tasks_ok_def reviewed_def
      candidates_of_def) (simp_all add: empty_mem_def empty_db_def)

interpretation review: transition_invariant "\<lambda>s. s = review_init" "review_step V F" review_inv for V F
  by unfold_locales (auto intro: review_inv_init review_step_inv)

section \<open>Properties\<close>

text \<open>
  Property C3 (review jobs): in every state the application can reach, whatever the interleaving of
  reviews, commands, workflow deletions, steps of the store and restarts, the memory tables are valid
  (keys, \<^verbatim>\<open>CHECK\<close> clauses, references, full-text index), at most one task has claimed the review of a
  run, the job of a claimed run that still exists is running, every candidate belongs to a completed
  review, and no review has more than five candidates.
\<close>

theorem review_reachable:
  assumes "steps (review_step V F) review_init s"
  shows "mem_ok (vs_db s) (vs_mem s) \<and> distinct (claimed_runs (vs_tasks s))
    \<and> (\<forall>r \<in> set (claimed_runs (vs_tasks s)). run_exists r (vs_db s) \<longrightarrow>
        (\<exists>j \<in> set (memory_reviews (vs_mem s)). job_is r JRunning j))
    \<and> (\<forall>c \<in> set (memory_candidates (vs_mem s)). \<exists>j \<in> set (memory_reviews (vs_mem s)).
        job_is (cd_review_run_id c) JCompleted j)
    \<and> card (candidates_of run (memory_candidates (vs_mem s))) \<le> MAX_CANDIDATES_PER_REVIEW"
  using review.inv_reachable [OF refl assms] by (simp add: review_inv_def tasks_ok_def reviewed_def)

theorem review_reachable_witness:
  "mem_ok empty_db (snd (update_memory_review_settings (ex_cur\<lparr>cv_env := ex_mem_env 1\<rparr>)
      \<lparr>us_set_enabled = True, us_set_provider = Some ''codex'', us_set_model = None, us_set_max_candidates = None\<rparr> empty_mem))"
proof -
  let ?m = "snd (update_memory_review_settings (ex_cur\<lparr>cv_env := ex_mem_env 1\<rparr>)
      \<lparr>us_set_enabled = True, us_set_provider = Some ''codex'', us_set_model = None, us_set_max_candidates = None\<rparr> empty_mem)"
  have "mem_step ex_cur (vs_db review_init) (vs_mem review_init) ?m"
    by (simp add: review_init_def mem_step.settings)
  then have "steps (review_step ex_cur no_match) review_init (review_init\<lparr>vs_mem := ?m\<rparr>)"
    by (intro steps_step [OF steps_refl] review_step.command)
  from review_reachable [OF this] show ?thesis by (simp add: review_init_def)
qed

lemma update_jobs_same:
  "snd (update_jobs p f m) = m\<lparr>memory_reviews := update_where p f (memory_reviews m)\<rparr>"
  by (simp add: update_jobs_def)

definition canonical :: "mem \<Rightarrow> Memory list \<times> link_row list \<times> memory_fts_row list \<times> use_row list" where
  "canonical m = (memories m, memory_links m, memory_fts m, run_memory_uses m)"

lemma fail_canonical:
  "canonical (snd (fail_memory_review E run code m)) = canonical m"
  "artifacts (snd (fail_memory_review E run code m)) = artifacts m"
  by (simp_all add: fail_memory_review_def update_jobs_def canonical_def)

lemma conclude_effect:
  "\<exists>ds. memory_candidates (conclude_review E fresh run g vs d m) = memory_candidates m @ ds
     \<and> (\<forall>c \<in> set ds. cd_review_run_id c = run \<and> cd_status c = CPending)
     \<and> canonical (conclude_review E fresh run g vs d m) = canonical m
     \<and> artifacts (conclude_review E fresh run g vs d m) = artifacts m"
proof -
  obtain x m2 where x: "finalize_review_success E fresh run (rj_workflow_id (ga_job g)) vs d m = (x, m2)" by fastforce
  have same: "canonical m2 = canonical m \<and> artifacts m2 = artifacts m"
    using x by (auto simp: finalize_review_success_def update_jobs_def canonical_def
        dest!: insert_candidates_appends split: sum.splits prod.splits if_splits)
  from x show ?thesis
  proof (cases rule: finalize_outcome)
    case (1 e)
    then show ?thesis using x by (simp add: conclude_review_def fail_rows(2) fail_canonical)
  next
    case (2 n ds)
    then show ?thesis using x same by (intro exI [of _ ds]) (simp add: conclude_review_def)
  qed
qed

text \<open>
  Property C20 (a review only proposes): no step of a review - enqueueing, retrying, claiming, reading,
  asking, validating, concluding - changes the store, a memory, a link, the index, the log of uses or
  an artifact, and all it ever does to the candidates is to append pending ones of its own run.
\<close>

theorem review_only_proposes:
  assumes "task_step V F s t"
  shows "vs_db t = vs_db s \<and> canonical (vs_mem t) = canonical (vs_mem s) \<and> artifacts (vs_mem t) = artifacts (vs_mem s)
    \<and> (\<exists>ds. memory_candidates (vs_mem t) = memory_candidates (vs_mem s) @ ds
        \<and> (\<forall>c \<in> set ds. cd_status c = CPending \<and> cd_review_run_id c \<in> set (claimed_runs (vs_tasks s))))"
  using assms
proof cases
  case (schedule r E b m)
  have "canonical m = canonical (vs_mem s) \<and> artifacts m = artifacts (vs_mem s)
      \<and> memory_candidates m = memory_candidates (vs_mem s)"
    using schedule(3) by (auto simp: schedule_memory_review_with_def ensure_memory_review_job_def canonical_def split: option.splits)
  with schedule show ?thesis by simp
next
  case (retry run j m)
  have "canonical m = canonical (vs_mem s) \<and> artifacts m = artifacts (vs_mem s)
      \<and> memory_candidates m = memory_candidates (vs_mem s)"
    using retry(2) by (auto simp: retry_memory_review_def update_jobs_def canonical_def split: option.splits if_splits)
  with retry show ?thesis by simp
next
  case (claim ts1 run ts2 E b m)
  then show ?thesis by (auto simp: claim_memory_review_def update_jobs_def canonical_def)
next
  case (gather_failed ts1 run ts2 E code E')
  then show ?thesis by (simp add: fail_canonical fail_rows(2))
next
  case (answer_failed ts1 run g ts2 E installed reply code E')
  then show ?thesis by (simp add: fail_canonical fail_rows(2))
next
  case (conclude ts1 run g vs ts2 E fresh)
  have "run \<in> set (claimed_runs (vs_tasks s))" by (simp add: conclude(2) claimed_def)
  with conclude(1) conclude_effect [of E fresh run g vs "vs_db s" "vs_mem s"] show ?thesis by auto
qed simp_all

theorem review_only_proposes_witness:
  "canonical (vs_mem (review_init\<lparr>vs_mem := snd (claim_memory_review (ex_mem_env 1) ''r'' empty_mem)\<rparr>)) = ([], [], [], [])"
proof -
  let ?s = "review_init\<lparr>vs_tasks := [(''r'', Spawned)]\<rparr>"
  have "vs_tasks ?s = [] @ (''r'', Spawned) # []" by simp
  moreover have "claim_memory_review (ex_mem_env 1) ''r'' (vs_mem ?s) = (False, snd (claim_memory_review (ex_mem_env 1) ''r'' empty_mem))"
    by (simp add: review_init_def claim_memory_review_def update_jobs_def empty_mem_def)
  ultimately have "task_step ex_cur no_match ?s (?s\<lparr>vs_mem := snd (claim_memory_review (ex_mem_env 1) ''r'' empty_mem),
      vs_tasks := [] @ (if False then [(''r'', Claimed)] else []) @ []\<rparr>)"
    by (rule task_step.claim)
  from review_only_proposes [OF this] show ?thesis
    by (simp add: review_init_def) (simp add: canonical_def empty_mem_def)
qed

lemma delete_workflow_candidates:
  "cand_kept (memory_candidates m) (memory_candidates (delete_workflow_memories w d m))"
proof -
  obtain cs P where "cand_kept (memory_candidates m) cs" "memory_candidates (delete_workflow_memories w d m) = filter P cs"
    using delete_workflow_memories_rows(2) by blast
  then show ?thesis by (auto simp: cand_kept_def)
qed

text \<open>
  Property C19 (a decision is final): once a candidate is approved, rejected or blocked, no step of the
  application, from any state that satisfies the invariant, changes it. It may be deleted, with its workflow or when the decided suggestions are
  cleared, and the reference to its target is cleared when that memory is deleted; nothing else.
\<close>

theorem decided_is_final:
  assumes "review_inv s" and "review_step V F s t"
    and "c \<in> set (memory_candidates (vs_mem s))" and "cd_status c \<noteq> CPending"
    and "c' \<in> set (memory_candidates (vs_mem t))" and "cd_id c' = cd_id c"
  shows "untargeted c' = untargeted c"
proof -
  note s = assms(1)
  have t: "review_inv t" by (rule review_step_inv [OF assms(2) s])
  have ids: "distinct (map cd_id (memory_candidates (vs_mem x)))" if "review_inv x" for x
    using that mem_ok_candidatesD by (auto simp: review_inv_def candidates_ok_def)
  have kept: ?thesis if "cand_kept (memory_candidates (vs_mem s)) (memory_candidates (vs_mem t))"
  proof -
    from that assms(5) obtain x where x: "x \<in> set (memory_candidates (vs_mem s))" "cand_from x c'"
      unfolding cand_kept_def by blast
    then have "cd_id x = cd_id c" using assms(6) by (simp add: cand_from_def)
    then have "x = c" by (rule distinct_map_eq [OF ids [OF s] x(1) assms(3)])
    with x(2) assms(4) show ?thesis unfolding cand_from_def by blast
  qed
  from assms(2) show ?thesis
  proof cases
    case task
    from review_only_proposes [OF this] obtain ds where ds: "memory_candidates (vs_mem t) = memory_candidates (vs_mem s) @ ds"
      by blast
    have "c \<in> set (memory_candidates (vs_mem t))" using assms(3) by (simp add: ds)
    then have "c' = c" by (rule distinct_map_eq [OF ids [OF t] assms(5) _ assms(6)])
    then show ?thesis by (simp only:)
  next
    case (command m)
    with mem_step_frame show ?thesis by (intro kept) (auto simp: review_frame_def)
  next
    case (store d)
    then show ?thesis by (intro kept) (simp add: cand_kept_refl)
  next
    case (remove w)
    then show ?thesis by (intro kept) (simp add: delete_workflow_candidates)
  next
    case restart
    then show ?thesis by (intro kept) (simp add: cand_kept_refl)
  qed
qed

section \<open>A review that outlives its process\<close>

definition stuck :: "rstring \<Rightarrow> review_sys \<Rightarrow> bool" where
  "stuck run s = (review_inv s \<and> run \<notin> set (claimed_runs (vs_tasks s))
     \<and> (\<exists>j \<in> set (memory_reviews (vs_mem s)). job_is run JRunning j))"

definition has_job :: "rstring \<Rightarrow> review_sys \<Rightarrow> bool" where
  "has_job run s = (run \<in> rj_run_id ` set (memory_reviews (vs_mem s)))"

lemma restart_is_stuck:
  "review_inv s \<Longrightarrow> j \<in> set (memory_reviews (vs_mem s)) \<Longrightarrow> job_is run JRunning j
     \<Longrightarrow> stuck run (s\<lparr>vs_tasks := []\<rparr>)"
  by (auto simp: stuck_def review_inv_def tasks_ok_def)

lemma stuck_get:
  assumes "stuck run s"
  shows "\<exists>j. get_memory_review_job run (vs_mem s) = Some j \<and> rj_status j = JRunning"
proof -
  from assms obtain j where j: "j \<in> set (memory_reviews (vs_mem s))" "job_is run JRunning j" unfolding stuck_def by blast
  have dist: "distinct (map rj_run_id (memory_reviews (vs_mem s)))"
    using assms by (simp add: stuck_def review_inv_def mem_ok_except_def jobs_ok_def)
  have "get_memory_review_job run (vs_mem s) = Some j"
    unfolding get_memory_review_job_def
  proof (rule find_unique [OF j(1)])
    show "rj_run_id j = run" using j(2) by (rule conjunct1)
    show "y = j" if "y \<in> set (memory_reviews (vs_mem s))" "rj_run_id y = run" for y
      by (rule distinct_map_eq [OF dist that(1) j(1)]) (simp only: that(2) conjunct1 [OF j(2)])
  qed
  with j show ?thesis by blast
qed

text \<open>A job that is running but that no task has claimed is not touched by any task.\<close>

lemma stuck_job:
  assumes "stuck run s" and "j \<in> set (memory_reviews (vs_mem s))" and "rj_run_id j = run"
  shows "rj_status j = JRunning"
proof -
  from assms(1) obtain k where k: "k \<in> set (memory_reviews (vs_mem s))" "job_is run JRunning k" unfolding stuck_def by blast
  have dist: "distinct (map rj_run_id (memory_reviews (vs_mem s)))"
    using assms by (simp add: stuck_def review_inv_def mem_ok_except_def jobs_ok_def)
  have "j = k" by (rule distinct_map_eq [OF dist assms(2) k(1)]) (use k assms(3) in simp)
  with k show ?thesis by simp
qed

lemma update_other_job:
  "j \<in> set (update_where (job_is run' st) f js) \<Longrightarrow> (\<And>j. rj_run_id (f j) = rj_run_id j) \<Longrightarrow> rj_run_id j = run
     \<Longrightarrow> (\<And>j. j \<in> set js \<Longrightarrow> rj_run_id j = run \<Longrightarrow> run = run' \<longrightarrow> rj_status j \<noteq> st) \<Longrightarrow> j \<in> set js"
proof -
  assume j: "j \<in> set (update_where (job_is run' st) f js)" "rj_run_id j = run"
    and f: "\<And>j. rj_run_id (f j) = rj_run_id j"
    and other: "\<And>j. j \<in> set js \<Longrightarrow> rj_run_id j = run \<Longrightarrow> run = run' \<longrightarrow> rj_status j \<noteq> st"
  from j(1) consider x where "x \<in> set js" "job_is run' st x" "j = f x" | "j \<in> set js"
    by (auto simp: set_update_where)
  then show "j \<in> set js"
  proof cases
    case 1
    with f j(2) have "rj_run_id x = run" "run = run'" by simp_all
    with other [OF 1(1)] 1(2) show ?thesis by blast
  qed
qed

lemma stuck_task_step:
  assumes "stuck run s" and "task_step V F s t"
  shows "run \<notin> set (claimed_runs (vs_tasks t))
    \<and> (\<forall>j \<in> set (memory_reviews (vs_mem t)). rj_run_id j = run \<longrightarrow> j \<in> set (memory_reviews (vs_mem s)))"
  using assms(2)
proof cases
  case (schedule r E b m)
  from assms(1) have "run \<in> rj_run_id ` set (memory_reviews (vs_mem s))" unfolding stuck_def by auto
  with schedule(3) have "j \<in> set (memory_reviews (vs_mem s))" if "j \<in> set (memory_reviews m)" "rj_run_id j = run" for j
    using that by (auto simp: schedule_memory_review_with_def ensure_memory_review_job_def split: option.splits if_splits)
  with schedule assms(1) show ?thesis by (auto simp: stuck_def claimed_def)
next
  case (retry run' j m)
  have "k \<in> set (memory_reviews (vs_mem s))" if k: "k \<in> set (memory_reviews m)" "rj_run_id k = run" for k
  proof -
    from retry(2) k(1) have "k \<in> set (update_where (job_is run' JFailed)
        (\<lambda>j. j\<lparr>rj_status := JPending, rj_error_code := None, rj_started_at := None, rj_finished_at := None\<rparr>)
        (memory_reviews (vs_mem s)))"
      by (auto simp: retry_memory_review_def update_jobs_def split: option.splits if_splits)
    then show ?thesis by (rule update_other_job) (use k stuck_job [OF assms(1)] in auto)
  qed
  with retry assms(1) show ?thesis by (auto simp: stuck_def claimed_def)
next
  case (claim ts1 run' ts2 E b m)
  have mj: "memory_reviews m = update_where (job_is run' JPending)
      (\<lambda>j. j\<lparr>rj_status := JRunning, rj_started_at := Some (me_now E)\<rparr>) (memory_reviews (vs_mem s))"
    and b: "b = list_ex (job_is run' JPending) (memory_reviews (vs_mem s))"
    using claim(3) by (auto simp: claim_memory_review_def update_jobs_def)
  have "k \<in> set (memory_reviews (vs_mem s))" if k: "k \<in> set (memory_reviews m)" "rj_run_id k = run" for k
    by (rule update_other_job [OF k(1) [unfolded mj]]) (use k stuck_job [OF assms(1)] in auto)
  moreover have "run' \<noteq> run" if b using that b stuck_job [OF assms(1)] by (auto simp: list_ex_iff)
  ultimately show ?thesis using claim assms(1) by (auto simp: stuck_def)
next
  case (gather ts1 run' ts2 E g)
  then show ?thesis using assms(1) by (auto simp: stuck_def claimed_def)
next
  case (gather_failed ts1 run' ts2 E code E')
  then have other: "run' \<noteq> run" using assms(1) by (auto simp: stuck_def claimed_def)
  have "k \<in> set (memory_reviews (vs_mem s))"
    if k: "k \<in> set (memory_reviews (snd (fail_memory_review E' run' code (vs_mem s))))" "rj_run_id k = run" for k
    by (rule update_other_job [OF k(1) [unfolded fail_rows]]) (use k other in auto)
  with gather_failed assms(1) show ?thesis by (auto simp: stuck_def)
next
  case (answer ts1 run' g ts2 E installed reply vs)
  then show ?thesis using assms(1) by (auto simp: stuck_def claimed_def)
next
  case (answer_failed ts1 run' g ts2 E installed reply code E')
  then have other: "run' \<noteq> run" using assms(1) by (auto simp: stuck_def claimed_def)
  have "k \<in> set (memory_reviews (vs_mem s))"
    if k: "k \<in> set (memory_reviews (snd (fail_memory_review E' run' code (vs_mem s))))" "rj_run_id k = run" for k
    by (rule update_other_job [OF k(1) [unfolded fail_rows]]) (use k other in auto)
  with answer_failed assms(1) show ?thesis by (auto simp: stuck_def)
next
  case (conclude ts1 run' g vs ts2 E fresh)
  then have other: "run' \<noteq> run" using assms(1) by (auto simp: stuck_def claimed_def)
  obtain x m2 where x: "finalize_review_success E fresh run' (rj_workflow_id (ga_job g)) vs (vs_db s) (vs_mem s) = (x, m2)"
    by fastforce
  have "k \<in> set (memory_reviews (vs_mem s))"
    if k: "k \<in> set (memory_reviews (conclude_review E fresh run' g vs (vs_db s) (vs_mem s)))" "rj_run_id k = run" for k
    using x
  proof (cases rule: finalize_outcome)
    case (1 e)
    with x k(1) have "k \<in> set (memory_reviews (snd (fail_memory_review E run' REVIEW_ERROR_INTERNAL (vs_mem s))))"
      by (simp add: conclude_review_def)
    then show ?thesis unfolding fail_rows by (rule update_other_job) (use k other in auto)
  next
    case (2 n ds)
    with x k(1) have "k \<in> set (memory_reviews m2)" by (simp add: conclude_review_def)
    then show ?thesis unfolding 2(6) by (rule update_other_job) (use k other in auto)
  qed
  with conclude assms(1) show ?thesis by (auto simp: stuck_def)
qed

lemma stuck_step:
  assumes "stuck run s" and "review_step V F s t"
  shows "run \<notin> set (claimed_runs (vs_tasks t))
    \<and> (\<forall>j \<in> set (memory_reviews (vs_mem t)). rj_run_id j = run \<longrightarrow> j \<in> set (memory_reviews (vs_mem s)))"
  using assms(2)
proof cases
  case task
  with assms(1) show ?thesis by (rule stuck_task_step)
next
  case (command m)
  with assms(1) mem_step_frame show ?thesis by (auto simp: stuck_def review_frame_def)
next
  case (remove w)
  with assms(1) show ?thesis by (simp add: stuck_def delete_workflow_memories_rows(1) kept_jobs_def)
qed (use assms(1) in \<open>simp_all add: stuck_def\<close>)

text \<open>
  Property C34 (an interrupted review is never recovered): when the process ends while a review is
  running, its job stays running for as long as it exists, whatever the application does afterwards,
  and every attempt to retry it is refused. Nothing recovers such a job at the next start.
\<close>

theorem interrupted_review_is_never_retried:
  assumes "review_inv s" and "j \<in> set (memory_reviews (vs_mem s))" and "job_is run JRunning j"
    and "steps (\<lambda>x y. review_step V F x y \<and> has_job run y) (s\<lparr>vs_tasks := []\<rparr>) t"
  shows "(\<exists>k. get_memory_review_job run (vs_mem t) = Some k \<and> rj_status k = JRunning)
    \<and> retry_memory_review run (vs_mem t) = (Inl (Other ''review_retry_not_allowed''), vs_mem t)"
proof -
  have start: "stuck run (s\<lparr>vs_tasks := []\<rparr>)" by (rule restart_is_stuck [OF assms(1-3)])
  have "stuck run y" if x: "stuck run x" and step: "review_step V F x y \<and> has_job run y" for x y
  proof -
    from step have s: "review_step V F x y" and "has_job run y" by blast+
    then obtain k where k: "k \<in> set (memory_reviews (vs_mem y))" "rj_run_id k = run" by (auto simp: has_job_def)
    have "review_inv y" by (rule review_step_inv [OF s]) (use x in \<open>simp add: stuck_def\<close>)
    moreover have "job_is run JRunning k" using stuck_step [OF x s] stuck_job [OF x] k by blast
    ultimately show ?thesis using stuck_step [OF x s] k(1) unfolding stuck_def by blast
  qed
  with assms(4) start have "stuck run t" by (induction rule: steps.induct) blast+
  then obtain k where k: "get_memory_review_job run (vs_mem t) = Some k" "rj_status k = JRunning"
    using stuck_get by blast
  then show ?thesis by (simp add: retry_memory_review_def)
qed

definition ex_running :: review_sys where
  "ex_running = \<lparr>vs_db = ex_review_db, vs_mem = empty_mem\<lparr>memory_reviews := [ex_job JRunning]\<rparr>, vs_tasks = []\<rparr>"

lemma ex_running_inv: "review_inv ex_running"
proof -
  have "ev_inv ex_review_db"
    by (simp add: ev_inv_parts schema_defs ex_review_db_def ex_mem_db_def empty_db_def queue_matches_def
        run_iff_enqueued_def runs_unshared_def runs_resolve_def workflow_exists_def)
  moreover have "mem_ok ex_review_db (empty_mem\<lparr>memory_reviews := [ex_job JRunning]\<rparr>)"
    by (simp add: mem_ok_except_def empty_mem_def rows_ok_def links_ok_def fts_ok_except_def uses_ok_def toggles_ok_def
        jobs_ok_def candidates_ok_def ex_job_def ex_review_db_def ex_mem_db_def empty_db_def run_exists_def
        workflow_exists_def memory_ids_def)
  moreover have "jobs_owned ex_review_db [ex_job JRunning]"
    by (simp add: jobs_owned_def ex_job_def ex_review_db_def run_owner_def)
  ultimately show ?thesis
    by (simp add: review_inv_def ex_running_def tasks_ok_def reviewed_def candidates_of_def)
      (simp add: empty_mem_def)
qed

theorem interrupted_review_is_never_retried_witness:
  "retry_memory_review ''r'' (vs_mem ex_running) = (Inl (Other ''review_retry_not_allowed''), vs_mem ex_running)"
proof -
  have job: "ex_job JRunning \<in> set (memory_reviews (vs_mem ex_running))" "job_is ''r'' JRunning (ex_job JRunning)"
    by (simp_all add: ex_running_def ex_job_def)
  have "steps (\<lambda>x y. review_step ex_cur no_match x y \<and> has_job ''r'' y) (ex_running\<lparr>vs_tasks := []\<rparr>) ex_running"
    by (simp add: ex_running_def steps_refl)
  from interrupted_review_is_never_retried [OF ex_running_inv job this] show ?thesis by blast
qed

definition ex_rejected :: review_sys where
  "ex_rejected = \<lparr>vs_db = ex_review_db,
     vs_mem = ex_review_mem\<lparr>memory_candidates := [ex_suggested\<lparr>cd_status := CRejected\<rparr>]\<rparr>, vs_tasks = []\<rparr>"

lemma ex_rejected_inv: "review_inv ex_rejected"
proof -
  have "candidates_ok ex_review_db {} {''r''} [ex_suggested\<lparr>cd_status := CRejected\<rparr>]"
    by (simp add: candidates_ok_def ex_suggested_def ex_review_db_def ex_mem_db_def empty_db_def workflow_exists_def)
  then have "mem_ok ex_review_db (vs_mem ex_rejected)"
    unfolding ex_rejected_def review_sys.simps
    by (intro mem_ok_set_candidates [OF ex_review_ok])
      (simp add: ex_review_mem_def empty_mem_def memory_ids_def ex_job_def)
  moreover have "reviewed (memory_reviews (vs_mem ex_rejected)) (memory_candidates (vs_mem ex_rejected))"
  proof -
    have "candidates_of i [c] = (if cd_review_run_id c = i then {cd_id c} else {})" for i c
      by (auto simp: candidates_of_def)
    then show ?thesis
      by (simp add: reviewed_def ex_rejected_def ex_review_mem_def ex_job_def ex_suggested_def
          MAX_CANDIDATES_PER_REVIEW_def)
  qed
  moreover have "jobs_owned ex_review_db [ex_job JCompleted]"
    by (simp add: jobs_owned_def ex_job_def ex_review_db_def run_owner_def)
  moreover have "ev_inv ex_review_db" using ex_running_inv by (simp add: review_inv_def ex_running_def)
  ultimately show ?thesis
    by (simp add: review_inv_def) (simp add: ex_rejected_def ex_review_mem_def tasks_ok_def)
qed

theorem decided_is_final_witness:
  "untargeted (hd (memory_candidates (snd (approve_memory_candidate ex_cur ''n'' ''c'' ex_review_db (vs_mem ex_rejected)))))
     = untargeted (ex_suggested\<lparr>cd_status := CRejected\<rparr>)"
proof -
  let ?m = "snd (approve_memory_candidate (ex_cur\<lparr>cv_env := ex_mem_env 9\<rparr>) ''n'' ''c'' ex_review_db (vs_mem ex_rejected))"
  have "mem_step ex_cur (vs_db ex_rejected) (vs_mem ex_rejected) ?m"
    unfolding ex_rejected_def review_sys.simps by (rule mem_step.approve)
  then have step: "review_step ex_cur no_match ex_rejected (ex_rejected\<lparr>vs_mem := ?m\<rparr>)" by (rule review_step.command)
  have c: "ex_suggested\<lparr>cd_status := CRejected\<rparr> \<in> set (memory_candidates (vs_mem ex_rejected))"
    "cd_status (ex_suggested\<lparr>cd_status := CRejected\<rparr>) \<noteq> CPending" "cd_id (ex_suggested\<lparr>cd_status := CRejected\<rparr>) = ''c''"
    by (simp_all add: ex_rejected_def) (simp add: ex_suggested_def)
  have env: "ex_cur\<lparr>cv_env := ex_mem_env 9\<rparr> = ex_cur" by (simp add: ex_cur_def)
  have "?m = vs_mem ex_rejected" using c(2,3)
    by (simp add: approve_memory_candidate_def get_memory_candidate_def ex_rejected_def)
  then have "hd (memory_candidates ?m) \<in> set (memory_candidates ?m) \<and> cd_id (hd (memory_candidates ?m)) = ''c''"
    using c(3) by (simp add: ex_rejected_def)
  then show ?thesis using decided_is_final [OF ex_rejected_inv step c(1,2)] c(3) env by simp
qed

end
