(* ===== verification/Account_Models.thy ===== *)
theory Account_Models
  imports Agents App_Connections License_Client
begin

text \<open>
  The accounts of native agents, \<^verbatim>\<open>agent_accounts/models.rs\<close> and \<^verbatim>\<open>agent_accounts/credential_store.rs\<close>:
  the closed table of products with the provider, authentication, custody, runtime and billing of each,
  the contract every account of a product meets, and the store of the secrets in the keyring of the
  operating system.

  Parameters: \<open>digest\<close> is the URL-safe text of the SHA-256 of a byte string; the keyring is that of
  License_Client; \<open>cred_write\<close> and \<open>cred_read\<close> are the derived JSON encoding of a stored credential.
\<close>

section \<open>Products\<close>

datatype AgentProductId = ClaudeCodeSubscription | ClaudeApi | ChatgptCodex | OpenaiApi | OpencodeGo
  | OpencodeZen | CursorCloud | GithubCopilotSubscription | GeminiApi | GrokApi

definition ALL_PRODUCTS :: "AgentProductId list" where
  "ALL_PRODUCTS = [ClaudeCodeSubscription, ClaudeApi, ChatgptCodex, OpenaiApi, OpencodeGo, OpencodeZen,
     CursorCloud, GithubCopilotSubscription, GeminiApi, GrokApi]"

fun product_as_str :: "AgentProductId \<Rightarrow> rstring" where
  "product_as_str ClaudeCodeSubscription = ''claude_code_subscription''"
| "product_as_str ClaudeApi = ''claude_api''"
| "product_as_str ChatgptCodex = ''chatgpt_codex''"
| "product_as_str OpenaiApi = ''openai_api''"
| "product_as_str OpencodeGo = ''opencode_go''"
| "product_as_str OpencodeZen = ''opencode_zen''"
| "product_as_str CursorCloud = ''cursor_cloud''"
| "product_as_str GithubCopilotSubscription = ''github_copilot_subscription''"
| "product_as_str GeminiApi = ''gemini_api''"
| "product_as_str GrokApi = ''grok_api''"

definition product_from_str :: "rstring \<Rightarrow> AgentProductId option" where
  "product_from_str s = find (\<lambda>p. product_as_str p = s) ALL_PRODUCTS"

datatype ManagedRuntimeId = ClaudeCodeManaged | CodexPythonSdk | OpencodeServer

fun runtime_as_str :: "ManagedRuntimeId \<Rightarrow> rstring" where
  "runtime_as_str ClaudeCodeManaged = ''claude_code_managed''"
| "runtime_as_str CodexPythonSdk = ''codex_python_sdk''"
| "runtime_as_str OpencodeServer = ''opencode_server''"

datatype AgentEntitlementState = EntUnknown | Eligible | Limited | Exhausted | Ineligible
datatype AgentAuthMethod = ApiKey | OAuthPkce | DeviceCode | RuntimeAuth
datatype CredentialCustodyMode = AlfredManaged | RuntimeManaged
datatype AgentAccountStatus = AccConnected | AccExpired | AccError | AccRevoked | DisconnectPending

fun auth_method_as_str :: "AgentAuthMethod \<Rightarrow> rstring" where
  "auth_method_as_str ApiKey = ''api_key''"
| "auth_method_as_str OAuthPkce = ''oauth_pkce''"
| "auth_method_as_str DeviceCode = ''device_code''"
| "auth_method_as_str RuntimeAuth = ''runtime''"

fun product_provider :: "AgentProductId \<Rightarrow> AgentProvider" where
  "product_provider ClaudeCodeSubscription = ClaudeCode"
| "product_provider ClaudeApi = ClaudeCode"
| "product_provider ChatgptCodex = Codex"
| "product_provider OpenaiApi = Codex"
| "product_provider OpencodeGo = Opencode"
| "product_provider OpencodeZen = Opencode"
| "product_provider CursorCloud = Cursor"
| "product_provider GithubCopilotSubscription = GithubCopilot"
| "product_provider GeminiApi = Gemini"
| "product_provider GrokApi = Grok"

fun managed_runtime :: "AgentProductId \<Rightarrow> ManagedRuntimeId option" where
  "managed_runtime ClaudeCodeSubscription = Some ClaudeCodeManaged"
| "managed_runtime ChatgptCodex = Some CodexPythonSdk"
| "managed_runtime OpencodeGo = Some OpencodeServer"
| "managed_runtime OpencodeZen = Some OpencodeServer"
| "managed_runtime _ = None"

definition is_managed_subscription :: "AgentProductId \<Rightarrow> bool" where
  "is_managed_subscription p = (p \<in> {ClaudeCodeSubscription, ChatgptCodex, OpencodeGo})"

definition requires_credential :: "AgentProductId \<Rightarrow> bool" where
  "requires_credential p = (\<not> is_managed_subscription p)"

fun product_auth_method :: "AgentProductId \<Rightarrow> AgentAuthMethod" where
  "product_auth_method ChatgptCodex = DeviceCode"
| "product_auth_method GithubCopilotSubscription = DeviceCode"
| "product_auth_method ClaudeCodeSubscription = RuntimeAuth"
| "product_auth_method _ = ApiKey"

definition auth_methods :: "AgentProductId \<Rightarrow> AgentAuthMethod list" where
  "auth_methods p = (if p = ChatgptCodex then [OAuthPkce, DeviceCode] else [product_auth_method p])"

definition custody_mode :: "AgentProductId \<Rightarrow> CredentialCustodyMode" where
  "custody_mode p = (if is_managed_subscription p then RuntimeManaged else AlfredManaged)"

definition uses_alfred_managed_api_key :: "AgentProductId \<Rightarrow> bool" where
  "uses_alfred_managed_api_key p = (product_auth_method p = ApiKey \<and> custody_mode p = AlfredManaged)"

definition billing_source :: "AgentProductId \<Rightarrow> rstring" where
  "billing_source p =
     (if p \<in> {ClaudeCodeSubscription, ChatgptCodex, OpencodeGo, GithubCopilotSubscription}
      then ''provider_subscription'' else if p = OpencodeZen then ''provider_payg'' else ''provider_api'')"

definition billing_owner :: "AgentProductId \<Rightarrow> rstring" where
  "billing_owner p =
     (if p \<in> {ClaudeCodeSubscription, ChatgptCodex, OpencodeGo, GithubCopilotSubscription}
      then ''subscription_account'' else ''credential_owner'')"

definition managed_runtime_version :: "AgentProductId \<Rightarrow> rstring option" where
  "managed_runtime_version p = map_option (\<lambda>r. case r of ClaudeCodeManaged \<Rightarrow> ''2.1.246''
     | CodexPythonSdk \<Rightarrow> ''0.147.0'' | OpencodeServer \<Rightarrow> ''1.18.23'') (managed_runtime p)"

section \<open>Accounts\<close>

record AgentAccount =
  aa_id :: rstring
  aa_provider :: AgentProvider
  aa_product :: AgentProductId
  aa_harness :: AgentHarness
  aa_identity_key :: rstring
  aa_display_name :: "rstring option"
  aa_external_account_id :: "rstring option"
  aa_external_workspace_id :: "rstring option"
  aa_auth_method :: AgentAuthMethod
  aa_custody_mode :: CredentialCustodyMode
  aa_managed_runtime_id :: "ManagedRuntimeId option"
  aa_managed_runtime_version :: "rstring option"
  aa_runtime_profile_ref :: "rstring option"
  aa_scopes :: "rstring list"
  aa_billing_source :: rstring
  aa_billing_owner :: rstring
  aa_entitlement_state :: AgentEntitlementState
  aa_entitlement_source :: rstring
  aa_entitlement_observed_at :: "rstring option"
  aa_status :: AgentAccountStatus
  aa_expires_at :: "rstring option"
  aa_last_checked_at :: "rstring option"
  aa_last_error_code :: "rstring option"
  aa_credential_ref :: "rstring option"
  aa_created_at :: rstring
  aa_updated_at :: rstring

record AuthorizedAgentAccount =
  az_provider :: AgentProvider
  az_product :: AgentProductId
  az_harness :: AgentHarness
  az_display_name :: "rstring option"
  az_external_account_id :: rstring
  az_external_workspace_id :: "rstring option"
  az_auth_method :: AgentAuthMethod
  az_custody_mode :: CredentialCustodyMode
  az_managed_runtime_id :: "ManagedRuntimeId option"
  az_managed_runtime_version :: "rstring option"
  az_runtime_profile_ref :: "rstring option"
  az_scopes :: "rstring list"
  az_billing_source :: rstring
  az_billing_owner :: rstring
  az_entitlement_state :: AgentEntitlementState
  az_entitlement_source :: rstring
  az_entitlement_observed_at :: "rstring option"
  az_expires_at :: "rstring option"

definition canonical_agent_identity_key ::
  "(rstring \<Rightarrow> rstring) \<Rightarrow> AgentProvider \<Rightarrow> AgentProductId \<Rightarrow> AgentHarness \<Rightarrow> rstring \<Rightarrow> rstring option \<Rightarrow> rstring" where
  "canonical_agent_identity_key digest p q h account workspace =
     digest (identity_preimage (AgentProvider_as_str p) (product_as_str q)
       [AgentHarness_as_str h, account, unwrap_or [] workspace])"

definition identity_key :: "(rstring \<Rightarrow> rstring) \<Rightarrow> AuthorizedAgentAccount \<Rightarrow> rstring" where
  "identity_key digest z = canonical_agent_identity_key digest (az_provider z) (az_product z) (az_harness z)
     (az_external_account_id z) (az_external_workspace_id z)"

section \<open>The contract of an account\<close>

definition domain_byte :: "char \<Rightarrow> bool" where
  "domain_byte c = (let n = of_char c :: nat in (97 \<le> n \<and> n \<le> 122) \<or> (48 \<le> n \<and> n \<le> 57) \<or> n = 95)"

definition validate_domain_identifier :: "rstring \<Rightarrow> bool" where
  "validate_domain_identifier v = (v \<noteq> [] \<and> length v \<le> 64 \<and> list_all domain_byte v)"

definition stable_error_code :: "rstring \<Rightarrow> rstring" where
  "stable_error_code v = (if v \<noteq> [] \<and> length v \<le> 64 \<and> list_all domain_byte v then v
     else ''agent_account_failed'')"

datatype AccountValidationContext = CtxRead | CtxWrite

definition blank_or_long :: "nat \<Rightarrow> rstring option \<Rightarrow> bool" where
  "blank_or_long n v = (case v of None \<Rightarrow> True | Some s \<Rightarrow> trim s = [] \<or> n < length s)"

definition runtime_contract ::
  "AccountValidationContext \<Rightarrow> AgentProductId \<Rightarrow> ManagedRuntimeId option \<Rightarrow> rstring option \<Rightarrow> rstring option
     \<Rightarrow> rstring option" where
  "runtime_contract ctx q rt version profile = (case managed_runtime q of
      Some expected \<Rightarrow>
        if rt \<noteq> Some expected \<or> blank_or_long 512 profile
        then Some ''managed agent product requires its registered runtime profile''
        else if blank_or_long 64 version \<or> (ctx = CtxWrite \<and> version \<noteq> managed_runtime_version q)
        then Some ''managed agent product runtime version is invalid'' else None
    | None \<Rightarrow>
        if rt \<noteq> None \<or> version \<noteq> None \<or> profile \<noteq> None
        then Some ''agent product does not use a managed runtime profile'' else None)"

text \<open>The error of an account that breaks the contract of its product.\<close>

definition validate_account_contract ::
  "chrono \<Rightarrow> AccountValidationContext \<Rightarrow> AuthorizedAgentAccount \<Rightarrow> rstring option \<Rightarrow> rstring option" where
  "validate_account_contract C ctx z credential_ref =
     (let q = az_product z in
      if az_provider z \<noteq> product_provider q \<or> az_harness z \<noteq> Alfred
      then Some ''agent product does not match its provider and harness''
      else if az_auth_method z \<notin> set (auth_methods q) \<or> az_custody_mode z \<noteq> custody_mode q
      then Some ''agent product auth or custody mode is invalid''
      else case runtime_contract ctx q (az_managed_runtime_id z) (az_managed_runtime_version z)
                  (az_runtime_profile_ref z) of
          Some e \<Rightarrow> Some e
        | None \<Rightarrow>
          if is_managed_subscription q \<and> credential_ref \<noteq> None
          then Some ''managed subscription accounts must not use a secret credential reference''
          else if ctx = CtxRead \<and> requires_credential q \<and> blank_or_long 512 credential_ref
          then Some ''agent product requires an opaque secret credential reference''
          else if az_billing_source z \<noteq> billing_source q \<or> az_billing_owner z \<noteq> billing_owner q
             \<or> \<not> validate_domain_identifier (az_entitlement_source z)
          then Some ''agent billing or entitlement source is invalid''
          else if az_entitlement_state z \<noteq> EntUnknown \<and> az_entitlement_observed_at z = None
          then Some ''observed entitlement state requires a timestamp''
          else if az_entitlement_observed_at z \<noteq> None
             \<and> Option.bind (az_entitlement_observed_at z) (parse_rfc3339 C) = None
          then Some ''entitlement observation timestamp is invalid'' else None)"

definition validate_authorized_agent_account :: "chrono \<Rightarrow> AuthorizedAgentAccount \<Rightarrow> rstring option" where
  "validate_authorized_agent_account C z = validate_account_contract C CtxWrite z None"

text \<open>The part of a stored account that the contract reads.\<close>

definition authorized_part :: "AgentAccount \<Rightarrow> AuthorizedAgentAccount" where
  "authorized_part a = \<lparr>az_provider = aa_provider a, az_product = aa_product a, az_harness = aa_harness a,
     az_display_name = aa_display_name a, az_external_account_id = unwrap_or [] (aa_external_account_id a),
     az_external_workspace_id = aa_external_workspace_id a, az_auth_method = aa_auth_method a,
     az_custody_mode = aa_custody_mode a, az_managed_runtime_id = aa_managed_runtime_id a,
     az_managed_runtime_version = aa_managed_runtime_version a,
     az_runtime_profile_ref = aa_runtime_profile_ref a, az_scopes = aa_scopes a,
     az_billing_source = aa_billing_source a, az_billing_owner = aa_billing_owner a,
     az_entitlement_state = aa_entitlement_state a, az_entitlement_source = aa_entitlement_source a,
     az_entitlement_observed_at = aa_entitlement_observed_at a, az_expires_at = aa_expires_at a\<rparr>"

definition validate_agent_account :: "chrono \<Rightarrow> AgentAccount \<Rightarrow> rstring option" where
  "validate_agent_account C a = validate_account_contract C CtxRead (authorized_part a) (aa_credential_ref a)"

section \<open>Secrets\<close>

record AgentCredentialEnvelope =
  ce_version :: nat
  ce_access_token :: "rstring option"
  ce_runtime_credential_ref :: "rstring option"
  ce_refresh_token :: "rstring option"
  ce_expires_at :: "rstring option"
  ce_provider_fields :: "(rstring \<times> rstring) list"
  ce_custody_mode :: CredentialCustodyMode

definition CREDENTIAL_VERSION :: nat where "CREDENTIAL_VERSION = 1"

definition alfred_managed :: "rstring \<Rightarrow> AgentCredentialEnvelope" where
  "alfred_managed token = \<lparr>ce_version = CREDENTIAL_VERSION, ce_access_token = Some token,
     ce_runtime_credential_ref = None, ce_refresh_token = None, ce_expires_at = None,
     ce_provider_fields = [], ce_custody_mode = AlfredManaged\<rparr>"

definition filled :: "rstring option \<Rightarrow> bool" where
  "filled v = (case v of None \<Rightarrow> False | Some s \<Rightarrow> s \<noteq> [])"

definition credential_is_valid :: "AgentCredentialEnvelope \<Rightarrow> bool" where
  "credential_is_valid c = (ce_version c = CREDENTIAL_VERSION \<and> (case ce_custody_mode c of
      AlfredManaged \<Rightarrow> filled (ce_access_token c) \<and> ce_runtime_credential_ref c = None
    | RuntimeManaged \<Rightarrow> filled (ce_runtime_credential_ref c) \<and> ce_access_token c = None
        \<and> ce_refresh_token c = None))"

datatype AgentCredentialStoreError = CrMissing | CrLocked | CrInvalid | CrFailed

fun map_agent_keyring_error :: "keyring_error \<Rightarrow> AgentCredentialStoreError" where
  "map_agent_keyring_error NoEntry = CrMissing"
| "map_agent_keyring_error NoStorageAccess = CrLocked"
| "map_agent_keyring_error NoDefaultStore = CrLocked"
| "map_agent_keyring_error KeyringOther = CrFailed"

record 'k agent_store =
  as_keyring :: "'k keyring"
  cred_write :: "AgentCredentialEnvelope \<Rightarrow> rstring option"
  cred_read :: "rstring \<Rightarrow> AgentCredentialEnvelope option"

definition cred_put ::
  "'k agent_store \<Rightarrow> rstring \<Rightarrow> AgentCredentialEnvelope \<Rightarrow> 'k \<Rightarrow> (AgentCredentialStoreError + unit) \<times> 'k" where
  "cred_put S ref c k =
     (if \<not> credential_is_valid c then (Inl CrInvalid, k)
      else case cred_write S c of
        None \<Rightarrow> (Inl CrInvalid, k)
      | Some payload \<Rightarrow> (case kr_entry (as_keyring S) ref of
          Some e \<Rightarrow> (Inl (map_agent_keyring_error e), k)
        | None \<Rightarrow> apfst (map_sum map_agent_keyring_error id) (kr_set (as_keyring S) ref payload k)))"

definition decode_envelope :: "'k agent_store \<Rightarrow> rstring \<Rightarrow> AgentCredentialStoreError + AgentCredentialEnvelope" where
  "decode_envelope S payload = (case cred_read S payload of
      None \<Rightarrow> Inl CrInvalid
    | Some c \<Rightarrow> if credential_is_valid c then Inr c else Inl CrInvalid)"

definition cred_get :: "'k agent_store \<Rightarrow> rstring \<Rightarrow> 'k \<Rightarrow> AgentCredentialStoreError + AgentCredentialEnvelope" where
  "cred_get S ref k = (case kr_entry (as_keyring S) ref of
      Some e \<Rightarrow> Inl (map_agent_keyring_error e)
    | None \<Rightarrow> (case kr_get (as_keyring S) ref k of
        Inl e \<Rightarrow> Inl (map_agent_keyring_error e)
      | Inr payload \<Rightarrow> decode_envelope S payload))"

definition cred_delete :: "'k agent_store \<Rightarrow> rstring \<Rightarrow> 'k \<Rightarrow> (AgentCredentialStoreError + unit) \<times> 'k" where
  "cred_delete S ref k = (case kr_entry (as_keyring S) ref of
      Some e \<Rightarrow> (Inl (map_agent_keyring_error e), k)
    | None \<Rightarrow> apfst (map_sum map_agent_keyring_error id) (kr_delete (as_keyring S) ref k))"

text \<open>The store is faithful when its keyring is, what it wrote is read back, and an entry that was missing
  when it was to be deleted is missing afterwards.\<close>

definition agent_store_faithful :: "'k agent_store \<Rightarrow> bool" where
  "agent_store_faithful S = (keyring_faithful (as_keyring S)
     \<and> (\<forall>c v. cred_write S c = Some v \<longrightarrow> cred_read S v = Some c)
     \<and> (\<forall>r k k'. kr_delete (as_keyring S) r k = (Inl NoEntry, k') \<longrightarrow> kr_get (as_keyring S) r k' = Inl NoEntry))"

lemma cred_put_Inr:
  "cred_put S r c k = (Inr u, k') \<longleftrightarrow> credential_is_valid c
     \<and> (\<exists>v. cred_write S c = Some v \<and> kr_entry (as_keyring S) r = None \<and> kr_set (as_keyring S) r v k = (Inr u, k'))"
  by (simp add: cred_put_def apfst_map_sum_Inr split: option.split)

lemma cred_delete_Inr:
  "cred_delete S r k = (Inr u, k') \<longleftrightarrow> kr_entry (as_keyring S) r = None \<and> kr_delete (as_keyring S) r k = (Inr u, k')"
  by (simp add: cred_delete_def apfst_map_sum_Inr split: option.split)

lemma cred_get_cong:
  "kr_get (as_keyring S) s k' = kr_get (as_keyring S) s k \<Longrightarrow> cred_get S s k' = cred_get S s k"
  unfolding cred_get_def by (cases "kr_entry (as_keyring S) s") simp_all

lemma agent_store_is_credential_store:
  assumes "agent_store_faithful S"
  shows "credential_store (cred_put S) (cred_get S) (cred_delete S) (\<lambda>_. True) CrMissing"
proof -
  have kf: "keyring_faithful (as_keyring S)"
    and env: "\<And>c v. cred_write S c = Some v \<Longrightarrow> cred_read S v = Some c"
    using assms by (simp_all add: agent_store_faithful_def)
  show ?thesis
  proof
    fix r c k k' assume "cred_put S r c k = (Inr (), k')"
    then obtain w where w: "credential_is_valid c" "cred_write S c = Some w" "kr_entry (as_keyring S) r = None"
      "kr_set (as_keyring S) r w k = (Inr (), k')" by (auto simp: cred_put_Inr)
    show "cred_get S r k' = Inr c"
      using w(1,3) kf_set [OF kf w(4)] env [OF w(2)] by (simp add: cred_get_def decode_envelope_def)
  next
    fix r c k x k' s assume put: "cred_put S r c k = (x, k')" and "s \<noteq> r"
    have "kr_get (as_keyring S) s (snd (cred_put S r c k)) = kr_get (as_keyring S) s k"
      using \<open>s \<noteq> r\<close> by (simp add: cred_put_def kf_set_other [OF kf] split: option.split)
    with put show "cred_get S s k' = cred_get S s k" by (intro cred_get_cong) simp
  next
    fix r k k' assume "cred_delete S r k = (Inr (), k')"
    then have d: "kr_entry (as_keyring S) r = None" "kr_delete (as_keyring S) r k = (Inr (), k')"
      by (simp_all add: cred_delete_Inr)
    show "cred_get S r k' = Inl CrMissing"
      using d(1) kf_delete [OF kf d(2)] by (simp add: cred_get_def)
  next
    fix r k x k' s assume del: "cred_delete S r k = (x, k')" and "s \<noteq> r"
    have "kr_get (as_keyring S) s (snd (cred_delete S r k)) = kr_get (as_keyring S) s k"
      using \<open>s \<noteq> r\<close> by (simp add: cred_delete_def kf_delete_other [OF kf] split: option.split)
    with del show "cred_get S s k' = cred_get S s k" by (intro cred_get_cong) simp
  qed
qed

lemmas cred_get_put = credential_store.fetch_put [OF agent_store_is_credential_store, OF _ _ TrueI]
  and cred_get_put_other = credential_store.fetch_put_other [OF agent_store_is_credential_store]
  and cred_get_delete = credential_store.fetch_remove [OF agent_store_is_credential_store]
  and cred_get_delete_other = credential_store.fetch_remove_other [OF agent_store_is_credential_store]

lemma map_agent_missing [simp]: "map_agent_keyring_error e = CrMissing \<longleftrightarrow> e = NoEntry"
  by (cases e) simp_all

lemma agent_delete_missing:
  "agent_store_faithful S \<Longrightarrow> kr_delete (as_keyring S) r k = (Inl NoEntry, k') \<Longrightarrow> kr_get (as_keyring S) r k' = Inl NoEntry"
  unfolding agent_store_faithful_def by (drule conjunct2, drule conjunct2) blast

lemma cred_delete_gone:
  assumes "agent_store_faithful S" and "cred_delete S r k = (x, k')" and "x = Inr () \<or> x = Inl CrMissing"
  shows "cred_get S r k' = Inl CrMissing"
proof (cases "kr_entry (as_keyring S) r")
  case None
  obtain y where y: "kr_delete (as_keyring S) r k = (y, k')" "x = map_sum map_agent_keyring_error id y"
    using assms(2) None by (cases "kr_delete (as_keyring S) r k") (simp add: cred_delete_def)
  have "y = Inr () \<or> y = Inl NoEntry" using assms(3) y(2)
    by (cases y) simp_all
  moreover have kf: "keyring_faithful (as_keyring S)" using assms(1) by (simp add: agent_store_faithful_def)
  ultimately have "kr_get (as_keyring S) r k' = Inl NoEntry" using y(1) kf_delete [OF kf] agent_delete_missing [OF assms(1)] by blast
  then show ?thesis using None by (simp add: cred_get_def)
next
  case (Some e)
  with assms(2,3) show ?thesis by (auto simp: cred_delete_def cred_get_def)
qed

text \<open>The store in memory (\<^verbatim>\<open>InMemoryAgentCredentialStore\<close>), for the API keys of Alfred.\<close>

definition map_agent_store :: "(rstring \<rightharpoonup> rstring) agent_store" where
  "map_agent_store = \<lparr>as_keyring = map_keyring,
     cred_write = (\<lambda>c. case ce_access_token c of None \<Rightarrow> None
       | Some t \<Rightarrow> if c = alfred_managed t then Some t else None),
     cred_read = (\<lambda>v. Some (alfred_managed v))\<rparr>"

lemma map_agent_store_faithful: "agent_store_faithful map_agent_store"
proof -
  have "kr_get map_keyring r k' = Inl NoEntry" if "kr_delete map_keyring r k = (Inl NoEntry, k')" for r k k'
    using that by (auto simp: map_keyring_def split: option.splits)
  then show ?thesis
    by (simp add: agent_store_faithful_def map_agent_store_def map_keyring_faithful split: option.splits)
qed

interpretation agent_memory_store: credential_store "cred_put map_agent_store" "cred_get map_agent_store"
  "cred_delete map_agent_store" "\<lambda>_. True" CrMissing
  by (rule agent_store_is_credential_store [OF map_agent_store_faithful])

section \<open>What is written is accepted when it is read\<close>

lemma if_Some_None: "(if P then Some e else x) = None \<longleftrightarrow> \<not> P \<and> x = None"
  by simp

lemma case_Some_None: "(case x of Some e \<Rightarrow> Some e | None \<Rightarrow> y) = None \<longleftrightarrow> x = None \<and> y = None"
  by (cases x) simp_all

lemma runtime_contract_read:
  "runtime_contract CtxWrite q rt version profile = None \<Longrightarrow> runtime_contract CtxRead q rt version profile = None"
  by (auto simp: runtime_contract_def if_Some_None split: option.splits)

lemma written_account_is_readable:
  assumes "validate_account_contract C CtxWrite z None = None"
    and "if requires_credential (az_product z) then \<not> blank_or_long 512 ref else ref = None"
  shows "validate_account_contract C CtxRead z ref = None"
  using assms unfolding validate_account_contract_def Let_def if_Some_None case_Some_None
  by (simp add: runtime_contract_read requires_credential_def split: if_splits)

end
