(* ===== verification/Account_Store.thy ===== *)
theory Account_Store
  imports Account_Models
begin

text \<open>
  The rows of native-agent accounts, \<^verbatim>\<open>db/agent_accounts.rs\<close>: one row an account, with the unique keys
  and \<^verbatim>\<open>CHECK\<close> clauses of the table, and the references to credentials a migration left to be deleted.
  A row is read through the contract of its product; one that breaks it is an error for a single read
  and a diagnostic for a listing. The text of the columns with a closed vocabulary is their value.
\<close>

record AgentAccountCredentialCleanup =
  cl_account :: rstring
  cl_credential_ref :: rstring
  cl_owner :: rstring

record accounts =
  agent_accounts :: "AgentAccount list"
  credential_cleanup :: "AgentAccountCredentialCleanup list"

record account_env =
  ae_chrono :: chrono
  ae_instant :: int
  ae_digest :: "rstring \<Rightarrow> rstring"

definition ae_now :: "account_env \<Rightarrow> rstring" where
  "ae_now E = to_rfc3339 (ae_chrono E) (ae_instant E)"

abbreviation account_key :: "AgentAccount \<Rightarrow> AgentProvider \<times> AgentProductId \<times> AgentHarness \<times> rstring" where
  "account_key a \<equiv> (aa_provider a, aa_product a, aa_harness a, aa_identity_key a)"

text \<open>The \<^verbatim>\<open>CHECK\<close> clauses of a row and the unique columns against the other rows.\<close>

definition account_check :: "AgentAccount \<Rightarrow> bool" where
  "account_check a = ((aa_managed_runtime_id a = None) = (aa_managed_runtime_version a = None)
     \<and> (aa_runtime_profile_ref a = None \<or> aa_managed_runtime_id a \<noteq> None)
     \<and> (aa_runtime_profile_ref a \<noteq> None \<or> aa_credential_ref a \<noteq> None))"

definition apart :: "AgentAccount \<Rightarrow> AgentAccount \<Rightarrow> bool" where
  "apart a b = (aa_id a \<noteq> aa_id b \<and> account_key a \<noteq> account_key b
     \<and> (aa_runtime_profile_ref a = None \<or> aa_runtime_profile_ref a \<noteq> aa_runtime_profile_ref b)
     \<and> (aa_credential_ref a = None \<or> aa_credential_ref a \<noteq> aa_credential_ref b))"

definition insert_account :: "AgentAccount \<Rightarrow> accounts \<Rightarrow> DbError + accounts" where
  "insert_account a s =
     (if \<not> account_check a then Inl (Sqlite ''CHECK constraint failed'')
      else if \<not> list_all (apart a) (agent_accounts s) then Inl unique_failed
      else Inr (s\<lparr>agent_accounts := agent_accounts s @ [a]\<rparr>))"

text \<open>An \<^verbatim>\<open>UPDATE\<close> of the row with an identifier, with the number of rows it changed.\<close>

definition update_account :: "rstring \<Rightarrow> (AgentAccount \<Rightarrow> AgentAccount) \<Rightarrow> accounts \<Rightarrow> DbError + nat \<times> accounts" where
  "update_account i f s = (case find (\<lambda>a. aa_id a = i) (agent_accounts s) of
      None \<Rightarrow> Inr (0, s)
    | Some a \<Rightarrow>
        if \<not> account_check (f a) then Inl (Sqlite ''CHECK constraint failed'')
        else if \<not> list_all (apart (f a)) (filter (\<lambda>b. aa_id b \<noteq> i) (agent_accounts s)) then Inl unique_failed
        else Inr (1, s\<lparr>agent_accounts := update_where (\<lambda>b. aa_id b = i) f (agent_accounts s)\<rparr>))"

section \<open>Reading\<close>

definition read_account :: "account_env \<Rightarrow> AgentAccount \<Rightarrow> DbError + AgentAccount" where
  "read_account E a = (case validate_agent_account (ae_chrono E) a of
      Some e \<Rightarrow> Inl (Sqlite e) | None \<Rightarrow> Inr a)"

definition read_opt :: "account_env \<Rightarrow> AgentAccount option \<Rightarrow> DbError + AgentAccount option" where
  "read_opt E x = (case x of None \<Rightarrow> Inr None | Some a \<Rightarrow> map_sum id Some (read_account E a))"

definition get_agent_account :: "account_env \<Rightarrow> rstring \<Rightarrow> accounts \<Rightarrow> DbError + AgentAccount option" where
  "get_agent_account E i s = read_opt E (find (\<lambda>a. aa_id a = i) (agent_accounts s))"

definition get_agent_account_by_identity ::
  "account_env \<Rightarrow> AgentProvider \<Rightarrow> AgentProductId \<Rightarrow> AgentHarness \<Rightarrow> rstring \<Rightarrow> accounts
     \<Rightarrow> DbError + AgentAccount option" where
  "get_agent_account_by_identity E p q h key s =
     read_opt E (find (\<lambda>a. account_key a = (p, q, h, key)) (agent_accounts s))"

record AgentAccountReadDiagnostic =
  rd_account_id :: "rstring option"
  rd_error_code :: rstring

record AgentAccountList =
  al_accounts :: "AgentAccount list"
  al_diagnostics :: "AgentAccountReadDiagnostic list"

definition list_agent_accounts_with_diagnostics :: "account_env \<Rightarrow> accounts \<Rightarrow> AgentAccountList" where
  "list_agent_accounts_with_diagnostics E s =
     (let rows = sort_key (\<lambda>a. (AgentProvider_as_str (aa_provider a), product_as_str (aa_product a), aa_created_at a, aa_id a))
            (agent_accounts s)
      in \<lparr>al_accounts = filter (\<lambda>a. validate_agent_account (ae_chrono E) a = None) rows,
          al_diagnostics = map (\<lambda>a. \<lparr>rd_account_id = Some (aa_id a), rd_error_code = ''agent_account_row_corrupt''\<rparr>)
            (filter (\<lambda>a. validate_agent_account (ae_chrono E) a \<noteq> None) rows)\<rparr>)"

definition list_agent_accounts :: "account_env \<Rightarrow> accounts \<Rightarrow> AgentAccount list" where
  "list_agent_accounts E s = al_accounts (list_agent_accounts_with_diagnostics E s)"

section \<open>Writing\<close>

definition normalized_scopes :: "rstring list \<Rightarrow> rstring list" where
  "normalized_scopes xs = sort (remdups xs)"

text \<open>What a grant writes over a row: everything but its keys; access is pending until it is stored.\<close>

definition pending_row :: "rstring \<Rightarrow> AuthorizedAgentAccount \<Rightarrow> AgentAccount \<Rightarrow> AgentAccount" where
  "pending_row now z a = a\<lparr>
     aa_display_name := az_display_name z, aa_external_account_id := Some (az_external_account_id z),
     aa_external_workspace_id := az_external_workspace_id z, aa_auth_method := az_auth_method z,
     aa_custody_mode := az_custody_mode z, aa_managed_runtime_id := az_managed_runtime_id z,
     aa_managed_runtime_version := az_managed_runtime_version z,
     aa_runtime_profile_ref := az_runtime_profile_ref z, aa_scopes := normalized_scopes (az_scopes z),
     aa_billing_source := az_billing_source z, aa_billing_owner := az_billing_owner z,
     aa_entitlement_state := az_entitlement_state z, aa_entitlement_source := az_entitlement_source z,
     aa_entitlement_observed_at := az_entitlement_observed_at z, aa_status := AccError,
     aa_expires_at := az_expires_at z, aa_last_error_code := Some ''account_access_pending'',
     aa_updated_at := now\<rparr>"

definition new_row :: "account_env \<Rightarrow> rstring \<Rightarrow> rstring option \<Rightarrow> AuthorizedAgentAccount \<Rightarrow> AgentAccount" where
  "new_row E i ref z = \<lparr>aa_id = i, aa_provider = az_provider z, aa_product = az_product z, aa_harness = az_harness z,
     aa_identity_key = identity_key (ae_digest E) z, aa_display_name = az_display_name z,
     aa_external_account_id = Some (az_external_account_id z), aa_external_workspace_id = az_external_workspace_id z,
     aa_auth_method = az_auth_method z, aa_custody_mode = az_custody_mode z,
     aa_managed_runtime_id = az_managed_runtime_id z, aa_managed_runtime_version = az_managed_runtime_version z,
     aa_runtime_profile_ref = az_runtime_profile_ref z, aa_scopes = normalized_scopes (az_scopes z),
     aa_billing_source = az_billing_source z, aa_billing_owner = az_billing_owner z,
     aa_entitlement_state = az_entitlement_state z, aa_entitlement_source = az_entitlement_source z,
     aa_entitlement_observed_at = az_entitlement_observed_at z, aa_status = AccError,
     aa_expires_at = az_expires_at z, aa_last_checked_at = None,
     aa_last_error_code = Some ''account_access_pending'', aa_credential_ref = ref,
     aa_created_at = ae_now E, aa_updated_at = ae_now E\<rparr>"

definition loaded_account :: "account_env \<Rightarrow> rstring \<Rightarrow> accounts \<Rightarrow> (DbError + AgentAccount) \<times> accounts" where
  "loaded_account E i s = (case get_agent_account E i s of
      Inl e \<Rightarrow> (Inl e, s)
    | Inr None \<Rightarrow> (Inl (Other ''saved agent account could not be loaded''), s)
    | Inr (Some a) \<Rightarrow> (Inr a, s))"

definition credential_reference :: "rstring \<Rightarrow> rstring" where
  "credential_reference i = ''agent-account:'' @ i"

text \<open>\<open>fresh\<close> is the random part of a new identifier.\<close>

definition prepare_agent_account ::
  "account_env \<Rightarrow> rstring \<Rightarrow> AuthorizedAgentAccount \<Rightarrow> accounts \<Rightarrow> (DbError + AgentAccount) \<times> accounts" where
  "prepare_agent_account E fresh z s =
     (case validate_authorized_agent_account (ae_chrono E) z of
        Some e \<Rightarrow> (Inl (Other e), s)
      | None \<Rightarrow>
        if trim (az_external_account_id z) = [] then (Inl (Other ''validated account identity is required''), s)
        else (case find (\<lambda>a. account_key a = (az_provider z, az_product z, az_harness z, identity_key (ae_digest E) z))
                     (agent_accounts s) of
            Some a \<Rightarrow>
              if requires_credential (az_product z) \<noteq> (aa_credential_ref a \<noteq> None)
              then (Inl (Other ''agent account access contract mismatch''), s)
              else (case update_account (aa_id a) (pending_row (ae_now E) z) s of
                  Inl e \<Rightarrow> (Inl e, s)
                | Inr (_, s1) \<Rightarrow> loaded_account E (aa_id a) s1)
          | None \<Rightarrow>
              let i = ''account_'' @ fresh;
                  ref = (if requires_credential (az_product z) then Some (credential_reference i) else None)
              in (case insert_account (new_row E i ref z) s of
                  Inl e \<Rightarrow> (Inl e, s)
                | Inr s1 \<Rightarrow> loaded_account E i s1)))"

definition upsert_runtime_managed_account ::
  "account_env \<Rightarrow> rstring \<Rightarrow> AuthorizedAgentAccount \<Rightarrow> accounts \<Rightarrow> (DbError + AgentAccount) \<times> accounts" where
  "upsert_runtime_managed_account E i z s =
     (case validate_authorized_agent_account (ae_chrono E) z of
        Some e \<Rightarrow> (Inl (Other e), s)
      | None \<Rightarrow>
        if requires_credential (az_product z)
        then (Inl (Other ''runtime-managed accounts must not use a secret credential reference''), s)
        else if trim (az_external_account_id z) = [] then (Inl (Other ''validated account identity is required''), s)
        else if list_ex (\<lambda>a. account_key a = (az_provider z, az_product z, az_harness z, identity_key (ae_digest E) z)
                  \<and> aa_id a \<noteq> i) (agent_accounts s)
        then (Inl (Other ''agent account identity is already bound to a different account''), s)
        else (case find (\<lambda>a. aa_id a = i) (agent_accounts s) of
            Some a \<Rightarrow>
              if aa_credential_ref a \<noteq> None
              then (Inl (Other ''managed subscription accounts must not use a secret credential reference''), s)
              else (case update_account i (pending_row (ae_now E) z) s of
                  Inl e \<Rightarrow> (Inl e, s) | Inr (_, s1) \<Rightarrow> loaded_account E i s1)
          | None \<Rightarrow> (case insert_account (new_row E i None z) s of
                  Inl e \<Rightarrow> (Inl e, s) | Inr s1 \<Rightarrow> loaded_account E i s1)))"

definition account_missing :: DbError where "account_missing = Other ''agent account not found''"

definition changed_one :: "accounts \<Rightarrow> DbError + nat \<times> accounts \<Rightarrow> (DbError + unit) \<times> accounts" where
  "changed_one s r = (case r of
      Inl e \<Rightarrow> (Inl e, s)
    | Inr (n, s1) \<Rightarrow> if n = 0 then (Inl account_missing, s1) else (Inr (), s1))"

definition set_agent_account_state ::
  "account_env \<Rightarrow> rstring \<Rightarrow> AgentAccountStatus \<Rightarrow> rstring option \<Rightarrow> rstring option \<Rightarrow> accounts
     \<Rightarrow> (DbError + unit) \<times> accounts" where
  "set_agent_account_state E i st expires code s = changed_one s (update_account i (\<lambda>a. a\<lparr>aa_status := st,
     aa_expires_at := expires, aa_last_checked_at := Some (ae_now E), aa_last_error_code := code,
     aa_updated_at := ae_now E\<rparr>) s)"

definition api_key_row :: "account_env \<Rightarrow> AuthorizedAgentAccount \<Rightarrow> AgentAccount \<Rightarrow> AgentAccount" where
  "api_key_row E z a = a\<lparr>aa_identity_key := identity_key (ae_digest E) z, aa_display_name := az_display_name z,
     aa_external_account_id := Some (az_external_account_id z), aa_external_workspace_id := None,
     aa_auth_method := ApiKey, aa_custody_mode := AlfredManaged, aa_scopes := [],
     aa_billing_source := az_billing_source z, aa_billing_owner := az_billing_owner z,
     aa_entitlement_state := az_entitlement_state z, aa_entitlement_source := az_entitlement_source z,
     aa_entitlement_observed_at := az_entitlement_observed_at z, aa_status := AccConnected, aa_expires_at := None,
     aa_last_checked_at := Some (ae_now E), aa_last_error_code := None, aa_updated_at := ae_now E\<rparr>"

text \<open>The row is one of the product, with a reference to a credential.\<close>

definition api_key_target :: "AuthorizedAgentAccount \<Rightarrow> AgentAccount \<Rightarrow> bool" where
  "api_key_target z a = (aa_provider a = az_provider z \<and> aa_product a = az_product z \<and> aa_harness a = Alfred
     \<and> aa_credential_ref a \<noteq> None)"

definition finalize_api_key_agent_account ::
  "account_env \<Rightarrow> rstring \<Rightarrow> AuthorizedAgentAccount \<Rightarrow> accounts \<Rightarrow> (DbError + unit) \<times> accounts" where
  "finalize_api_key_agent_account E i z s =
     (case validate_authorized_agent_account (ae_chrono E) z of
        Some e \<Rightarrow> (Inl (Other e), s)
      | None \<Rightarrow>
        if az_auth_method z \<noteq> ApiKey \<or> az_custody_mode z \<noteq> AlfredManaged \<or> \<not> requires_credential (az_product z)
           \<or> trim (az_external_account_id z) = []
        then (Inl (Other ''invalid API-key account metadata''), s)
        else if \<not> list_ex (\<lambda>a. aa_id a = i \<and> api_key_target z a) (agent_accounts s) then (Inl account_missing, s)
        else changed_one s (update_account i (api_key_row E z) s))"

definition get_agent_account_credential_cleanup ::
  "rstring \<Rightarrow> accounts \<Rightarrow> AgentAccountCredentialCleanup option" where
  "get_agent_account_credential_cleanup i s = find (\<lambda>c. cl_account c = i) (credential_cleanup s)"

definition delete_agent_account_credential_cleanup :: "rstring \<Rightarrow> accounts \<Rightarrow> accounts" where
  "delete_agent_account_credential_cleanup i s =
     s\<lparr>credential_cleanup := filter (\<lambda>c. cl_account c \<noteq> i) (credential_cleanup s)\<rparr>"

definition delete_agent_account_metadata :: "rstring \<Rightarrow> accounts \<Rightarrow> (DbError + unit) \<times> accounts" where
  "delete_agent_account_metadata i s =
     (if list_ex (\<lambda>c. cl_account c = i) (credential_cleanup s)
         \<or> \<not> list_ex (\<lambda>a. aa_id a = i) (agent_accounts s)
      then (Inl account_missing, s)
      else (Inr (), s\<lparr>agent_accounts := filter (\<lambda>a. aa_id a \<noteq> i) (agent_accounts s)\<rparr>))"

end
