(* ===== verification/Account_Auth.thy ===== *)
theory Account_Auth
  imports Account_Models
begin

text \<open>
  The registry of authorization attempts, \<^verbatim>\<open>agent_accounts/authorization.rs\<close>: attempts in memory, each
  with a deadline, the state the callback must present and a flag that a cancellation sets. The flag
  is shared by the attempt and the table of cancellations (\<^verbatim>\<open>Arc\<close>), so it lives in a list of flags
  and both hold its index. A hash map is a list of keys and values without repeated keys. Times are
  instants in nanoseconds.
\<close>

record AuthorizationContext =
  ax_expected_state :: "rstring option"
  ax_pkce_verifier :: "rstring option"
  ax_nonce :: "rstring option"
  ax_provider_fields :: "(rstring \<times> rstring) list"

record AuthorizationAttempt =
  at_id :: rstring
  at_provider :: AgentProvider
  at_product :: AgentProductId
  at_harness :: AgentHarness
  at_auth_method :: AgentAuthMethod
  at_expires_at :: int
  at_flag :: nat
  at_context :: AuthorizationContext

datatype AuthorizationRegistryError = AuthNotFound | AuthExpired | AuthCancelled | StateMismatch | StateRequired
  | AuthProviderMismatch | AuthBusy

definition MAX_ACTIVE_ATTEMPTS :: nat where "MAX_ACTIVE_ATTEMPTS = 8"
definition MAX_CANCELLATION_TOMBSTONES :: nat where "MAX_CANCELLATION_TOMBSTONES = 64"

record AuthorizationAttemptRegistry =
  rg_attempts :: "(rstring \<times> AuthorizationAttempt) list"
  rg_cancellations :: "(rstring \<times> nat) list"
  rg_flags :: "bool list"

definition registry_default :: AuthorizationAttemptRegistry where
  "registry_default = \<lparr>rg_attempts = [], rg_cancellations = [], rg_flags = []\<rparr>"

definition blank_state :: "AuthorizationContext \<Rightarrow> bool" where
  "blank_state x = (case ax_expected_state x of None \<Rightarrow> True | Some s \<Rightarrow> trim s = [])"

definition put_key :: "rstring \<Rightarrow> 'a \<Rightarrow> (rstring \<times> 'a) list \<Rightarrow> (rstring \<times> 'a) list" where
  "put_key i v m = filter (\<lambda>kv. fst kv \<noteq> i) m @ [(i, v)]"

definition remove_key :: "rstring \<Rightarrow> (rstring \<times> 'a) list \<Rightarrow> (rstring \<times> 'a) list" where
  "remove_key i m = filter (\<lambda>kv. fst kv \<noteq> i) m"

definition stale_attempt :: "int \<Rightarrow> AuthorizationAttemptRegistry \<Rightarrow> AuthorizationAttempt \<Rightarrow> bool" where
  "stale_attempt now R a = (at_expires_at a \<le> now \<or> rg_flags R ! at_flag a)"

text \<open>Expired and cancelled attempts go, with their handles; then the handles without an attempt.\<close>

definition drop_stale :: "int \<Rightarrow> AuthorizationAttemptRegistry \<Rightarrow> AuthorizationAttemptRegistry" where
  "drop_stale now R =
     (let gone = map fst (filter (\<lambda>kv. stale_attempt now R (snd kv)) (rg_attempts R)) in
      R\<lparr>rg_attempts := filter (\<lambda>kv. fst kv \<notin> set gone) (rg_attempts R),
        rg_cancellations := filter (\<lambda>kv. fst kv \<notin> set gone) (rg_cancellations R)\<rparr>)"

definition drop_tombstones :: "AuthorizationAttemptRegistry \<Rightarrow> AuthorizationAttemptRegistry" where
  "drop_tombstones R =
     (let c = filter (\<lambda>kv. fst kv \<in> fst ` set (rg_attempts R)) (rg_cancellations R) in
      R\<lparr>rg_cancellations := (if MAX_CANCELLATION_TOMBSTONES < length c then [] else c)\<rparr>)"

text \<open>A new attempt; \<open>fresh\<close> is its random identifier and \<open>ttl\<close> its lifetime.\<close>

definition auth_insert ::
  "rstring \<Rightarrow> int \<Rightarrow> AgentProvider \<Rightarrow> AgentProductId \<Rightarrow> AgentHarness \<Rightarrow> AgentAuthMethod \<Rightarrow> int \<Rightarrow> AuthorizationContext
     \<Rightarrow> AuthorizationAttemptRegistry \<Rightarrow> (AuthorizationRegistryError + rstring \<times> int) \<times> AuthorizationAttemptRegistry" where
  "auth_insert fresh now p q h meth ttl x R =
     (if product_provider q \<noteq> p \<or> meth \<notin> set (auth_methods q) then (Inl AuthProviderMismatch, R)
      else if meth = OAuthPkce \<and> blank_state x then (Inl StateRequired, R)
      else
        let R1 = drop_stale now R in
        if MAX_ACTIVE_ATTEMPTS \<le> length (rg_attempts R1) then (Inl AuthBusy, R1)
        else
          let R2 = drop_tombstones R1; flag = length (rg_flags R2) in
          (Inr (fresh, now + ttl),
           R2\<lparr>rg_attempts := put_key fresh \<lparr>at_id = fresh, at_provider = p, at_product = q,
                at_harness = h, at_auth_method = meth, at_expires_at = now + ttl, at_flag = flag,
                at_context = x\<rparr> (rg_attempts R2),
              rg_cancellations := put_key fresh flag (rg_cancellations R2),
              rg_flags := rg_flags R2 @ [False]\<rparr>))"

definition auth_finish :: "rstring \<Rightarrow> AuthorizationAttemptRegistry \<Rightarrow> AuthorizationAttemptRegistry" where
  "auth_finish i R = R\<lparr>rg_cancellations := remove_key i (rg_cancellations R)\<rparr>"

text \<open>Why an attempt that was found may not be completed.\<close>

definition take_refused ::
  "int \<Rightarrow> AgentProvider \<Rightarrow> AgentProductId \<Rightarrow> AgentHarness \<Rightarrow> rstring option \<Rightarrow> AuthorizationAttemptRegistry
     \<Rightarrow> AuthorizationAttempt \<Rightarrow> AuthorizationRegistryError option" where
  "take_refused now p q h state R a =
     (if rg_flags R ! at_flag a then Some AuthCancelled
      else if at_expires_at a \<le> now then Some AuthExpired
      else if at_provider a \<noteq> p \<or> at_product a \<noteq> q \<or> at_harness a \<noteq> h then Some AuthProviderMismatch
      else if at_auth_method a = OAuthPkce \<and> blank_state (at_context a) then Some StateRequired
      else if state \<noteq> ax_expected_state (at_context a) then Some StateMismatch
      else None)"

definition auth_take ::
  "rstring \<Rightarrow> int \<Rightarrow> AgentProvider \<Rightarrow> AgentProductId \<Rightarrow> AgentHarness \<Rightarrow> rstring option \<Rightarrow> AuthorizationAttemptRegistry
     \<Rightarrow> (AuthorizationRegistryError + AuthorizationAttempt) \<times> AuthorizationAttemptRegistry" where
  "auth_take i now p q h state R = (case map_of (rg_attempts R) i of
      None \<Rightarrow> (Inl AuthNotFound, R)
    | Some a \<Rightarrow>
        let R1 = R\<lparr>rg_attempts := remove_key i (rg_attempts R)\<rparr> in
        (case take_refused now p q h state R1 a of
           Some e \<Rightarrow> (Inl e, auth_finish i R1)
         | None \<Rightarrow> (Inr a, R1)))"

definition auth_cancel ::
  "rstring \<Rightarrow> AuthorizationAttemptRegistry \<Rightarrow> (AuthorizationRegistryError + unit) \<times> AuthorizationAttemptRegistry" where
  "auth_cancel i R =
     (let R1 = R\<lparr>rg_attempts := remove_key i (rg_attempts R), rg_cancellations := remove_key i (rg_cancellations R)\<rparr> in
      case (case map_of (rg_cancellations R) i of Some f \<Rightarrow> Some f
          | None \<Rightarrow> map_option at_flag (map_of (rg_attempts R) i)) of
        None \<Rightarrow> (Inl AuthNotFound, R1)
      | Some f \<Rightarrow> (Inr (), R1\<lparr>rg_flags := (rg_flags R)[f := True]\<rparr>))"

section \<open>Sequences of calls\<close>

text \<open>The calls on the registry, each made while its lock is held.\<close>

datatype auth_op =
    OpInsert rstring int AgentProvider AgentProductId AgentHarness AgentAuthMethod int AuthorizationContext
  | OpTake rstring int AgentProvider AgentProductId AgentHarness "rstring option"
  | OpCancel rstring
  | OpFinish rstring

fun auth_apply :: "auth_op \<Rightarrow> AuthorizationAttemptRegistry \<Rightarrow> AuthorizationAttemptRegistry" where
  "auth_apply (OpInsert i now p q h meth ttl x) R = snd (auth_insert i now p q h meth ttl x R)"
| "auth_apply (OpTake i now p q h state) R = snd (auth_take i now p q h state R)"
| "auth_apply (OpCancel i) R = snd (auth_cancel i R)"
| "auth_apply (OpFinish i) R = auth_finish i R"

fun inserts :: "rstring \<Rightarrow> auth_op \<Rightarrow> bool" where
  "inserts i (OpInsert j now p q h meth ttl x) = (j = i)"
| "inserts i _ = False"

text \<open>Every attempt is stored under its own identifier, has a flag of its own, its handle is that of its
  flag, an OAuth attempt has a state to verify, and there are never more than eight.\<close>

definition attempt_ok :: "nat \<Rightarrow> (rstring \<times> nat) list \<Rightarrow> rstring \<Rightarrow> AuthorizationAttempt \<Rightarrow> bool" where
  "attempt_ok n handles i a = (at_id a = i \<and> at_flag a < n
     \<and> (\<forall>j f. (j, f) \<in> set handles \<longrightarrow> (f = at_flag a \<longleftrightarrow> j = i))
     \<and> product_provider (at_product a) = at_provider a \<and> at_auth_method a \<in> set (auth_methods (at_product a))
     \<and> (at_auth_method a = OAuthPkce \<longrightarrow> \<not> blank_state (at_context a)))"

definition auth_inv :: "AuthorizationAttemptRegistry \<Rightarrow> bool" where
  "auth_inv R = (distinct (map fst (rg_attempts R)) \<and> length (rg_attempts R) \<le> MAX_ACTIVE_ATTEMPTS
     \<and> inj_on (at_flag \<circ> snd) (set (rg_attempts R))
     \<and> (\<forall>(i, a) \<in> set (rg_attempts R). attempt_ok (length (rg_flags R)) (rg_cancellations R) i a)
     \<and> (\<forall>(i, f) \<in> set (rg_cancellations R). f < length (rg_flags R)))"

lemma remove_key_simps [simp]:
  "set (remove_key i m) = {kv \<in> set m. fst kv \<noteq> i}"
  "map_of (remove_key i m) j = (if j = i then None else map_of m j)"
  "distinct (map fst m) \<Longrightarrow> distinct (map fst (remove_key i m))"
proof -
  show "set (remove_key i m) = {kv \<in> set m. fst kv \<noteq> i}" by (auto simp: remove_key_def)
  show "map_of (remove_key i m) j = (if j = i then None else map_of m j)"
    by (induction m) (auto simp: remove_key_def)
  show "distinct (map fst (remove_key i m))" if "distinct (map fst m)"
    using that by (simp add: remove_key_def distinct_map_filter)
qed


lemma put_key_set [simp]: "set (put_key i v m) = insert (i, v) {kv \<in> set m. fst kv \<noteq> i}"
  by (auto simp: put_key_def)

lemma map_of_put_key [simp]: "map_of (put_key i v m) j = (if j = i then Some v else map_of m j)"
  by (induction m) (auto simp: put_key_def map_add_def)

lemma distinct_put_key: "distinct (map fst m) \<Longrightarrow> distinct (map fst (put_key i v m))"
  by (auto simp: put_key_def distinct_map_filter)

text \<open>Forgetting attempts and handles, or setting a flag, keeps the invariant.\<close>

lemma auth_inv_forget:
  assumes "auth_inv R" and "set as \<subseteq> set (rg_attempts R)" and "distinct (map fst as)"
    and "length as \<le> length (rg_attempts R)" and "set cs \<subseteq> set (rg_cancellations R)"
    and "length fs = length (rg_flags R)"
  shows "auth_inv (R\<lparr>rg_attempts := as, rg_cancellations := cs, rg_flags := fs\<rparr>)"
proof -
  have "attempt_ok n cs i a" if "attempt_ok n (rg_cancellations R) i a" for n i a
    using that assms(5) unfolding attempt_ok_def by blast
  then show ?thesis
    using assms inj_on_subset [of "at_flag \<circ> snd" "set (rg_attempts R)" "set as"]
    unfolding auth_inv_def by fastforce
qed

lemma length_filter_distinct: "distinct (map fst m) \<Longrightarrow> distinct (map fst (filter P m))"
  by (simp add: distinct_map_filter)

lemma drop_stale_inv: "auth_inv R \<Longrightarrow> auth_inv (drop_stale now R)"
  using auth_inv_forget [of R "rg_attempts (drop_stale now R)" "rg_cancellations (drop_stale now R)" "rg_flags R"]
  by (auto simp: drop_stale_def Let_def auth_inv_def length_filter_distinct)

lemma drop_tombstones_inv: "auth_inv R \<Longrightarrow> auth_inv (drop_tombstones R)"
  using auth_inv_forget [of R "rg_attempts R" "rg_cancellations (drop_tombstones R)" "rg_flags R"]
  by (auto simp: drop_tombstones_def Let_def auth_inv_def)

lemma auth_insert_Inr:
  assumes "auth_insert i now p q h meth ttl x R = (Inr r, R')"
  obtains R2 where "R2 = drop_tombstones (drop_stale now R)" and "length (rg_attempts R2) < MAX_ACTIVE_ATTEMPTS"
    and "product_provider q = p" and "meth \<in> set (auth_methods q)" and "meth = OAuthPkce \<Longrightarrow> \<not> blank_state x"
    and "r = (i, now + ttl)"
    and "R' = R2\<lparr>rg_attempts := put_key i \<lparr>at_id = i, at_provider = p, at_product = q, at_harness = h,
            at_auth_method = meth, at_expires_at = now + ttl, at_flag = length (rg_flags R2), at_context = x\<rparr>
            (rg_attempts R2),
          rg_cancellations := put_key i (length (rg_flags R2)) (rg_cancellations R2),
          rg_flags := rg_flags R2 @ [False]\<rparr>"
  using assms
  by (rule_tac that) (auto simp: auth_insert_def Let_def drop_tombstones_def split: if_splits)

lemma auth_insert_Inl: "auth_insert i now p q h meth ttl x R = (Inl e, R') \<Longrightarrow> R' = R \<or> R' = drop_stale now R"
  by (auto simp: auth_insert_def Let_def split: if_splits)

lemma attempt_ok_new_flag:
  assumes "attempt_ok n cs j a" and "j \<noteq> i"
  shows "attempt_ok (Suc n) (put_key i n cs) j a"
  using assms unfolding attempt_ok_def by (auto dest: less_not_refl2)

lemma auth_inv_add:
  assumes "auth_inv R" and "length (rg_attempts R) < MAX_ACTIVE_ATTEMPTS"
    and "at_id a = i" and "at_flag a = length (rg_flags R)"
    and "product_provider (at_product a) = at_provider a" and "at_auth_method a \<in> set (auth_methods (at_product a))"
    and "at_auth_method a = OAuthPkce \<Longrightarrow> \<not> blank_state (at_context a)"
  shows "auth_inv (R\<lparr>rg_attempts := put_key i a (rg_attempts R),
           rg_cancellations := put_key i (length (rg_flags R)) (rg_cancellations R), rg_flags := rg_flags R @ [False]\<rparr>)"
proof -
  note inv = assms(1) [unfolded auth_inv_def]
  have len: "length (put_key i a (rg_attempts R)) \<le> MAX_ACTIVE_ATTEMPTS"
    using assms(2) by (simp add: put_key_def Suc_le_eq le_less_trans [OF length_filter_le])
  have old: "at_flag (snd kv) < length (rg_flags R)" if "kv \<in> set (rg_attempts R)" for kv
    using inv that by (auto simp: attempt_ok_def)
  have unused: "length (rg_flags R) \<notin> (at_flag \<circ> snd) ` set (rg_attempts R)"
  proof
    assume "length (rg_flags R) \<in> (at_flag \<circ> snd) ` set (rg_attempts R)"
    then obtain kv where "kv \<in> set (rg_attempts R)" "length (rg_flags R) = at_flag (snd kv)" by auto
    with old [of kv] show False by simp
  qed
  have "inj_on (at_flag \<circ> snd) {kv \<in> set (rg_attempts R). fst kv \<noteq> i}"
    using inv by (auto intro: inj_on_subset)
  then have inj: "inj_on (at_flag \<circ> snd) (set (put_key i a (rg_attempts R)))"
    unfolding put_key_set inj_on_insert using unused assms(4) by auto
  have handles: "f < length (rg_flags R)" if "(j, f) \<in> set (rg_cancellations R)" for j f
    using inv that by blast
  have new: "attempt_ok (Suc (length (rg_flags R))) (put_key i (length (rg_flags R)) (rg_cancellations R)) i a"
    using assms(3-7) handles unfolding attempt_ok_def by fastforce
  have "\<forall>(j, b) \<in> set (put_key i a (rg_attempts R)).
      attempt_ok (Suc (length (rg_flags R))) (put_key i (length (rg_flags R)) (rg_cancellations R)) j b"
    using new inv by (auto intro: attempt_ok_new_flag)
  then show ?thesis
    using inv len inj handles by (auto simp: auth_inv_def distinct_put_key less_SucI)
qed

lemma auth_insert_inv: "auth_inv R \<Longrightarrow> auth_inv (snd (auth_insert i now p q h meth ttl x R))"
proof -
  assume R: "auth_inv R"
  obtain res R' where e: "auth_insert i now p q h meth ttl x R = (res, R')" by fastforce
  show ?thesis
  proof (cases res)
    case (Inl err)
    with e R auth_insert_Inl [of i now p q h meth ttl x R err R'] show ?thesis by (auto simp: drop_stale_inv)
  next
    case (Inr r)
    from e [unfolded Inr] show ?thesis
      by (rule auth_insert_Inr) (use R e in \<open>auto intro!: auth_inv_add drop_tombstones_inv drop_stale_inv\<close>)
  qed
qed

lemma remove_attempt_inv:
  "auth_inv R \<Longrightarrow> auth_inv (R\<lparr>rg_attempts := remove_key i (rg_attempts R)\<rparr>)"
  using auth_inv_forget [of R "remove_key i (rg_attempts R)" "rg_cancellations R" "rg_flags R"]
  by (auto simp: auth_inv_def remove_key_def length_filter_distinct)

lemma auth_finish_inv: "auth_inv R \<Longrightarrow> auth_inv (auth_finish i R)"
  using auth_inv_forget [of R "rg_attempts R" "remove_key i (rg_cancellations R)" "rg_flags R"]
  by (auto simp: auth_inv_def auth_finish_def)

lemma auth_take_inv: "auth_inv R \<Longrightarrow> auth_inv (snd (auth_take i now p q h state R))"
  by (simp add: auth_take_def Let_def remove_attempt_inv auth_finish_inv split: option.split)

lemma auth_cancel_inv: "auth_inv R \<Longrightarrow> auth_inv (snd (auth_cancel i R))"
proof -
  assume R: "auth_inv R"
  have "auth_inv (R\<lparr>rg_attempts := remove_key i (rg_attempts R),
      rg_cancellations := remove_key i (rg_cancellations R), rg_flags := fs\<rparr>)"
    if "length fs = length (rg_flags R)" for fs
    by (rule auth_inv_forget [OF R]) (use R that in \<open>auto simp: auth_inv_def remove_key_def length_filter_distinct\<close>)
  from this [of "rg_flags R"] this show ?thesis
    by (auto simp: auth_cancel_def Let_def split: option.split)
qed

lemma auth_apply_inv: "auth_inv R \<Longrightarrow> auth_inv (auth_apply op R)"
  by (cases op) (simp_all add: auth_insert_inv auth_take_inv auth_cancel_inv auth_finish_inv)

lemma auth_reachable: "auth_inv (fold auth_apply ops registry_default)"
proof -
  have "auth_inv (fold auth_apply ops R)" if "auth_inv R" for R
    using that by (induction ops arbitrary: R) (simp_all add: auth_apply_inv)
  moreover have "auth_inv registry_default"
    by (simp add: auth_inv_def registry_default_def MAX_ACTIVE_ATTEMPTS_def)
  ultimately show ?thesis .
qed

section \<open>An attempt is used once\<close>

lemma map_of_filter_keys: "map_of (filter (\<lambda>kv. fst kv \<notin> A) m) i = (if i \<in> A then None else map_of m i)"
  by (induction m) auto

lemma drop_attempts: "rg_attempts (drop_tombstones R) = rg_attempts R" "rg_flags (drop_tombstones R) = rg_flags R"
  "rg_flags (drop_stale now R) = rg_flags R"
  by (simp_all add: drop_tombstones_def drop_stale_def Let_def)

lemma auth_apply_absent:
  assumes "map_of (rg_attempts R) i = None" and "\<not> inserts i op"
  shows "map_of (rg_attempts (auth_apply op R)) i = None"
proof (cases op)
  case (OpInsert j now p q h meth ttl x)
  have stale: "map_of (rg_attempts (drop_stale now R)) i = None"
    using assms(1) by (simp add: drop_stale_def Let_def map_of_filter_keys)
  obtain res R' where e: "auth_insert j now p q h meth ttl x R = (res, R')" by fastforce
  show ?thesis
  proof (cases res)
    case (Inl err)
    with e auth_insert_Inl [of j now p q h meth ttl x R err R'] OpInsert assms(1) stale show ?thesis by auto
  next
    case (Inr r)
    from e [unfolded Inr] show ?thesis
      by (rule auth_insert_Inr) (use OpInsert e assms(2) stale in \<open>auto simp: drop_attempts\<close>)
  qed
qed (use assms in \<open>auto simp: auth_take_def auth_cancel_def auth_finish_def Let_def split: option.split\<close>)

text \<open>
  Property C23 (an authorization is verified and used once): in every reachable registry there are at most
  eight attempts; an attempt that completes was started, is neither cancelled nor expired, is for the
  provider, product and harness of the caller, and the caller presents exactly the state it was
  started with, which for OAuth is a state that is not blank; and no later call completes it again.
\<close>

theorem authorization_single_use:
  assumes "R = fold auth_apply ops registry_default"
    and "auth_take i now p q h state R = (Inr a, R1)"
    and "\<forall>op \<in> set later. \<not> inserts i op"
  shows "map_of (rg_attempts R) i = Some a \<and> at_id a = i \<and> length (rg_attempts R) \<le> 8
    \<and> \<not> rg_flags R ! at_flag a \<and> now < at_expires_at a
    \<and> at_provider a = p \<and> at_product a = q \<and> at_harness a = h \<and> product_provider q = p
    \<and> state = ax_expected_state (at_context a)
    \<and> (at_auth_method a = OAuthPkce \<longrightarrow> (\<exists>s. state = Some s \<and> trim s \<noteq> []))
    \<and> fst (auth_take i now' p' q' h' state' (fold auth_apply later R1)) = Inl AuthNotFound"
proof -
  have inv: "auth_inv R" by (simp add: assms(1) auth_reachable)
  from assms(2) have a: "map_of (rg_attempts R) i = Some a"
    and R1: "R1 = R\<lparr>rg_attempts := remove_key i (rg_attempts R)\<rparr>"
    and ok: "take_refused now p q h state R1 a = None"
    by (auto simp: auth_take_def Let_def split: option.splits)
  have "map_of (rg_attempts (fold auth_apply later S)) i = None" if "map_of (rg_attempts S) i = None" for S
    using that assms(3) by (induction later arbitrary: S) (simp_all add: auth_apply_absent)
  then have gone: "map_of (rg_attempts (fold auth_apply later R1)) i = None" by (simp add: R1)
  have "attempt_ok (length (rg_flags R)) (rg_cancellations R) i a"
    using inv map_of_SomeD [OF a] by (auto simp: auth_inv_def)
  with ok show ?thesis
    using a inv gone
    by (auto simp: take_refused_def R1 attempt_ok_def auth_inv_def MAX_ACTIVE_ATTEMPTS_def blank_state_def
        auth_take_def not_le split: if_splits option.splits)
qed

section \<open>Attempts do not disturb one another\<close>

text \<open>A call that leaves an attempt alone: it names another one, and no sweep happens after its deadline.\<close>

fun spares :: "rstring \<Rightarrow> int \<Rightarrow> auth_op \<Rightarrow> bool" where
  "spares i deadline (OpInsert j now p q h meth ttl x) = (j \<noteq> i \<and> now < deadline)"
| "spares i deadline (OpTake j now p q h state) = (j \<noteq> i)"
| "spares i deadline (OpCancel j) = (j \<noteq> i)"
| "spares i deadline (OpFinish j) = True"

definition pending_attempt :: "rstring \<Rightarrow> AuthorizationAttempt \<Rightarrow> AuthorizationAttemptRegistry \<Rightarrow> bool" where
  "pending_attempt i a R = (auth_inv R \<and> map_of (rg_attempts R) i = Some a \<and> \<not> rg_flags R ! at_flag a)"

lemma pending_drop_stale:
  assumes "pending_attempt i a R" and "now < at_expires_at a"
  shows "pending_attempt i a (drop_stale now R)"
proof -
  have d: "distinct (map fst (rg_attempts R))" and a: "map_of (rg_attempts R) i = Some a"
    using assms(1) by (simp_all add: pending_attempt_def auth_inv_def)
  have "\<not> stale_attempt now R a" using assms by (simp add: stale_attempt_def pending_attempt_def)
  then have "i \<notin> fst ` {kv \<in> set (rg_attempts R). stale_attempt now R (snd kv)}"
    using a by (auto dest: map_of_is_SomeI [OF d])
  with assms(1) show ?thesis
    by (simp add: pending_attempt_def drop_stale_inv drop_attempts)
      (simp add: drop_stale_def Let_def map_of_filter_keys)
qed

lemma pending_insert:
  assumes "pending_attempt i a R" and "j \<noteq> i" and "now < at_expires_at a"
  shows "pending_attempt i a (snd (auth_insert j now p q h meth ttl x R))"
proof -
  have stale: "pending_attempt i a (drop_stale now R)" by (rule pending_drop_stale [OF assms(1,3)])
  then have flag: "at_flag a < length (rg_flags R)"
    using map_of_SomeD [of "rg_attempts R" i a] assms(1) by (auto simp: pending_attempt_def auth_inv_def attempt_ok_def)
  have inv: "auth_inv (snd (auth_insert j now p q h meth ttl x R))"
    using assms(1) by (simp add: pending_attempt_def auth_insert_inv)
  obtain res R' where e: "auth_insert j now p q h meth ttl x R = (res, R')" by fastforce
  show ?thesis
  proof (cases res)
    case (Inl err)
    with e auth_insert_Inl [of j now p q h meth ttl x R err R'] stale assms(1) show ?thesis by auto
  next
    case (Inr r)
    from e [unfolded Inr] show ?thesis
      by (rule auth_insert_Inr)
        (use inv e stale assms(2) flag in \<open>auto simp: pending_attempt_def drop_attempts nth_append\<close>)
  qed
qed

lemma pending_cancel:
  assumes "pending_attempt i a R" and "j \<noteq> i"
  shows "pending_attempt i a (snd (auth_cancel j R))"
proof -
  have inv: "auth_inv R" and a: "(i, a) \<in> set (rg_attempts R)"
    using assms(1) map_of_SomeD by (auto simp: pending_attempt_def)
  have "attempt_ok (length (rg_flags R)) (rg_cancellations R) i a" using inv a by (auto simp: auth_inv_def)
  then have handle: "f \<noteq> at_flag a" if "map_of (rg_cancellations R) j = Some f" for f
    using map_of_SomeD [OF that] assms(2) unfolding attempt_ok_def by blast
  have other: "at_flag b \<noteq> at_flag a" if "map_of (rg_attempts R) j = Some b" for b
  proof
    assume "at_flag b = at_flag a"
    then have "(at_flag \<circ> snd) (j, b) = (at_flag \<circ> snd) (i, a)" by simp
    with inv a map_of_SomeD [OF that] have "(j, b) = (i, a)"
      unfolding auth_inv_def by (meson inj_onD)
    with assms(2) show False by simp
  qed
  have "auth_inv (snd (auth_cancel j R))" by (rule auth_cancel_inv [OF inv])
  then show ?thesis
    using assms handle other
    by (auto simp: pending_attempt_def auth_cancel_def Let_def split: option.splits)
qed

lemma pending_apply:
  assumes "pending_attempt i a R" and "spares i (at_expires_at a) op"
  shows "pending_attempt i a (auth_apply op R)"
proof (cases op)
  case (OpTake j now p q h state)
  with assms show ?thesis
    using auth_take_inv [of R j now p q h state]
    by (auto simp: pending_attempt_def auth_take_def auth_finish_def Let_def split: option.splits)
next
  case (OpFinish j)
  with assms(1) show ?thesis
    using auth_finish_inv [of R j] by (simp add: pending_attempt_def) (simp add: auth_finish_def)
qed (use assms in \<open>simp_all add: pending_insert pending_cancel\<close>)

text \<open>
  Property C40 (attempts are independent): an attempt that was started can be completed until its deadline
  by whoever presents its state, whatever other attempts are started, completed, cancelled or swept
  in between.
\<close>

theorem authorization_completes:
  assumes "R = fold auth_apply ops registry_default"
    and "auth_insert i now p q h meth ttl x R = (Inr r, R1)"
    and "\<forall>op \<in> set later. spares i (now + ttl) op" and "now' < now + ttl"
  shows "\<exists>a. fst (auth_take i now' p q h (ax_expected_state x) (fold auth_apply later R1)) = Inr a
    \<and> at_context a = x \<and> at_expires_at a = now + ttl"
proof -
  have inv: "auth_inv R" by (simp add: assms(1) auth_reachable)
  obtain a where a: "pending_attempt i a R1" "at_expires_at a = now + ttl" "at_context a = x" "at_provider a = p"
    "at_product a = q" "at_harness a = h" "at_auth_method a = OAuthPkce \<longrightarrow> \<not> blank_state x"
    using assms(2)
  proof (rule auth_insert_Inr, goal_cases)
    case (1 R2)
    have "auth_inv R1" using auth_insert_inv [OF inv, of i now p q h meth ttl x] assms(2) by simp
    then show ?thesis
      by (intro 1(1) [of "the (map_of (rg_attempts R1) i)"]) (auto simp: 1(3-) pending_attempt_def nth_append)
  qed
  have "pending_attempt i a (fold auth_apply later S)" if "pending_attempt i a S" for S
    using that assms(3) a(2) by (induction later arbitrary: S) (simp_all add: pending_apply)
  then have "pending_attempt i a (fold auth_apply later R1)" using a(1) by blast
  then show ?thesis
    using a(2-) assms(4) by (auto simp: pending_attempt_def auth_take_def Let_def take_refused_def)
qed

definition ex_auth_context :: AuthorizationContext where
  "ex_auth_context = \<lparr>ax_expected_state = Some ''s'', ax_pkce_verifier = Some ''v'', ax_nonce = None, ax_provider_fields = []\<rparr>"

definition ex_auth_insert :: auth_op where
  "ex_auth_insert = OpInsert ''x'' 0 Codex ChatgptCodex Alfred OAuthPkce 10 ex_auth_context"

lemma ex_auth_take:
  "auth_take ''x'' 5 Codex ChatgptCodex Alfred (Some ''s'') (fold auth_apply [ex_auth_insert] registry_default) =
     (Inr \<lparr>at_id = ''x'', at_provider = Codex, at_product = ChatgptCodex, at_harness = Alfred, at_auth_method = OAuthPkce,
        at_expires_at = 10, at_flag = 0, at_context = ex_auth_context\<rparr>,
      \<lparr>rg_attempts = [], rg_cancellations = [(''x'', 0)], rg_flags = [False]\<rparr>)"
  by code_simp

theorem authorization_single_use_witness:
  "fst (auth_take ''x'' 6 Codex ChatgptCodex Alfred (Some ''s'') (fold auth_apply [OpCancel ''x'']
     \<lparr>rg_attempts = [], rg_cancellations = [(''x'', 0)], rg_flags = [False]\<rparr>)) = Inl AuthNotFound"
  using authorization_single_use [OF refl ex_auth_take, of "[OpCancel ''x'']" 6 Codex ChatgptCodex Alfred "Some ''s''"]
  by (simp add: ex_auth_context_def)

theorem authorization_completes_witness:
  "\<exists>a. fst (auth_take ''x'' 9 Codex ChatgptCodex Alfred (Some ''s'')
       (fold auth_apply [OpInsert ''y'' 4 Gemini GeminiApi Alfred ApiKey 5 (ex_auth_context\<lparr>ax_expected_state := None\<rparr>), OpCancel ''y'']
          (snd (auth_insert ''x'' 0 Codex ChatgptCodex Alfred OAuthPkce 10 ex_auth_context registry_default)))) = Inr a
     \<and> at_context a = ex_auth_context"
proof -
  let ?later = "[OpInsert ''y'' 4 Gemini GeminiApi Alfred ApiKey 5 (ex_auth_context\<lparr>ax_expected_state := None\<rparr>), OpCancel ''y'']"
  have start: "auth_insert ''x'' 0 Codex ChatgptCodex Alfred OAuthPkce 10 ex_auth_context (fold auth_apply [] registry_default)
      = (Inr (''x'', 10), snd (auth_insert ''x'' 0 Codex ChatgptCodex Alfred OAuthPkce 10 ex_auth_context registry_default))"
    by code_simp
  show ?thesis
    using authorization_completes [OF refl start, of ?later 9] by (simp add: ex_auth_context_def) blast
qed

end
