(* ===== verification/Accounts.thy ===== *)
theory Accounts
  imports Account_Store Account_Auth
begin

text \<open>
  The service of native-agent accounts, \<^verbatim>\<open>agent_accounts/service.rs\<close> and \<^verbatim>\<open>agent_accounts/resolver.rs\<close>:
  connecting by an authorization or by an API key, refreshing, disconnecting, and handing a credential
  to a runtime. An operation works on three stores that share no transaction - the rows, the keyring and
  the attempts - and its order of writes is what the properties are about.

  The handlers of the providers are parameters, functions of what they are given. An operation that
  holds the lock of its account is one step here; \<^verbatim>\<open>complete_authorization\<close> takes no lock, so its two
  halves, before and after the first await that follows the row, are definitions of their own. The
  table of locks itself, a panic of a blocking task and a poisoned lock are not modelled.
\<close>

section \<open>Errors\<close>

record AgentAccountCommandError =
  ce_code :: rstring
  ce_message :: rstring
  ce_recoverable :: bool

definition command_error :: "rstring \<Rightarrow> rstring \<Rightarrow> bool \<Rightarrow> AgentAccountCommandError" where
  "command_error code message recoverable = \<lparr>ce_code = stable_error_code code, ce_message = message,
     ce_recoverable = recoverable\<rparr>"

definition metadata_error :: AgentAccountCommandError where
  "metadata_error = command_error ''account_store_failed''
     ''Native-agent account metadata could not be read or updated.'' True"

definition account_not_found :: AgentAccountCommandError where
  "account_not_found = command_error ''account_not_found'' ''The native-agent account no longer exists.'' False"

fun credential_error_code :: "AgentCredentialStoreError \<Rightarrow> rstring" where
  "credential_error_code CrMissing = ''credential_missing''"
| "credential_error_code CrLocked = ''credential_store_locked''"
| "credential_error_code CrInvalid = ''credential_invalid''"
| "credential_error_code CrFailed = ''credential_store_failed''"

definition credential_command_error :: "AgentCredentialStoreError \<Rightarrow> AgentAccountCommandError" where
  "credential_command_error e = command_error (credential_error_code e)
     (case e of
        CrMissing \<Rightarrow> ''The native-agent credential is missing. Reconnect the account.''
      | CrLocked \<Rightarrow> ''Unlock the system credential store and try again.''
      | CrInvalid \<Rightarrow> ''The saved native-agent credential is invalid. Reconnect the account.''
      | CrFailed \<Rightarrow> ''The native-agent credential could not be saved or removed.'') True"

datatype AgentProviderFailureKind = Retryable | TerminalRevoked | UnsupportedAuthMode | PolicyDenied

record AgentProviderError =
  pe_code :: rstring
  pe_kind :: AgentProviderFailureKind

definition provider_command_error :: "AgentProviderError \<Rightarrow> AgentAccountCommandError" where
  "provider_command_error e = (case pe_kind e of
      Retryable \<Rightarrow> command_error (pe_code e) ''The provider is temporarily unavailable. Try again.'' True
    | TerminalRevoked \<Rightarrow> command_error (pe_code e) ''The provider revoked this account. Reconnect it.'' False
    | UnsupportedAuthMode \<Rightarrow> command_error (pe_code e)
        ''This build does not support the account's authorization method.'' False
    | PolicyDenied \<Rightarrow> command_error (pe_code e) ''The provider policy denied this operation.'' False)"

fun registry_command_error :: "AuthorizationRegistryError \<Rightarrow> AgentAccountCommandError" where
  "registry_command_error AuthNotFound = command_error ''authorization_not_found''
     ''The authorization attempt no longer exists. Start again.'' False"
| "registry_command_error AuthExpired = command_error ''authorization_expired''
     ''The authorization attempt expired. Start again.'' False"
| "registry_command_error AuthCancelled = command_error ''authorization_cancelled''
     ''The authorization attempt was cancelled.'' False"
| "registry_command_error StateMismatch = command_error ''authorization_state_mismatch''
     ''The authorization response could not be verified.'' False"
| "registry_command_error StateRequired = command_error ''authorization_state_required''
     ''OAuth authorization could not start without a secure state value.'' False"
| "registry_command_error AuthProviderMismatch = command_error ''provider_mismatch''
     ''The authorization response belongs to a different provider.'' False"
| "registry_command_error AuthBusy = command_error ''authorization_busy''
     ''Too many native authorization attempts are active.'' True"

section \<open>Providers\<close>

record AgentProviderRegistration =
  pr_provider :: AgentProvider
  pr_product :: AgentProductId
  pr_harness :: AgentHarness
  pr_auth_method :: AgentAuthMethod
  pr_custody_mode :: CredentialCustodyMode
  pr_managed_runtime_id :: "ManagedRuntimeId option"
  pr_managed_runtime_version :: "rstring option"
  pr_gate_code :: "rstring option"

record ProviderAuthorizationStart =
  ps_authorization_url :: "rstring option"
  ps_user_code :: "rstring option"
  ps_ttl :: int
  ps_context :: AuthorizationContext

record ProviderAccountAccess =
  pa_credential :: "AgentCredentialEnvelope option"
  pa_runtime_profile_ref :: "rstring option"

record ProviderAccountGrant =
  pg_account :: AuthorizedAgentAccount
  pg_access :: ProviderAccountAccess

record AgentAccountProvider =
  ap_registration :: AgentProviderRegistration
  ap_start :: "AgentProviderError + ProviderAuthorizationStart"
  ap_complete :: "AuthorizationAttempt \<Rightarrow> AgentProviderError + ProviderAccountGrant"
  ap_refresh :: "AgentAccount \<Rightarrow> ProviderAccountAccess \<Rightarrow> AgentProviderError + ProviderAccountAccess"
  ap_revoke :: "AgentAccount \<Rightarrow> ProviderAccountAccess \<Rightarrow> AgentProviderError + unit"

record ProviderEntry =
  en_registration :: AgentProviderRegistration
  en_handler :: "AgentAccountProvider option"

type_synonym providers = "AgentProductId \<Rightarrow> ProviderEntry option"

definition register_gated_defaults :: providers where
  "register_gated_defaults q = Some \<lparr>
     en_registration = \<lparr>pr_provider = product_provider q, pr_product = q, pr_harness = Alfred,
       pr_auth_method = product_auth_method q, pr_custody_mode = custody_mode q,
       pr_managed_runtime_id = managed_runtime q, pr_managed_runtime_version = managed_runtime_version q,
       pr_gate_code = Some ''native_provider_not_available''\<rparr>,
     en_handler = None\<rparr>"

definition register_provider :: "AgentAccountProvider \<Rightarrow> providers \<Rightarrow> AgentAccountCommandError + providers" where
  "register_provider h P =
     (let r = ap_registration h; q = pr_product r in
      if pr_harness r \<noteq> Alfred \<or> pr_provider r \<noteq> product_provider q \<or> pr_auth_method r \<notin> set (auth_methods q)
         \<or> pr_custody_mode r \<noteq> custody_mode q \<or> pr_managed_runtime_id r \<noteq> managed_runtime q
         \<or> pr_managed_runtime_version r \<noteq> managed_runtime_version q
      then Inl (command_error ''unsupported_auth_mode'' ''Native accounts must use the Alfred harness.'' False)
      else Inr (P(q := Some \<lparr>en_registration = r, en_handler = Some h\<rparr>)))"

definition product_not_found :: AgentAccountCommandError where
  "product_not_found = command_error ''product_not_found'' ''The native agent product is unknown.'' False"

definition registered_provider ::
  "AgentProductId \<Rightarrow> providers \<Rightarrow> AgentAccountCommandError + AgentProviderRegistration \<times> AgentAccountProvider option" where
  "registered_provider q P = (case P q of
      None \<Rightarrow> Inl product_not_found
    | Some x \<Rightarrow> Inr (en_registration x, en_handler x))"

section \<open>Access\<close>

definition account_access_mismatch :: AgentAccountCommandError where
  "account_access_mismatch = command_error ''account_access_mismatch''
     ''The provider returned account access for a different product route.'' False"

definition validate_provider_access ::
  "AgentProductId \<Rightarrow> CredentialCustodyMode \<Rightarrow> ProviderAccountAccess \<Rightarrow> AgentAccountCommandError option" where
  "validate_provider_access q mode x =
     (let credential_matches = (requires_credential q = (pa_credential x \<noteq> None));
          profile_matches = (case managed_runtime q of
              Some _ \<Rightarrow> \<not> blank_or_long 512 (pa_runtime_profile_ref x)
            | None \<Rightarrow> pa_runtime_profile_ref x = None);
          custody_matches = (case pa_credential x of None \<Rightarrow> True | Some c \<Rightarrow> ce_custody_mode c = mode)
      in if \<not> credential_matches \<or> \<not> profile_matches \<or> \<not> custody_matches
            \<or> (is_managed_subscription q \<and> pa_credential x \<noteq> None)
         then Some account_access_mismatch else None)"

definition required_credential_ref :: "AgentAccount \<Rightarrow> AgentAccountCommandError + rstring" where
  "required_credential_ref a = (case aa_credential_ref a of
      Some r \<Rightarrow> Inr r
    | None \<Rightarrow> Inl (command_error ''credential_missing''
        ''This credential-backed product has no secret reference. Reconnect the account.'' False))"

text \<open>The three stores.\<close>

record 'k agent_world =
  gw_db :: accounts
  gw_keys :: 'k
  gw_auth :: AuthorizationAttemptRegistry

type_synonym ('a, 'k) svc = "(AgentAccountCommandError + 'a) \<times> 'k agent_world"

definition set_state ::
  "account_env \<Rightarrow> rstring \<Rightarrow> AgentAccountStatus \<Rightarrow> rstring option \<Rightarrow> rstring option \<Rightarrow> 'k agent_world \<Rightarrow> (unit, 'k) svc" where
  "set_state E i st expires code W = (case set_agent_account_state E i st expires code (gw_db W) of
      (r, s) \<Rightarrow> (map_sum (\<lambda>_. metadata_error) id r, W\<lparr>gw_db := s\<rparr>))"

text \<open>Recording a failure and returning its error; when the record fails too, that is the error.\<close>

definition fail_with ::
  "account_env \<Rightarrow> rstring \<Rightarrow> AgentAccountStatus \<Rightarrow> rstring option \<Rightarrow> rstring \<Rightarrow> AgentAccountCommandError
     \<Rightarrow> 'k agent_world \<Rightarrow> ('a, 'k) svc" where
  "fail_with E i st expires code e W = (case set_state E i st expires (Some code) W of
      (Inl e', W1) \<Rightarrow> (Inl e', W1) | (Inr _, W1) \<Rightarrow> (Inl e, W1))"

text \<open>The same when the outcome of the record is ignored.\<close>

definition fail_quietly ::
  "account_env \<Rightarrow> rstring \<Rightarrow> AgentAccountStatus \<Rightarrow> rstring option \<Rightarrow> rstring \<Rightarrow> AgentAccountCommandError
     \<Rightarrow> 'k agent_world \<Rightarrow> ('a, 'k) svc" where
  "fail_quietly E i st expires code e W = (Inl e, snd (set_state E i st expires (Some code) W))"

definition read_access ::
  "'k agent_store \<Rightarrow> AgentAccount \<Rightarrow> 'k agent_world \<Rightarrow> AgentAccountCommandError + ProviderAccountAccess" where
  "read_access S a W =
     (case (case aa_credential_ref a of None \<Rightarrow> Inr None
          | Some r \<Rightarrow> map_sum credential_command_error Some (cred_get S r (gw_keys W))) of
        Inl e \<Rightarrow> Inl e
      | Inr c \<Rightarrow> (let x = \<lparr>pa_credential = c, pa_runtime_profile_ref = aa_runtime_profile_ref a\<rparr> in
          case validate_provider_access (aa_product a) (aa_custody_mode a) x of
            Some e \<Rightarrow> Inl e | None \<Rightarrow> Inr x))"

section \<open>Reading accounts\<close>

definition is_past_expiry :: "account_env \<Rightarrow> rstring option \<Rightarrow> bool" where
  "is_past_expiry E v = (case Option.bind v (parse_rfc3339 (ae_chrono E)) of
      None \<Rightarrow> False | Some t \<Rightarrow> t \<le> ae_instant E)"

definition project_expiry :: "account_env \<Rightarrow> AgentAccount \<Rightarrow> 'k agent_world \<Rightarrow> AgentAccount \<times> 'k agent_world" where
  "project_expiry E a W =
     (if aa_status a \<noteq> AccConnected \<or> \<not> is_past_expiry E (aa_expires_at a) then (a, W)
      else (a\<lparr>aa_status := AccExpired, aa_last_error_code := Some ''credential_expired''\<rparr>,
            snd (set_state E (aa_id a) AccExpired (aa_expires_at a) (Some ''credential_expired'') W)))"

record AgentAccountDto =
  dt_id :: rstring
  dt_provider_id :: rstring
  dt_provider_name :: rstring
  dt_product_id :: rstring
  dt_display_name :: "rstring option"
  dt_external_account_id :: "rstring option"
  dt_external_workspace_id :: "rstring option"
  dt_auth_method :: AgentAuthMethod
  dt_custody_mode :: CredentialCustodyMode
  dt_status :: AgentAccountStatus
  dt_expires_at :: "rstring option"
  dt_last_checked_at :: "rstring option"
  dt_last_error_code :: "rstring option"

definition dto_of :: "AgentAccount \<Rightarrow> AgentAccountDto" where
  "dto_of a = (let key = aa_auth_method a = ApiKey in
     \<lparr>dt_id = aa_id a, dt_provider_id = AgentProvider_as_str (aa_provider a),
      dt_provider_name = (if key \<and> aa_provider a = ClaudeCode then ''Claude'' else AgentProvider_label (aa_provider a)),
      dt_product_id = product_as_str (aa_product a), dt_display_name = aa_display_name a,
      dt_external_account_id = (if key then None else aa_external_account_id a),
      dt_external_workspace_id = (if key then None else aa_external_workspace_id a),
      dt_auth_method = aa_auth_method a, dt_custody_mode = aa_custody_mode a, dt_status = aa_status a,
      dt_expires_at = aa_expires_at a, dt_last_checked_at = aa_last_checked_at a,
      dt_last_error_code = aa_last_error_code a\<rparr>)"

definition get_account :: "account_env \<Rightarrow> rstring \<Rightarrow> 'k agent_world \<Rightarrow> (AgentAccountDto option, 'k) svc" where
  "get_account E i W = (case get_agent_account E i (gw_db W) of
      Inl _ \<Rightarrow> (Inl metadata_error, W)
    | Inr None \<Rightarrow> (Inr None, W)
    | Inr (Some a) \<Rightarrow> (case project_expiry E a W of (b, W1) \<Rightarrow> (Inr (Some (dto_of b)), W1)))"

fun project_all :: "account_env \<Rightarrow> AgentAccount list \<Rightarrow> 'k agent_world \<Rightarrow> AgentAccountDto list \<times> 'k agent_world" where
  "project_all E [] W = ([], W)"
| "project_all E (a # as) W = (case project_expiry E a W of
      (b, W1) \<Rightarrow> (case project_all E as W1 of (ds, W2) \<Rightarrow> (dto_of b # ds, W2)))"

definition list_accounts :: "account_env \<Rightarrow> 'k agent_world \<Rightarrow> (AgentAccountDto list, 'k) svc" where
  "list_accounts E W = apfst Inr (project_all E (list_agent_accounts E (gw_db W)) W)"

text \<open>\<^verbatim>\<open>get_account\<close> at the end of an operation, for an account that must be there.\<close>

definition reloaded :: "account_env \<Rightarrow> rstring \<Rightarrow> 'k agent_world \<Rightarrow> (AgentAccountDto, 'k) svc" where
  "reloaded E i W = (case get_account E i W of
      (Inl e, W1) \<Rightarrow> (Inl e, W1)
    | (Inr None, W1) \<Rightarrow> (Inl account_not_found, W1)
    | (Inr (Some d), W1) \<Rightarrow> (Inr d, W1))"

section \<open>Credentials a migration left behind\<close>

definition drain_credential_cleanup :: "'k agent_store \<Rightarrow> rstring \<Rightarrow> 'k agent_world \<Rightarrow> (unit, 'k) svc" where
  "drain_credential_cleanup S i W = (case get_agent_account_credential_cleanup i (gw_db W) of
      None \<Rightarrow> (Inr (), W)
    | Some c \<Rightarrow>
        if cl_owner c \<noteq> ''legacy_agent_account_migration''
        then (Inl (command_error ''credential_cleanup_owner_unknown''
          ''The migrated credential has no registered cleanup owner.'' True), W)
        else (case cred_delete S (cl_credential_ref c) (gw_keys W) of
            (r, k) \<Rightarrow>
              if r = Inr () \<or> r = Inl CrMissing
              then (Inr (), W\<lparr>gw_keys := k, gw_db := delete_agent_account_credential_cleanup i (gw_db W)\<rparr>)
              else (map_sum credential_command_error id r, W\<lparr>gw_keys := k\<rparr>)))"

end
