(* ===== verification/Account_Service.thy ===== *)
theory Account_Service
  imports Accounts
begin

text \<open>
  The operations of \<^verbatim>\<open>agent_accounts/service.rs\<close> that connect, refresh and disconnect an account, and
  \<^verbatim>\<open>agent_accounts/resolver.rs\<close>, which hands the credential of an account to a runtime.
\<close>

definition svc_bind :: "('a, 'k) svc \<Rightarrow> ('a \<Rightarrow> 'k agent_world \<Rightarrow> ('b, 'k) svc) \<Rightarrow> ('b, 'k) svc" where
  "svc_bind r f = (case r of (Inl e, W) \<Rightarrow> (Inl e, W) | (Inr x, W) \<Rightarrow> f x W)"

text \<open>Replacing the secret under a reference; \<open>Some e\<close> is its failure.\<close>

definition put_secret ::
  "'k agent_store \<Rightarrow> rstring \<Rightarrow> AgentCredentialEnvelope \<Rightarrow> 'k agent_world
     \<Rightarrow> (AgentCredentialStoreError + unit) \<times> 'k agent_world" where
  "put_secret S r c W = (case cred_put S r c (gw_keys W) of (x, k) \<Rightarrow> (x, W\<lparr>gw_keys := k\<rparr>))"

definition delete_secret ::
  "'k agent_store \<Rightarrow> rstring \<Rightarrow> 'k agent_world \<Rightarrow> (AgentCredentialStoreError + unit) \<times> 'k agent_world" where
  "delete_secret S r W = (case cred_delete S r (gw_keys W) of
      (x, k) \<Rightarrow> (if x = Inl CrMissing then Inr () else x, W\<lparr>gw_keys := k\<rparr>))"

section \<open>Authorizations\<close>

record AuthorizationStartedDto =
  sd_attempt_id :: rstring
  sd_provider_id :: rstring
  sd_product_id :: rstring
  sd_authorization_url :: "rstring option"
  sd_user_code :: "rstring option"
  sd_expires_at :: rstring

definition provider_not_found :: AgentAccountCommandError where
  "provider_not_found = command_error ''provider_not_found'' ''The native agent provider is unknown.'' False"

text \<open>The route that a caller names: provider, product and what is registered for it.\<close>

definition named_route ::
  "providers \<Rightarrow> rstring \<Rightarrow> rstring
     \<Rightarrow> AgentAccountCommandError + AgentProductId \<times> AgentProviderRegistration \<times> AgentAccountProvider option" where
  "named_route P provider_id product_id = (case AgentProvider_from_str provider_id of
      None \<Rightarrow> Inl provider_not_found
    | Some p \<Rightarrow> (case product_from_str product_id of
        None \<Rightarrow> Inl product_not_found
      | Some q \<Rightarrow> (case registered_provider q P of
          Inl e \<Rightarrow> Inl e
        | Inr (r, h) \<Rightarrow>
            if product_provider q \<noteq> p
            then Inl (command_error ''provider_mismatch'' ''The product is not registered for this provider.'' False)
            else Inr (q, r, h))))"

definition start_authorization ::
  "account_env \<Rightarrow> providers \<Rightarrow> rstring \<Rightarrow> rstring \<Rightarrow> rstring \<Rightarrow> AgentHarness \<Rightarrow> 'k agent_world
     \<Rightarrow> (AuthorizationStartedDto, 'k) svc" where
  "start_authorization E P fresh provider_id product_id harness W =
     (case named_route P provider_id product_id of
        Inl e \<Rightarrow> (Inl e, W)
      | Inr (q, r, handler) \<Rightarrow>
        if harness \<noteq> pr_harness r
        then (Inl (command_error ''provider_mismatch'' ''The provider is not registered for this harness.'' False), W)
        else (case pr_gate_code r of
          Some code \<Rightarrow> (Inl (command_error code
            ''Native authorization for this provider is not available in this build.'' False), W)
        | None \<Rightarrow> (case handler of
            None \<Rightarrow> (Inl (command_error ''native_provider_not_available''
              ''Native authorization for this provider is not available in this build.'' False), W)
          | Some h \<Rightarrow> (case ap_start h of
              Inl e \<Rightarrow> (Inl (provider_command_error e), W)
            | Inr started \<Rightarrow>
                (case auth_insert fresh (ae_instant E) (product_provider q) q harness (pr_auth_method r)
                        (ps_ttl started) (ps_context started) (gw_auth W) of
                   (Inl e, R) \<Rightarrow> (Inl (registry_command_error e), W\<lparr>gw_auth := R\<rparr>)
                 | (Inr (i, expires), R) \<Rightarrow>
                     (Inr \<lparr>sd_attempt_id = i, sd_provider_id = AgentProvider_as_str (product_provider q),
                        sd_product_id = product_as_str q, sd_authorization_url = ps_authorization_url started,
                        sd_user_code = ps_user_code started, sd_expires_at = to_rfc3339 (ae_chrono E) expires\<rparr>,
                      W\<lparr>gw_auth := R\<rparr>))))))"

text \<open>\<^verbatim>\<open>complete_authorization\<close> up to the call of the handler: the attempt is spent.\<close>

definition spend_attempt ::
  "account_env \<Rightarrow> providers \<Rightarrow> rstring \<Rightarrow> rstring \<Rightarrow> rstring \<Rightarrow> AgentHarness \<Rightarrow> rstring option \<Rightarrow> 'k agent_world
     \<Rightarrow> (AgentProductId \<times> AgentProviderRegistration \<times> AgentAccountProvider \<times> AuthorizationAttempt, 'k) svc" where
  "spend_attempt E P attempt_id provider_id product_id harness state W =
     (case named_route P provider_id product_id of
        Inl e \<Rightarrow> (Inl e, W)
      | Inr (q, r, None) \<Rightarrow> (Inl (command_error ''native_provider_not_available''
          ''This provider cannot complete authorization.'' False), W)
      | Inr (q, r, Some h) \<Rightarrow>
          (case auth_take attempt_id (ae_instant E) (product_provider q) q harness state (gw_auth W) of
             (Inl e, R) \<Rightarrow> (Inl (registry_command_error e), W\<lparr>gw_auth := R\<rparr>)
           | (Inr a, R) \<Rightarrow> (Inr (q, r, h, a), W\<lparr>gw_auth := R\<rparr>)))"

text \<open>From the answer of the handler to the pending row.\<close>

definition accept_grant ::
  "account_env \<Rightarrow> rstring \<Rightarrow> rstring \<Rightarrow> AgentHarness \<Rightarrow> AgentProductId \<Rightarrow> AgentProviderRegistration
     \<Rightarrow> AgentProviderError + ProviderAccountGrant \<Rightarrow> 'k agent_world
     \<Rightarrow> (AgentAccount \<times> AgentCredentialEnvelope option \<times> rstring option, 'k) svc" where
  "accept_grant E fresh attempt_id harness q r completion W0 =
     (let W = W0\<lparr>gw_auth := auth_finish attempt_id (gw_auth W0)\<rparr> in
      case completion of
        Inl e \<Rightarrow> (Inl (provider_command_error e), W)
      | Inr grant \<Rightarrow>
        let z = pg_account grant; x = pg_access grant in
        if az_provider z \<noteq> product_provider q \<or> az_product z \<noteq> q \<or> az_harness z \<noteq> harness
           \<or> az_auth_method z \<noteq> pr_auth_method r \<or> az_custody_mode z \<noteq> pr_custody_mode r
        then (Inl (command_error ''provider_mismatch''
          ''The provider returned account data for a different registration.'' False), W)
        else (case validate_provider_access q (pr_custody_mode r) x of
          Some e \<Rightarrow> (Inl e, W)
        | None \<Rightarrow>
          let z1 = z\<lparr>az_runtime_profile_ref := pa_runtime_profile_ref x\<rparr>;
              expires = (case Option.bind (pa_credential x) ce_expires_at of Some t \<Rightarrow> Some t | None \<Rightarrow> az_expires_at z1)
          in (case prepare_agent_account E fresh z1 (gw_db W) of
              (Inl _, s) \<Rightarrow> (Inl metadata_error, W\<lparr>gw_db := s\<rparr>)
            | (Inr a, s) \<Rightarrow> (Inr (a, pa_credential x, expires), W\<lparr>gw_db := s\<rparr>))))"

text \<open>From the pending row to the connected account.\<close>

definition store_grant ::
  "account_env \<Rightarrow> 'k agent_store \<Rightarrow> AgentAccount \<times> AgentCredentialEnvelope option \<times> rstring option \<Rightarrow> 'k agent_world
     \<Rightarrow> (AgentAccountDto, 'k) svc" where
  "store_grant E S g W =
     (case g of (a, credential, expires) \<Rightarrow>
      svc_bind
        (case credential of
           None \<Rightarrow> (Inr (), W)
         | Some c \<Rightarrow> (case required_credential_ref a of
             Inl e \<Rightarrow> (Inl e, W)
           | Inr r \<Rightarrow> (case put_secret S r c W of
               (Inr _, W1) \<Rightarrow> (Inr (), W1)
             | (Inl e, W1) \<Rightarrow> fail_quietly E (aa_id a) AccError (aa_expires_at a) (credential_error_code e)
                 (credential_command_error e) W1)))
        (\<lambda>_ W1. case drain_credential_cleanup S (aa_id a) W1 of
           (Inl e, W2) \<Rightarrow> fail_quietly E (aa_id a) AccError (aa_expires_at a) (ce_code e) e W2
         | (Inr _, W2) \<Rightarrow> svc_bind (set_state E (aa_id a) AccConnected expires None W2)
             (\<lambda>_ W3. case get_agent_account E (aa_id a) (gw_db W3) of
                Inr (Some b) \<Rightarrow> (Inr (dto_of b), W3)
              | _ \<Rightarrow> (Inl metadata_error, W3))))"

definition complete_authorization ::
  "account_env \<Rightarrow> 'k agent_store \<Rightarrow> providers \<Rightarrow> rstring \<Rightarrow> rstring \<Rightarrow> rstring \<Rightarrow> rstring \<Rightarrow> AgentHarness \<Rightarrow> rstring option
     \<Rightarrow> 'k agent_world \<Rightarrow> (AgentAccountDto, 'k) svc" where
  "complete_authorization E S P fresh attempt_id provider_id product_id harness state W =
     svc_bind (spend_attempt E P attempt_id provider_id product_id harness state W)
       (\<lambda>(q, r, h, a) W1. svc_bind (accept_grant E fresh attempt_id harness q r (ap_complete h a) W1) (store_grant E S))"

definition cancel_authorization :: "rstring \<Rightarrow> 'k agent_world \<Rightarrow> (unit, 'k) svc" where
  "cancel_authorization attempt_id W = (case auth_cancel attempt_id (gw_auth W) of
      (r, R) \<Rightarrow> (map_sum registry_command_error id r, W\<lparr>gw_auth := R\<rparr>))"

section \<open>Refresh\<close>

text \<open>\<^verbatim>\<open>record_provider_failure\<close> and the error that follows it.\<close>

fun provider_failure_status :: "AgentProviderFailureKind \<Rightarrow> AgentAccountStatus" where
  "provider_failure_status TerminalRevoked = AccRevoked"
| "provider_failure_status Retryable = AccError"
| "provider_failure_status PolicyDenied = AccError"
| "provider_failure_status UnsupportedAuthMode = AccError"

definition live_account :: "account_env \<Rightarrow> rstring \<Rightarrow> 'k agent_world \<Rightarrow> (AgentAccount, 'k) svc" where
  "live_account E i W = (case get_agent_account E i (gw_db W) of
      Inl _ \<Rightarrow> (Inl metadata_error, W)
    | Inr None \<Rightarrow> (Inl account_not_found, W)
    | Inr (Some a) \<Rightarrow> (Inr a, W))"

text \<open>The access a refresh returned, stored before the account is connected again.\<close>

definition store_refreshed ::
  "account_env \<Rightarrow> 'k agent_store \<Rightarrow> AgentAccount \<Rightarrow> CredentialCustodyMode \<Rightarrow> ProviderAccountAccess \<Rightarrow> 'k agent_world
     \<Rightarrow> (AgentAccountDto, 'k) svc" where
  "store_refreshed E S a mode x W =
     (case validate_provider_access (aa_product a) mode x of
        Some e \<Rightarrow> (Inl e, W)
      | None \<Rightarrow>
        if pa_runtime_profile_ref x \<noteq> aa_runtime_profile_ref a
        then (Inl (command_error ''runtime_profile_mismatch''
          ''The managed runtime returned a different account profile.'' False), W)
        else
          let expires = (case Option.bind (pa_credential x) ce_expires_at of Some t \<Rightarrow> Some t | None \<Rightarrow> aa_expires_at a) in
          svc_bind
            (case pa_credential x of
               None \<Rightarrow> (Inr (), W)
             | Some c \<Rightarrow> (case required_credential_ref a of
                 Inl e \<Rightarrow> (Inl e, W)
               | Inr r \<Rightarrow> (case put_secret S r c W of
                   (Inr _, W1) \<Rightarrow> (Inr (), W1)
                 | (Inl e, W1) \<Rightarrow> fail_with E (aa_id a) AccError (aa_expires_at a) (credential_error_code e)
                     (credential_command_error e) W1)))
            (\<lambda>_ W1. svc_bind (set_state E (aa_id a) AccConnected expires None W1)
               (\<lambda>_. reloaded E (aa_id a))))"

definition refresh_account ::
  "account_env \<Rightarrow> 'k agent_store \<Rightarrow> providers \<Rightarrow> rstring \<Rightarrow> 'k agent_world \<Rightarrow> (AgentAccountDto, 'k) svc" where
  "refresh_account E S P i W = svc_bind (live_account E i W) (\<lambda>a W.
     if aa_status a \<in> {AccRevoked, DisconnectPending}
     then (Inl (command_error ''account_not_refreshable''
       ''This account must finish disconnecting or reconnect.'' False), W)
     else (case registered_provider (aa_product a) P of
        Inl e \<Rightarrow> (Inl e, W)
      | Inr (r, None) \<Rightarrow> fail_with E (aa_id a) AccError (aa_expires_at a) ''unsupported_auth_mode''
          (command_error ''unsupported_auth_mode''
             ''This build cannot refresh the account's authorization method.'' False) W
      | Inr (r, Some h) \<Rightarrow> (case read_access S a W of
          Inl e \<Rightarrow> (Inl e, W)
        | Inr x \<Rightarrow> (case ap_refresh h a x of
            Inl e \<Rightarrow> fail_with E (aa_id a) (provider_failure_status (pe_kind e)) (aa_expires_at a) (pe_code e)
              (provider_command_error e) W
          | Inr y \<Rightarrow> store_refreshed E S a (pr_custody_mode r) y W))))"

section \<open>API keys\<close>

definition graphic :: "char \<Rightarrow> bool" where
  "graphic c = (let b = (of_char c :: nat) in 33 \<le> b \<and> b \<le> 126)"

definition valid_native_api_key :: "AgentProductId \<Rightarrow> rstring \<Rightarrow> bool" where
  "valid_native_api_key q key =
     (let bounded = length key \<le> 512 \<and> trim key = key in
      case q of
        ClaudeApi \<Rightarrow> bounded \<and> prefix ''sk-ant-'' key \<and> 7 < length key \<and> list_all graphic key
      | GeminiApi \<Rightarrow> bounded \<and> 20 \<le> length key
          \<and> list_all (\<lambda>c. ascii_alphanumeric c \<or> c \<in> set ''_-.'') key
      | GrokApi \<Rightarrow> bounded \<and> 20 \<le> length key \<and> prefix ''xai-'' key \<and> \<not> list_ex is_ws (uchars key)
      | OpencodeZen \<Rightarrow> bounded \<and> 16 \<le> length key \<and> list_all graphic key
      | _ \<Rightarrow> False)"

definition api_key_fingerprint :: "account_env \<Rightarrow> AgentProductId \<Rightarrow> rstring \<Rightarrow> rstring" where
  "api_key_fingerprint E q key = ae_digest E (product_as_str q @ [CHR 0x00] @ key)"

definition api_key_metadata :: "account_env \<Rightarrow> AgentProductId \<Rightarrow> rstring \<Rightarrow> AuthorizedAgentAccount" where
  "api_key_metadata E q key = (let fingerprint = api_key_fingerprint E q key in
     \<lparr>az_provider = product_provider q, az_product = q, az_harness = Alfred, az_display_name = Some ''API key'',
      az_external_account_id = ''api-key-sha256:'' @ fingerprint, az_external_workspace_id = None,
      az_auth_method = ApiKey, az_custody_mode = AlfredManaged, az_managed_runtime_id = managed_runtime q,
      az_managed_runtime_version = managed_runtime_version q,
      az_runtime_profile_ref = map_option (\<lambda>_. ''managed-api-profile:'' @ product_as_str q @ '':'' @ fingerprint)
        (managed_runtime q),
      az_scopes = [], az_billing_source = billing_source q, az_billing_owner = billing_owner q,
      az_entitlement_state = EntUnknown, az_entitlement_source = ''not_observed'',
      az_entitlement_observed_at = None, az_expires_at = None\<rparr>)"

definition copy_api_key_metadata :: "AuthorizedAgentAccount \<Rightarrow> AuthorizedAgentAccount" where
  "copy_api_key_metadata z = z\<lparr>az_external_workspace_id := None, az_scopes := [], az_expires_at := None\<rparr>"

text \<open>The row that a key is for, before its lock is taken, and whether it is new.\<close>

definition api_key_account ::
  "account_env \<Rightarrow> rstring \<Rightarrow> AgentProductId \<Rightarrow> rstring option \<Rightarrow> AuthorizedAgentAccount \<Rightarrow> 'k agent_world
     \<Rightarrow> (AgentAccount \<times> bool, 'k) svc" where
  "api_key_account E fresh q account_id z W =
     (case (case account_id of
              Some i \<Rightarrow> get_agent_account E i (gw_db W)
            | None \<Rightarrow> get_agent_account_by_identity E (az_provider z) q Alfred (identity_key (ae_digest E) z) (gw_db W)) of
        Inl _ \<Rightarrow> (Inl metadata_error, W)
      | Inr (Some a) \<Rightarrow>
          if aa_provider a \<noteq> az_provider z \<or> aa_product a \<noteq> q \<or> aa_harness a \<noteq> Alfred
             \<or> aa_auth_method a \<noteq> ApiKey \<or> aa_custody_mode a \<noteq> AlfredManaged
          then (Inl (command_error ''provider_mismatch''
            ''That account cannot be reconnected with this provider credential.'' False), W)
          else (Inr (a, False), W)
      | Inr None \<Rightarrow>
          if account_id \<noteq> None then (Inl account_not_found, W)
          else (case prepare_agent_account E fresh (copy_api_key_metadata z) (gw_db W) of
              (Inl _, s) \<Rightarrow> (Inl metadata_error, W\<lparr>gw_db := s\<rparr>)
            | (Inr a, s) \<Rightarrow> (Inr (a, True), W\<lparr>gw_db := s\<rparr>)))"

definition rollback_failed :: AgentAccountCommandError where
  "rollback_failed = command_error ''credential_rollback_failed''
     ''The previous native-agent credential could not be restored.'' True"

definition rollback_api_key_credential ::
  "'k agent_store \<Rightarrow> rstring \<Rightarrow> AgentCredentialEnvelope option \<Rightarrow> 'k agent_world \<Rightarrow> (unit, 'k) svc" where
  "rollback_api_key_credential S r previous W =
     (case (case previous of Some c \<Rightarrow> put_secret S r c W | None \<Rightarrow> delete_secret S r W) of
        (x, W1) \<Rightarrow> (map_sum (\<lambda>_. rollback_failed) id x, W1))"

text \<open>What follows a failed write: the previous credential returns, a new row goes.\<close>

definition undo_api_key ::
  "account_env \<Rightarrow> 'k agent_store \<Rightarrow> rstring \<Rightarrow> rstring \<Rightarrow> AgentCredentialEnvelope option \<Rightarrow> bool
     \<Rightarrow> AgentAccountCommandError \<Rightarrow> 'k agent_world \<Rightarrow> ('a, 'k) svc" where
  "undo_api_key E S i r previous is_new original W =
     (case rollback_api_key_credential S r previous W of
        (Inl e, W1) \<Rightarrow> fail_quietly E i AccError None ''credential_rollback_failed'' e W1
      | (Inr _, W1) \<Rightarrow>
          if is_new
          then (case delete_agent_account_metadata i (gw_db W1) of
              (Inl _, s) \<Rightarrow> (Inl metadata_error, W1\<lparr>gw_db := s\<rparr>)
            | (Inr _, s) \<Rightarrow> (Inl original, W1\<lparr>gw_db := s\<rparr>))
          else (Inl original, W1))"

text \<open>The credential to go back to: none for a new row or for one that cannot be read.\<close>

definition previous_credential ::
  "'k agent_store \<Rightarrow> bool \<Rightarrow> rstring \<Rightarrow> 'k agent_world
     \<Rightarrow> AgentAccountCommandError + AgentCredentialEnvelope option" where
  "previous_credential S is_new r W =
     (if is_new then Inr None
      else (case cred_get S r (gw_keys W) of
          Inr c \<Rightarrow> Inr (Some c)
        | Inl e \<Rightarrow> if e = CrMissing \<or> e = CrInvalid then Inr None else Inl (credential_command_error e)))"

text \<open>The part of \<^verbatim>\<open>connect_api_key_account\<close> under the lock of the account.\<close>

definition store_api_key ::
  "account_env \<Rightarrow> 'k agent_store \<Rightarrow> rstring \<Rightarrow> AuthorizedAgentAccount \<Rightarrow> AgentAccount \<times> bool \<Rightarrow> 'k agent_world
     \<Rightarrow> (AgentAccountDto, 'k) svc" where
  "store_api_key E S key z g W0 = svc_bind (live_account E (aa_id (fst g)) W0) (\<lambda>a W.
     let i = aa_id a; is_new = (snd g \<and> aa_status a \<noteq> AccConnected) in
     (case required_credential_ref a of
        Inl e \<Rightarrow> (Inl e, W)
      | Inr r \<Rightarrow> (case previous_credential S is_new r W of
          Inl e \<Rightarrow> (Inl e, W)
        | Inr previous \<Rightarrow>
          (case put_secret S r (alfred_managed key) W of
            (Inl e, W1) \<Rightarrow> undo_api_key E S i r previous is_new (credential_command_error e) W1
          | (Inr _, W1) \<Rightarrow> (case finalize_api_key_agent_account E i z (gw_db W1) of
              (Inl _, s) \<Rightarrow> undo_api_key E S i r previous is_new metadata_error (W1\<lparr>gw_db := s\<rparr>)
            | (Inr _, s) \<Rightarrow> (case drain_credential_cleanup S i (W1\<lparr>gw_db := s\<rparr>) of
                (Inl e, W2) \<Rightarrow> fail_quietly E i AccError None (ce_code e) e W2
              | (Inr _, W2) \<Rightarrow> reloaded E i W2))))))"

definition connect_api_key_account ::
  "account_env \<Rightarrow> 'k agent_store \<Rightarrow> rstring \<Rightarrow> AgentProvider \<Rightarrow> AgentProductId \<Rightarrow> rstring option \<Rightarrow> rstring
     \<Rightarrow> 'k agent_world \<Rightarrow> (AgentAccountDto, 'k) svc" where
  "connect_api_key_account E S fresh p q account_id key W =
     (if product_provider q \<noteq> p \<or> product_auth_method q \<noteq> ApiKey \<or> custody_mode q \<noteq> AlfredManaged
      then (Inl (command_error ''provider_mismatch'' ''That API product is not registered for this provider.'' False), W)
      else if \<not> valid_native_api_key q key
      then (Inl (command_error ''api_key_invalid'' ''Use a valid API key for this native provider.'' False), W)
      else let z = api_key_metadata E q key in
        svc_bind (api_key_account E fresh q account_id z W) (store_api_key E S key z))"

definition persist_runtime_managed_account ::
  "account_env \<Rightarrow> rstring \<Rightarrow> AuthorizedAgentAccount \<Rightarrow> 'k agent_world \<Rightarrow> (AgentAccountDto, 'k) svc" where
  "persist_runtime_managed_account E i z W =
     (if requires_credential (az_product z) \<or> az_custody_mode z \<noteq> RuntimeManaged \<or> az_runtime_profile_ref z = None
      then (Inl account_access_mismatch, W)
      else (case upsert_runtime_managed_account E i z (gw_db W) of
          (Inl _, s) \<Rightarrow> (Inl metadata_error, W\<lparr>gw_db := s\<rparr>)
        | (Inr a, s) \<Rightarrow> svc_bind (set_state E (aa_id a) AccConnected (aa_expires_at a) None (W\<lparr>gw_db := s\<rparr>))
            (\<lambda>_. reloaded E (aa_id a))))"

section \<open>Disconnecting\<close>

definition delete_metadata :: "AgentAccountCommandError \<Rightarrow> rstring \<Rightarrow> 'k agent_world \<Rightarrow> (unit, 'k) svc" where
  "delete_metadata e i W = (case delete_agent_account_metadata i (gw_db W) of
      (r, s) \<Rightarrow> (map_sum (\<lambda>_. e) id r, W\<lparr>gw_db := s\<rparr>))"

definition logout_required :: AgentAccountCommandError where
  "logout_required = command_error ''managed_runtime_logout_required''
     ''This managed runtime account must log out before its profile can be removed.'' True"

text \<open>\<^verbatim>\<open>metadata_only\<close>: the secret goes first, for only its row leads to it.\<close>

definition forget_account ::
  "account_env \<Rightarrow> 'k agent_store \<Rightarrow> AgentAccount \<Rightarrow> 'k agent_world \<Rightarrow> (unit, 'k) svc" where
  "forget_account E S a W =
     (if is_managed_subscription (aa_product a) \<and> aa_runtime_profile_ref a \<noteq> None
      then fail_quietly E (aa_id a) DisconnectPending (aa_expires_at a) ''managed_runtime_logout_required''
        logout_required W
      else svc_bind
        (case aa_credential_ref a of
           None \<Rightarrow> (Inr (), W)
         | Some r \<Rightarrow> (case delete_secret S r W of
             (Inr _, W1) \<Rightarrow> (Inr (), W1)
           | (Inl e, W1) \<Rightarrow> fail_quietly E (aa_id a) DisconnectPending (aa_expires_at a) (credential_error_code e)
               (credential_command_error e) W1))
        (\<lambda>_. delete_metadata metadata_error (aa_id a)))"

text \<open>The provider is asked to revoke the access, unless the key is one that its console revokes.\<close>

definition revoke_access ::
  "account_env \<Rightarrow> providers \<Rightarrow> AgentAccount \<Rightarrow> ProviderAccountAccess option \<Rightarrow> 'k agent_world \<Rightarrow> (unit, 'k) svc" where
  "revoke_access E P a access W =
     (case access of
        None \<Rightarrow> (Inr (), W)
      | Some x \<Rightarrow>
        if uses_alfred_managed_api_key (aa_product a) then (Inr (), W)
        else (case registered_provider (aa_product a) P of
            Inl e \<Rightarrow> (Inl e, W)
          | Inr (r, None) \<Rightarrow> fail_with E (aa_id a) DisconnectPending (aa_expires_at a) ''unsupported_auth_mode''
              (command_error ''unsupported_auth_mode'' ''This build cannot revoke the provider credential. Retry with provider support or remove local metadata after revoking it yourself.'' True) W
          | Inr (r, Some h) \<Rightarrow> (case ap_revoke h a x of
              Inl e \<Rightarrow>
                if pe_kind e = TerminalRevoked then (Inr (), W)
                else fail_with E (aa_id a) DisconnectPending (aa_expires_at a) (pe_code e) (provider_command_error e) W
            | Inr _ \<Rightarrow> (Inr (), W))))"

definition metadata_delete_failed :: AgentAccountCommandError where
  "metadata_delete_failed = command_error ''metadata_delete_failed''
     ''The credential was removed, but local account metadata remains revoked. Retry disconnecting.'' True"

definition remove_account ::
  "account_env \<Rightarrow> 'k agent_store \<Rightarrow> AgentAccount \<Rightarrow> 'k agent_world \<Rightarrow> (unit, 'k) svc" where
  "remove_account E S a W =
     svc_bind (set_state E (aa_id a) AccRevoked (aa_expires_at a) None W) (\<lambda>_ W1.
       svc_bind
         (case aa_credential_ref a of
            None \<Rightarrow> (Inr (), W1)
          | Some r \<Rightarrow> (case delete_secret S r W1 of
              (Inr _, W2) \<Rightarrow> (Inr (), W2)
            | (Inl e, W2) \<Rightarrow> fail_with E (aa_id a) DisconnectPending (aa_expires_at a) (credential_error_code e)
                (credential_command_error e) W2))
         (\<lambda>_. delete_metadata metadata_delete_failed (aa_id a)))"

definition disconnect_account ::
  "account_env \<Rightarrow> 'k agent_store \<Rightarrow> providers \<Rightarrow> rstring \<Rightarrow> bool \<Rightarrow> 'k agent_world \<Rightarrow> (unit, 'k) svc" where
  "disconnect_account E S P i metadata_only W0 = svc_bind (live_account E i W0) (\<lambda>a W.
     case drain_credential_cleanup S i W of
       (Inl e, W1) \<Rightarrow> fail_quietly E i DisconnectPending (aa_expires_at a) (ce_code e) e W1
     | (Inr _, W1) \<Rightarrow>
       if metadata_only then forget_account E S a W1
       else (case (case read_access S a W1 of
                Inr x \<Rightarrow> Inr (Some x)
              | Inl e \<Rightarrow> if ce_code e = ''credential_missing'' then Inr None else Inl e) of
            Inl e \<Rightarrow> fail_quietly E i DisconnectPending (aa_expires_at a) (ce_code e) e W1
          | Inr access \<Rightarrow> svc_bind (revoke_access E P a access W1) (\<lambda>_. remove_account E S a)))"

section \<open>The resolver\<close>

datatype NativeErrorCode = AccountUnavailable | AccountMismatch

record NativeRuntimeError =
  ne_code :: NativeErrorCode
  ne_message :: rstring
  ne_retryable :: bool

definition native_error :: "NativeErrorCode \<Rightarrow> rstring \<Rightarrow> bool \<Rightarrow> NativeRuntimeError" where
  "native_error c m b = \<lparr>ne_code = c, ne_message = m, ne_retryable = b\<rparr>"

record NativeAgentCredential =
  nc_envelope :: "AgentCredentialEnvelope option"
  nc_custody_mode :: CredentialCustodyMode
  nc_managed_runtime_id :: "ManagedRuntimeId option"
  nc_managed_runtime_version :: "rstring option"
  nc_runtime_profile_ref :: "rstring option"

record ResolvedNativeAccount =
  ra_account_ref :: rstring
  ra_provider :: AgentProvider
  ra_product :: AgentProductId
  ra_credential :: NativeAgentCredential

definition nc_access_token :: "NativeAgentCredential \<Rightarrow> rstring option" where
  "nc_access_token c = Option.bind (nc_envelope c) ce_access_token"

fun resolver_credential_error :: "AgentCredentialStoreError \<Rightarrow> NativeRuntimeError" where
  "resolver_credential_error CrMissing = native_error AccountUnavailable
     ''native account credential is missing; reconnect the account'' False"
| "resolver_credential_error CrLocked = native_error AccountUnavailable ''system credential store is locked'' True"
| "resolver_credential_error CrInvalid = native_error AccountUnavailable
     ''native account credential is invalid; reconnect the account'' False"
| "resolver_credential_error CrFailed = native_error AccountUnavailable
     ''native account credential could not be read'' True"

definition resolve ::
  "account_env \<Rightarrow> 'k agent_store \<Rightarrow> rstring \<Rightarrow> AgentProvider \<Rightarrow> AgentProductId \<Rightarrow> 'k agent_world
     \<Rightarrow> NativeRuntimeError + ResolvedNativeAccount" where
  "resolve E S i p q W =
     (case get_agent_account E i (gw_db W) of
        Inl _ \<Rightarrow> Inl (native_error AccountUnavailable ''native account metadata could not be read'' True)
      | Inr None \<Rightarrow> Inl (native_error AccountUnavailable ''native account no longer exists'' False)
      | Inr (Some a) \<Rightarrow>
        if aa_provider a \<noteq> p \<or> aa_product a \<noteq> q
        then Inl (native_error AccountMismatch ''native account belongs to a different provider product'' False)
        else if aa_harness a \<noteq> Alfred
        then Inl (native_error AccountMismatch ''native account is not registered for the Alfred harness'' False)
        else if aa_status a \<noteq> AccConnected
        then Inl (native_error AccountUnavailable ''native account is not connected'' False)
        else if is_past_expiry E (aa_expires_at a)
        then Inl (native_error AccountUnavailable ''native account credential expired; refresh or reconnect it'' False)
        else (case (case aa_credential_ref a of
                None \<Rightarrow> Inr None
              | Some r \<Rightarrow> map_sum resolver_credential_error Some (cred_get S r (gw_keys W))) of
            Inl e \<Rightarrow> Inl e
          | Inr c \<Rightarrow> Inr \<lparr>ra_account_ref = i, ra_provider = p, ra_product = aa_product a,
              ra_credential = \<lparr>nc_envelope = c, nc_custody_mode = aa_custody_mode a,
                nc_managed_runtime_id = aa_managed_runtime_id a,
                nc_managed_runtime_version = aa_managed_runtime_version a,
                nc_runtime_profile_ref = aa_runtime_profile_ref a\<rparr>\<rparr>))"

end
