(* ===== verification/Account_Steps.thy ===== *)
theory Account_Steps
  imports Account_Service
begin

text \<open>
  What every sequence of account operations keeps: the rows stay well formed, a connected account has
  a credential that can be read, and no secret is left in the keyring without a row that leads to it.
  The operations are built from a few writes; each write has one lemma on the invariant \<open>books\<close>, and
  the lemma of an operation composes them.
\<close>

section \<open>The invariant\<close>

definition rows_ok :: "accounts \<Rightarrow> bool" where
  "rows_ok s = (list_all account_check (agent_accounts s) \<and> sorted_wrt apart (agent_accounts s)
     \<and> distinct (map cl_account (credential_cleanup s)))"

definition cleanup_apart :: "accounts \<Rightarrow> bool" where
  "cleanup_apart s = (\<forall>a \<in> set (agent_accounts s). \<forall>c \<in> set (credential_cleanup s).
     aa_credential_ref a \<noteq> Some (cl_credential_ref c))"

text \<open>The references that a row or a pending cleanup leads to.\<close>

definition accounted :: "accounts \<Rightarrow> rstring set" where
  "accounted s = {r. \<exists>a \<in> set (agent_accounts s). aa_credential_ref a = Some r}
     \<union> cl_credential_ref ` set (credential_cleanup s)"

definition stranded :: "'k agent_store \<Rightarrow> 'k agent_world \<Rightarrow> rstring set" where
  "stranded S W = {r. cred_get S r (gw_keys W) \<noteq> Inl CrMissing \<and> r \<notin> accounted (gw_db W)}"

definition readable :: "'k agent_store \<Rightarrow> 'k agent_world \<Rightarrow> rstring option \<Rightarrow> bool" where
  "readable S W ref = (case ref of None \<Rightarrow> True | Some r \<Rightarrow> (\<exists>c. cred_get S r (gw_keys W) = Inr c))"

text \<open>Every connected account outside \<open>X\<close> has its credential; no secret outside \<open>B\<close> is stranded.\<close>

definition books :: "'k agent_store \<Rightarrow> rstring set \<Rightarrow> rstring set \<Rightarrow> 'k agent_world \<Rightarrow> bool" where
  "books S X B W = (rows_ok (gw_db W) \<and> cleanup_apart (gw_db W) \<and> stranded S W \<subseteq> B
     \<and> (\<forall>a \<in> set (agent_accounts (gw_db W)). aa_id a \<notin> X \<and> aa_status a = AccConnected
          \<longrightarrow> readable S W (aa_credential_ref a)))"

definition row_of :: "rstring \<Rightarrow> rstring option \<Rightarrow> 'k agent_world \<Rightarrow> bool" where
  "row_of i ref W = (\<exists>a \<in> set (agent_accounts (gw_db W)). aa_id a = i \<and> aa_credential_ref a = ref)"

lemma readable_db [simp]: "readable S (W\<lparr>gw_db := s\<rparr>) ref = readable S W ref"
  by (cases ref) (simp_all add: readable_def)

section \<open>Rows\<close>

lemma apart_sym: "apart a b \<Longrightarrow> apart b a"
  by (auto simp: apart_def)

lemma sorted_wrt_distinct_ids: "sorted_wrt apart rows \<Longrightarrow> distinct (map aa_id rows)"
  by (induction rows) (auto simp: apart_def)

lemma rows_ok_ids: "rows_ok s \<Longrightarrow> distinct (map aa_id (agent_accounts s))"
  using sorted_wrt_distinct_ids by (simp add: rows_ok_def)

lemma row_by_id:
  assumes "rows_ok s" "a \<in> set (agent_accounts s)" "b \<in> set (agent_accounts s)" "aa_id a = aa_id b"
  shows "a = b"
  using rows_ok_ids [OF assms(1)] assms(2-) by (meson distinct_map inj_onD)

lemma sorted_wrt_pairs:
  "sorted_wrt R xs \<Longrightarrow> a \<in> set xs \<Longrightarrow> b \<in> set xs \<Longrightarrow> a = b \<or> R a b \<or> R b a"
  by (induction xs) auto

lemma row_by_ref:
  assumes "rows_ok s" "a \<in> set (agent_accounts s)" "b \<in> set (agent_accounts s)"
    and "aa_credential_ref a = Some r" "aa_credential_ref b = Some r"
  shows "a = b"
  using sorted_wrt_pairs [of apart "agent_accounts s" a b] assms by (auto simp: rows_ok_def apart_def)

lemma find_row:
  assumes "rows_ok s"
  shows "find (\<lambda>a. aa_id a = i) (agent_accounts s) = Some a \<longleftrightarrow> a \<in> set (agent_accounts s) \<and> aa_id a = i"
proof
  show "find (\<lambda>a. aa_id a = i) (agent_accounts s) = Some a \<Longrightarrow> a \<in> set (agent_accounts s) \<and> aa_id a = i"
    by (auto simp: find_Some_iff)
next
  assume a: "a \<in> set (agent_accounts s) \<and> aa_id a = i"
  then obtain b where b: "find (\<lambda>a. aa_id a = i) (agent_accounts s) = Some b"
    by (cases "find (\<lambda>a. aa_id a = i) (agent_accounts s)") (auto simp: find_None_iff)
  then have "b \<in> set (agent_accounts s)" "aa_id b = i" by (auto simp: find_Some_iff)
  then show "find (\<lambda>a. aa_id a = i) (agent_accounts s) = Some a"
    using a b row_by_id [OF assms, of a b] by simp
qed

lemma update_account_ok:
  assumes "rows_ok s" and "update_account i f s = Inr (n, s')" and id: "\<And>a. aa_id (f a) = aa_id a"
  shows "rows_ok s'" and "credential_cleanup s' = credential_cleanup s"
    and "set (agent_accounts s') = f ` {a \<in> set (agent_accounts s). aa_id a = i}
      \<union> {a \<in> set (agent_accounts s). aa_id a \<noteq> i}"
proof -
  have *: "rows_ok s' \<and> credential_cleanup s' = credential_cleanup s
    \<and> set (agent_accounts s') = f ` {a \<in> set (agent_accounts s). aa_id a = i} \<union> {a \<in> set (agent_accounts s). aa_id a \<noteq> i}"
  proof (cases "find (\<lambda>a. aa_id a = i) (agent_accounts s)")
    case None
    then have "s' = s" using assms(2) by (simp add: update_account_def)
    moreover have "{a \<in> set (agent_accounts s). aa_id a = i} = {}" using None by (auto simp: find_None_iff)
    ultimately show ?thesis using assms(1) by auto
  next
    case (Some a)
    with assms(2) have u: "account_check (f a)" "list_all (apart (f a)) (filter (\<lambda>b. aa_id b \<noteq> i) (agent_accounts s))"
      "s' = s\<lparr>agent_accounts := update_where (\<lambda>b. aa_id b = i) f (agent_accounts s)\<rparr>"
      by (simp_all add: update_account_def split: if_splits)
    have only: "b = a" if "b \<in> set (agent_accounts s)" "aa_id b = i" for b
      using that Some find_row [OF assms(1), of i b] by simp
    have "sorted_wrt apart (update_where (\<lambda>b. aa_id b = i) f (agent_accounts s))"
      unfolding update_where_def sorted_wrt_map
    proof (rule sorted_wrt_mono_rel [where P = apart])
      fix x y assume x: "x \<in> set (agent_accounts s)" "y \<in> set (agent_accounts s)" "apart x y"
      then have ne: "aa_id x \<noteq> aa_id y" by (simp add: apart_def)
      show "apart (if aa_id x = i then f x else x) (if aa_id y = i then f y else y)"
        using x ne only [of x] only [of y] u(2) by (auto simp: list_all_iff intro: apart_sym)
    qed (use assms(1) in \<open>simp add: rows_ok_def\<close>)
    moreover have "list_all account_check (update_where (\<lambda>b. aa_id b = i) f (agent_accounts s))"
      using assms(1) only u(1) by (auto simp: rows_ok_def list_all_iff set_update_where)
    ultimately show ?thesis using assms(1) by (simp add: u(3) rows_ok_def set_update_where)
  qed
  show "rows_ok s'" using * by blast
  show "credential_cleanup s' = credential_cleanup s" using * by blast
  show "set (agent_accounts s') = f ` {a \<in> set (agent_accounts s). aa_id a = i}
      \<union> {a \<in> set (agent_accounts s). aa_id a \<noteq> i}" using * by blast
qed

lemma update_account_total:
  assumes "rows_ok s" and "\<And>a. account_check (f a) = account_check a" and "\<And>a b. apart (f a) b = apart a b"
  shows "\<exists>n s'. update_account i f s = Inr (n, s') \<and> (n = 0 \<longleftrightarrow> (\<forall>a \<in> set (agent_accounts s). aa_id a \<noteq> i))"
proof (cases "find (\<lambda>a. aa_id a = i) (agent_accounts s)")
  case (Some a)
  then have a: "a \<in> set (agent_accounts s)" "aa_id a = i" by (auto simp: find_Some_iff)
  have "apart a b" if "b \<in> set (agent_accounts s)" "aa_id b \<noteq> i" for b
    using sorted_wrt_pairs [of apart _ a b] assms(1) a that by (auto simp: rows_ok_def intro: apart_sym)
  with a show ?thesis
    using Some assms by (auto simp: update_account_def list_all_iff rows_ok_def)
next
  case None
  moreover from None have "\<forall>a \<in> set (agent_accounts s). aa_id a \<noteq> i" by (auto simp: find_None_iff)
  ultimately show ?thesis by (simp add: update_account_def)
qed

lemma insert_account_ok:
  assumes "rows_ok s" and "insert_account a s = Inr s'"
  shows "rows_ok s' \<and> credential_cleanup s' = credential_cleanup s
    \<and> set (agent_accounts s') = insert a (set (agent_accounts s))"
proof -
  have u: "account_check a" "\<forall>b \<in> set (agent_accounts s). apart a b"
    "s' = s\<lparr>agent_accounts := agent_accounts s @ [a]\<rparr>"
    using assms(2) by (simp_all add: insert_account_def list_all_iff split: if_splits)
  moreover have "\<forall>b \<in> set (agent_accounts s). apart b a" using u(2) apart_sym by blast
  ultimately show ?thesis using assms(1) by (auto simp: rows_ok_def sorted_wrt_append)
qed

section \<open>The writes\<close>

lemma accounted_mono:
  assumes "\<And>i r. (\<exists>a \<in> set (agent_accounts s). aa_id a = i \<and> aa_credential_ref a = Some r) \<Longrightarrow>
      \<exists>a \<in> set (agent_accounts s'). aa_id a = i \<and> aa_credential_ref a = Some r"
    and "credential_cleanup s' = credential_cleanup s"
  shows "accounted s \<subseteq> accounted s'"
  unfolding accounted_def assms(2) using assms(1) by blast

lemma books_weaken: "books S X B W \<Longrightarrow> X \<subseteq> Y \<Longrightarrow> books S Y B W"
  unfolding books_def by blast

text \<open>A row of \<open>X\<close> that is not connected, or whose credential is there, need not be in \<open>X\<close>.\<close>

lemma books_settle:
  assumes "books S (insert i X) B W"
    and "\<And>a. a \<in> set (agent_accounts (gw_db W)) \<Longrightarrow> aa_id a = i \<Longrightarrow> aa_status a = AccConnected \<Longrightarrow>
      readable S W (aa_credential_ref a)"
  shows "books S X B W"
  using assms unfolding books_def by auto

text \<open>An \<^verbatim>\<open>UPDATE\<close> that keeps identifiers and references.\<close>

lemma books_update:
  assumes b: "books S X B W" and u: "update_account i f (gw_db W) = Inr (n, s)"
    and f: "\<And>a. aa_id (f a) = aa_id a" "\<And>a. aa_credential_ref (f a) = aa_credential_ref a"
    and c: "\<And>a. a \<in> set (agent_accounts (gw_db W)) \<Longrightarrow> aa_id a = i \<Longrightarrow> aa_status (f a) = AccConnected \<Longrightarrow>
      readable S W (aa_credential_ref a)"
  shows "books S (X - {i}) B (W\<lparr>gw_db := s\<rparr>)" and "row_of j r W \<Longrightarrow> row_of j r (W\<lparr>gw_db := s\<rparr>)"
proof -
  have ok: "rows_ok (gw_db W)" using b by (simp add: books_def)
  note s = update_account_ok [OF ok u f(1)]
  show rows: "row_of j r W \<Longrightarrow> row_of j r (W\<lparr>gw_db := s\<rparr>)" for j r
    unfolding row_of_def by (simp add: s(3) bex_Un) (metis f)
  have "accounted (gw_db W) \<subseteq> accounted s"
    using rows by (intro accounted_mono s(2)) (simp add: row_of_def)
  moreover have "cleanup_apart s" using b f(2) unfolding books_def cleanup_apart_def s(2,3) by auto
  moreover have "readable S W (aa_credential_ref a)"
    if "a \<in> set (agent_accounts s)" "aa_id a \<notin> X - {i}" "aa_status a = AccConnected" for a
  proof (cases "aa_id a = i")
    case True
    have "a \<in> f ` {a \<in> set (agent_accounts (gw_db W)). aa_id a = i} \<union> {a \<in> set (agent_accounts (gw_db W)). aa_id a \<noteq> i}"
      using that(1) by (simp only: s(3))
    then obtain a0 where "a0 \<in> set (agent_accounts (gw_db W))" "aa_id a0 = i" "a = f a0" using True by blast
    with c [of a0] that(3) f(2) show ?thesis by simp
  next
    case False
    then have "a \<in> set (agent_accounts (gw_db W))" using that(1) f(1) unfolding s(3) by auto
    with False that(2,3) b show ?thesis unfolding books_def by simp
  qed
  ultimately show "books S (X - {i}) B (W\<lparr>gw_db := s\<rparr>)"
    using b s(1) by (auto simp: books_def stranded_def)
qed

lemma set_state_cases:
  assumes "rows_ok (gw_db W)"
  obtains n s where "update_account i (\<lambda>a. a\<lparr>aa_status := st, aa_expires_at := expires,
       aa_last_checked_at := Some (ae_now E), aa_last_error_code := code, aa_updated_at := ae_now E\<rparr>) (gw_db W) = Inr (n, s)"
    and "snd (set_state E i st expires code W) = W\<lparr>gw_db := s\<rparr>"
    and "fst (set_state E i st expires code W) = Inr () \<longleftrightarrow> (\<exists>a \<in> set (agent_accounts (gw_db W)). aa_id a = i)"
proof -
  let ?f = "\<lambda>a. a\<lparr>aa_status := st, aa_expires_at := expires,
       aa_last_checked_at := Some (ae_now E), aa_last_error_code := code, aa_updated_at := ae_now E\<rparr>"
  obtain n s where u: "update_account i ?f (gw_db W) = Inr (n, s)"
    "n = 0 \<longleftrightarrow> (\<forall>a \<in> set (agent_accounts (gw_db W)). aa_id a \<noteq> i)"
    using update_account_total [OF assms, of ?f i] by (auto simp: account_check_def apart_def)
  then show thesis
    by (intro that [of n s]) (simp_all add: set_state_def set_agent_account_state_def changed_one_def)
qed

lemma books_set_state:
  assumes "books S X B W"
    and "\<And>a. a \<in> set (agent_accounts (gw_db W)) \<Longrightarrow> aa_id a = i \<Longrightarrow> st = AccConnected \<Longrightarrow>
      readable S W (aa_credential_ref a)"
  shows "books S (X - {i}) B (snd (set_state E i st expires code W))"
    and "row_of j r W \<Longrightarrow> row_of j r (snd (set_state E i st expires code W))"
    and "fst (set_state E i st expires code W) = Inr () \<longleftrightarrow> (\<exists>a \<in> set (agent_accounts (gw_db W)). aa_id a = i)"
    and "gw_keys (snd (set_state E i st expires code W)) = gw_keys W"
    and "credential_cleanup (gw_db (snd (set_state E i st expires code W))) = credential_cleanup (gw_db W)"
proof -
  have ok: "rows_ok (gw_db W)" using assms(1) by (simp add: books_def)
  obtain n s where u: "update_account i (\<lambda>a. a\<lparr>aa_status := st, aa_expires_at := expires,
       aa_last_checked_at := Some (ae_now E), aa_last_error_code := code, aa_updated_at := ae_now E\<rparr>) (gw_db W) = Inr (n, s)"
    "snd (set_state E i st expires code W) = W\<lparr>gw_db := s\<rparr>"
    "fst (set_state E i st expires code W) = Inr () \<longleftrightarrow> (\<exists>a \<in> set (agent_accounts (gw_db W)). aa_id a = i)"
    using set_state_cases [OF ok] by blast
  note b = books_update [OF assms(1) u(1)]
  show "books S (X - {i}) B (snd (set_state E i st expires code W))"
    unfolding u(2) by (rule b(1)) (use assms(2) in simp_all)
  show "row_of j r W \<Longrightarrow> row_of j r (snd (set_state E i st expires code W))"
    unfolding u(2) by (rule b(2)) (use assms(2) in simp_all)
  show "fst (set_state E i st expires code W) = Inr () \<longleftrightarrow> (\<exists>a \<in> set (agent_accounts (gw_db W)). aa_id a = i)"
    by (rule u(3))
  show "gw_keys (snd (set_state E i st expires code W)) = gw_keys W" by (simp add: u(2))
  show "credential_cleanup (gw_db (snd (set_state E i st expires code W))) = credential_cleanup (gw_db W)"
    using update_account_ok(2) [OF ok u(1)] by (simp add: u(2))
qed

text \<open>Recording a failure settles the account it is about.\<close>

lemma books_fail:
  assumes "books S (insert i X) B W" and "st \<noteq> AccConnected"
  shows "books S X B (snd (fail_quietly E i st expires code e W))"
    and "books S X B (snd (fail_with E i st expires code e W))"
proof -
  have "books S X B (snd (set_state E i st expires (Some code) W))"
    using books_set_state(1) [OF assms(1), of i st E expires "Some code"] assms(2)
    by (simp add: books_weaken)
  then show "books S X B (snd (fail_quietly E i st expires code e W))"
    and "books S X B (snd (fail_with E i st expires code e W))"
    by (simp add: fail_quietly_def,
        cases "set_state E i st expires (Some code) W", simp add: fail_with_def split: sum.split)
qed

text \<open>A write under the reference of a row touches that row alone.\<close>

lemma books_keys:
  assumes b: "books S X B W" and r: "row_of i (Some r) W"
    and other: "\<And>s. s \<noteq> r \<Longrightarrow> cred_get S s k = cred_get S s (gw_keys W)"
  shows "books S (insert i X) B (W\<lparr>gw_keys := k\<rparr>)"
    and "cred_get S r k = Inr c \<Longrightarrow> books S X B (W\<lparr>gw_keys := k\<rparr>)"
proof -
  have ok: "rows_ok (gw_db W)" using b by (simp add: books_def)
  obtain a where a: "a \<in> set (agent_accounts (gw_db W))" "aa_id a = i" "aa_credential_ref a = Some r"
    using r by (auto simp: row_of_def)
  have keep: "readable S (W\<lparr>gw_keys := k\<rparr>) (aa_credential_ref a') = readable S W (aa_credential_ref a')"
    if "a' \<in> set (agent_accounts (gw_db W))" "aa_id a' \<noteq> i" for a'
  proof -
    have "aa_credential_ref a' \<noteq> Some r" using row_by_ref [OF ok that(1) a(1) _ a(3)] a(2) that(2) by blast
    then show ?thesis using other by (cases "aa_credential_ref a'") (auto simp: readable_def)
  qed
  have acc: "r \<in> accounted (gw_db W)" using a by (auto simp: accounted_def)
  have st: "stranded S (W\<lparr>gw_keys := k\<rparr>) = stranded S W"
  proof (rule set_eqI)
    show "x \<in> stranded S (W\<lparr>gw_keys := k\<rparr>) \<longleftrightarrow> x \<in> stranded S W" for x
      by (cases "x = r") (simp_all add: stranded_def acc other)
  qed
  show one: "books S (insert i X) B (W\<lparr>gw_keys := k\<rparr>)"
    using b keep unfolding books_def st by simp
  show "books S X B (W\<lparr>gw_keys := k\<rparr>)" if "cred_get S r k = Inr c"
    using one
  proof (rule books_settle)
    fix a' assume "a' \<in> set (agent_accounts (gw_db (W\<lparr>gw_keys := k\<rparr>)))" "aa_id a' = i"
    then have "a' = a" using row_by_id [OF ok _ a(1)] a(2) by simp
    with a(3) that show "readable S (W\<lparr>gw_keys := k\<rparr>) (aa_credential_ref a')" by (simp add: readable_def)
  qed
qed

lemma put_secret_effect:
  assumes "agent_store_faithful S" and "put_secret S r c W = (x, W1)"
  obtains k where "W1 = W\<lparr>gw_keys := k\<rparr>" and "\<And>s. s \<noteq> r \<Longrightarrow> cred_get S s k = cred_get S s (gw_keys W)"
    and "x = Inr () \<Longrightarrow> cred_get S r k = Inr c"
  using assms by (auto simp: put_secret_def split: prod.splits
      intro: cred_get_put_other [OF assms(1)] cred_get_put [OF assms(1)])

lemma delete_secret_effect:
  assumes "agent_store_faithful S" and "delete_secret S r W = (x, W1)"
  obtains k where "W1 = W\<lparr>gw_keys := k\<rparr>" and "\<And>s. s \<noteq> r \<Longrightarrow> cred_get S s k = cred_get S s (gw_keys W)"
    and "x = Inr () \<Longrightarrow> cred_get S r k = Inl CrMissing" and "x \<noteq> Inl CrMissing"
  using assms by (auto simp: delete_secret_def split: prod.splits if_splits
      intro: cred_get_delete_other [OF assms(1)] cred_delete_gone [OF assms(1)])

lemma find_cleanup:
  assumes "rows_ok s" and "find (\<lambda>c. cl_account c = i) (credential_cleanup s) = Some c"
    and "d \<in> set (credential_cleanup s)" "cl_account d = i"
  shows "d = c"
proof -
  have "c \<in> set (credential_cleanup s)" "cl_account c = i" using assms(2) by (auto simp: find_Some_iff)
  then show ?thesis using assms(1,3,4) by (auto simp: rows_ok_def distinct_map inj_on_def)
qed

lemma books_drain:
  assumes f: "agent_store_faithful S" and b: "books S X B W" and d: "drain_credential_cleanup S i W = (x, W1)"
  shows "books S X B W1" and "agent_accounts (gw_db W1) = agent_accounts (gw_db W)"
    and "x = Inr () \<Longrightarrow> get_agent_account_credential_cleanup i (gw_db W1) = None"
proof -
  have *: "books S X B W1 \<and> agent_accounts (gw_db W1) = agent_accounts (gw_db W)
    \<and> (x = Inr () \<longrightarrow> get_agent_account_credential_cleanup i (gw_db W1) = None)"
  proof (cases "get_agent_account_credential_cleanup i (gw_db W)")
    case (Some c)
    show ?thesis
    proof (cases "cl_owner c = ''legacy_agent_account_migration''")
      case True
      obtain y k where y: "cred_delete S (cl_credential_ref c) (gw_keys W) = (y, k)"
        by (cases "cred_delete S (cl_credential_ref c) (gw_keys W)")
      let ?r = "cl_credential_ref c"
      have ok: "rows_ok (gw_db W)" using b by (simp add: books_def)
      have c: "c \<in> set (credential_cleanup (gw_db W))"
        using Some by (auto simp: get_agent_account_credential_cleanup_def find_Some_iff)
      have other: "cred_get S s k = cred_get S s (gw_keys W)" if "s \<noteq> ?r" for s
        using cred_get_delete_other [OF f y that] .
      have read: "readable S (W\<lparr>gw_keys := k\<rparr>) (aa_credential_ref a) = readable S W (aa_credential_ref a)"
        if "a \<in> set (agent_accounts (gw_db W))" for a
      proof -
        have "aa_credential_ref a \<noteq> Some ?r" using b that c by (auto simp: books_def cleanup_apart_def)
        then show ?thesis using other by (cases "aa_credential_ref a") (auto simp: readable_def)
      qed
      have acc: "?r \<in> accounted (gw_db W)" using c by (auto simp: accounted_def)
      have "stranded S (W\<lparr>gw_keys := k\<rparr>) = stranded S W"
      proof (rule set_eqI)
        show "z \<in> stranded S (W\<lparr>gw_keys := k\<rparr>) \<longleftrightarrow> z \<in> stranded S W" for z
          by (cases "z = ?r") (simp_all add: stranded_def acc other)
      qed
      then have keys: "books S X B (W\<lparr>gw_keys := k\<rparr>)" using b read by (simp add: books_def)
      show ?thesis
      proof (cases "y = Inr () \<or> y = Inl CrMissing")
        case y_ok: True
        let ?s = "delete_agent_account_credential_cleanup i (gw_db W)"
        have W1: "W1 = W\<lparr>gw_keys := k, gw_db := ?s\<rparr>" "x = Inr ()"
          using d Some True y y_ok by (auto simp: drain_credential_cleanup_def)
        have gone: "cred_get S ?r k = Inl CrMissing" by (rule cred_delete_gone [OF f y y_ok])
        have only: "e \<in> set (credential_cleanup ?s)" if "e \<in> set (credential_cleanup (gw_db W))" "e \<noteq> c" for e
          using that find_cleanup [OF ok, of i c e] Some
          by (auto simp: delete_agent_account_credential_cleanup_def get_agent_account_credential_cleanup_def)
        have "stranded S W1 \<subseteq> stranded S (W\<lparr>gw_keys := k\<rparr>)"
        proof
          fix z assume z: "z \<in> stranded S W1"
          then have "z \<noteq> ?r" using gone by (auto simp: stranded_def W1(1))
          then show "z \<in> stranded S (W\<lparr>gw_keys := k\<rparr>)"
            using z only by (auto simp: stranded_def W1(1) accounted_def delete_agent_account_credential_cleanup_def)
        qed
        moreover have "rows_ok ?s"
          using ok by (simp add: rows_ok_def delete_agent_account_credential_cleanup_def distinct_map_filter_rows)
        moreover have "cleanup_apart ?s"
          using b by (simp add: books_def cleanup_apart_def delete_agent_account_credential_cleanup_def)
        moreover have "readable S W1 r = readable S (W\<lparr>gw_keys := k\<rparr>) r" for r
          by (cases r) (simp_all add: readable_def W1(1))
        ultimately have "books S X B W1"
          using keys by (auto simp: books_def W1(1) delete_agent_account_credential_cleanup_def)
        then show ?thesis
          by (simp add: W1 delete_agent_account_credential_cleanup_def get_agent_account_credential_cleanup_def find_None_iff)
      next
        case False
        then have "W1 = W\<lparr>gw_keys := k\<rparr>" "x \<noteq> Inr ()"
          using d Some True y by (cases y; auto simp: drain_credential_cleanup_def)+
        with keys show ?thesis by simp
      qed
    qed (use b d Some in \<open>auto simp: drain_credential_cleanup_def\<close>)
  qed (use b d in \<open>auto simp: drain_credential_cleanup_def\<close>)
  show "books S X B W1" using * by blast
  show "agent_accounts (gw_db W1) = agent_accounts (gw_db W)" using * by blast
  show "x = Inr () \<Longrightarrow> get_agent_account_credential_cleanup i (gw_db W1) = None" using * by blast
qed

lemma drain_keys:
  assumes "agent_store_faithful S" and "drain_credential_cleanup S i W = (x, W1)"
    and "r \<notin> cl_credential_ref ` set (credential_cleanup (gw_db W))"
  shows "cred_get S r (gw_keys W1) = cred_get S r (gw_keys W)"
proof (cases "get_agent_account_credential_cleanup i (gw_db W)")
  case (Some c)
  then have "r \<noteq> cl_credential_ref c"
    using assms(3) by (auto simp: get_agent_account_credential_cleanup_def find_Some_iff)
  moreover obtain y k where "cred_delete S (cl_credential_ref c) (gw_keys W) = (y, k)"
    by (cases "cred_delete S (cl_credential_ref c) (gw_keys W)")
  ultimately show ?thesis
    using assms(2) Some cred_get_delete_other [OF assms(1), of "cl_credential_ref c" "gw_keys W" y k r]
    by (auto simp: drain_credential_cleanup_def split: if_splits)
qed (use assms(2) in \<open>simp add: drain_credential_cleanup_def\<close>)

text \<open>A row goes when no secret is under its reference.\<close>

lemma books_delete:
  assumes b: "books S (insert i X) B W" and r: "row_of i ref W"
    and none: "get_agent_account_credential_cleanup i (gw_db W) = None"
    and gone: "\<And>r. ref = Some r \<Longrightarrow> cred_get S r (gw_keys W) = Inl CrMissing"
  obtains s where "delete_agent_account_metadata i (gw_db W) = (Inr (), s)" and "books S X B (W\<lparr>gw_db := s\<rparr>)"
    and "s = (gw_db W)\<lparr>agent_accounts := filter (\<lambda>a. aa_id a \<noteq> i) (agent_accounts (gw_db W))\<rparr>"
proof -
  let ?s = "(gw_db W)\<lparr>agent_accounts := filter (\<lambda>a. aa_id a \<noteq> i) (agent_accounts (gw_db W))\<rparr>"
  have ok: "rows_ok (gw_db W)" using b by (simp add: books_def)
  have del: "delete_agent_account_metadata i (gw_db W) = (Inr (), ?s)"
    using r none by (auto simp: delete_agent_account_metadata_def row_of_def list_ex_iff
        get_agent_account_credential_cleanup_def find_None_iff)
  have "stranded S (W\<lparr>gw_db := ?s\<rparr>) \<subseteq> stranded S W"
  proof
    fix z assume z: "z \<in> stranded S (W\<lparr>gw_db := ?s\<rparr>)"
    have "aa_credential_ref a \<noteq> Some z" if "a \<in> set (agent_accounts (gw_db W))" for a
    proof
      assume "aa_credential_ref a = Some z"
      with that z have "aa_id a = i" by (auto simp: stranded_def accounted_def)
      moreover obtain b where "b \<in> set (agent_accounts (gw_db W))" "aa_id b = i" "aa_credential_ref b = ref"
        using r by (auto simp: row_of_def)
      ultimately have "a = b" by (intro row_by_id [OF ok that]) simp_all
      with \<open>aa_credential_ref a = Some z\<close> \<open>aa_credential_ref b = ref\<close> have "ref = Some z" by simp
      with gone z show False by (simp add: stranded_def)
    qed
    with z show "z \<in> stranded S W" by (auto simp: stranded_def accounted_def)
  qed
  moreover have "rows_ok ?s" using ok by (simp add: rows_ok_def list_all_iff sorted_wrt_filter)
  moreover have "cleanup_apart ?s" using b by (simp add: books_def cleanup_apart_def)
  ultimately have "books S X B (W\<lparr>gw_db := ?s\<rparr>)" using b by (simp add: books_def) blast
  with del show thesis by (rule that) (rule refl)
qed

text \<open>A new row that is not connected.\<close>

lemma books_insert:
  assumes b: "books S X B W" and u: "insert_account a (gw_db W) = Inr s" and "aa_status a \<noteq> AccConnected"
    and new: "\<And>c. c \<in> set (credential_cleanup (gw_db W)) \<Longrightarrow> aa_credential_ref a \<noteq> Some (cl_credential_ref c)"
  shows "books S X B (W\<lparr>gw_db := s\<rparr>)"
proof -
  have s: "rows_ok s" "credential_cleanup s = credential_cleanup (gw_db W)"
    "set (agent_accounts s) = insert a (set (agent_accounts (gw_db W)))"
    using insert_account_ok [OF _ u] b by (simp_all add: books_def)
  have "stranded S (W\<lparr>gw_db := s\<rparr>) \<subseteq> stranded S W"
    unfolding stranded_def accounted_def by (simp add: s(2,3)) blast
  then show ?thesis
    using b s assms(3) new by (auto simp: books_def cleanup_apart_def)
qed

section \<open>The operations\<close>

lemma books_bind:
  assumes "\<And>e W1. r = (Inl e, W1) \<Longrightarrow> books S X B W1"
    and "\<And>x W1. r = (Inr x, W1) \<Longrightarrow> books S X B (snd (f x W1))"
  shows "books S X B (snd (svc_bind r f))"
  using assms by (cases r; cases "fst r") (auto simp: svc_bind_def)

lemma live_account_cases:
  obtains e where "live_account E i W = (Inl e, W)"
    | a where "live_account E i W = (Inr a, W)" "a \<in> set (agent_accounts (gw_db W))" "aa_id a = i"
        "validate_agent_account (ae_chrono E) a = None"
proof (cases "find (\<lambda>a. aa_id a = i) (agent_accounts (gw_db W))")
  case (Some a)
  then have "a \<in> set (agent_accounts (gw_db W))" "aa_id a = i" by (auto simp: find_Some_iff)
  then show thesis using that Some
    by (cases "validate_agent_account (ae_chrono E) a")
      (simp_all add: live_account_def get_agent_account_def read_opt_def read_account_def)
qed (use that in \<open>auto simp: live_account_def get_agent_account_def read_opt_def\<close>)

lemma row_ofI: "a \<in> set (agent_accounts (gw_db W)) \<Longrightarrow> row_of (aa_id a) (aa_credential_ref a) W"
  by (auto simp: row_of_def)

lemma books_expiry: "books S X B W \<Longrightarrow> books S X B (snd (project_expiry E a W))"
  using books_set_state(1) [of S X B W "aa_id a" AccExpired E "aa_expires_at a" "Some ''credential_expired''"]
  by (auto simp: project_expiry_def intro: books_weaken)

lemma books_get: "books S X B W \<Longrightarrow> books S X B (snd (get_account E i W))"
  by (simp add: get_account_def split: sum.split option.split prod.split) (metis books_expiry snd_conv)

lemma books_reloaded: "books S X B W \<Longrightarrow> books S X B (snd (reloaded E i W))"
  using books_get [of S X B W E i] by (auto simp: reloaded_def split: sum.split option.split prod.split)

lemma books_project_all: "books S X B W \<Longrightarrow> books S X B (snd (project_all E as W))"
proof (induction as arbitrary: W)
  case (Cons a as)
  obtain b W1 where e: "project_expiry E a W = (b, W1)" by (cases "project_expiry E a W")
  then have "books S X B W1" using books_expiry [OF Cons.prems, of E a] by simp
  from Cons.IH [OF this] show ?case by (simp add: e split: prod.split) (metis snd_conv)
qed simp

lemma books_list: "books S X B W \<Longrightarrow> books S X B (snd (list_accounts E W))"
  by (simp add: list_accounts_def books_project_all)

definition fresh_for :: "rstring \<Rightarrow> accounts \<Rightarrow> bool" where
  "fresh_for fresh s = (credential_reference (''account_'' @ fresh) \<notin> cl_credential_ref ` set (credential_cleanup s))"

lemma loaded_account_simp:
  "snd (loaded_account E i s) = s"
  "loaded_account E i s = (Inr a, s') \<Longrightarrow> a \<in> set (agent_accounts s) \<and> aa_id a = i"
  by (auto simp: loaded_account_def get_agent_account_def read_opt_def read_account_def find_Some_iff
      split: option.splits sum.splits if_splits)

lemma books_row: "books S X B W \<Longrightarrow> books S X B (W\<lparr>gw_auth := R\<rparr>)"
  unfolding books_def stranded_def readable_def by (simp cong: option.case_cong)

lemma books_pending:
  assumes b: "books S X B W" and u: "update_account i (pending_row now z) (gw_db W) = Inr (n, s)"
  shows "books S X B (W\<lparr>gw_db := s\<rparr>)"
proof -
  have "books S (X - {i}) B (W\<lparr>gw_db := s\<rparr>)"
    by (rule books_update(1) [OF b u]) (simp_all add: pending_row_def)
  then show ?thesis by (rule books_weaken) blast
qed

text \<open>What a grant can do to the rows: nothing, an update of the row of its identity, a new row.\<close>

lemma prepare_cases:
  assumes "prepare_agent_account E fresh z s = (x, s')"
  obtains e where "x = Inl e" "s' = s"
    | m n where "update_account (aa_id m) (pending_row (ae_now E) z) s = Inr (n, s')"
        "(x, s') = loaded_account E (aa_id m) s'"
        "find (\<lambda>a. account_key a = (az_provider z, az_product z, az_harness z, identity_key (ae_digest E) z)) (agent_accounts s) = Some m"
    | ref where "insert_account (new_row E (''account_'' @ fresh) ref z) s = Inr s'"
        "(x, s') = loaded_account E (''account_'' @ fresh) s'"
        "ref = (if requires_credential (az_product z) then Some (credential_reference (''account_'' @ fresh)) else None)"
        "find (\<lambda>a. account_key a = (az_provider z, az_product z, az_harness z, identity_key (ae_digest E) z)) (agent_accounts s) = None"
        "validate_authorized_agent_account (ae_chrono E) z = None"
proof (cases "validate_authorized_agent_account (ae_chrono E) z")
  case None
  show thesis
  proof (cases "trim (az_external_account_id z) = []")
    case False
    show thesis
    proof (cases "find (\<lambda>a. account_key a = (az_provider z, az_product z, az_harness z, identity_key (ae_digest E) z)) (agent_accounts s)")
      case (Some m)
      note eq = assms [unfolded prepare_agent_account_def None option.case Some if_not_P [OF False]]
      show thesis
      proof (cases "update_account (aa_id m) (pending_row (ae_now E) z) s")
        case (Inr u)
        obtain n s1 where u: "u = (n, s1)" by (cases u)
        show thesis
        proof (cases "requires_credential (az_product z) = (aa_credential_ref m \<noteq> None)")
          case True
          with eq Inr u have l: "loaded_account E (aa_id m) s1 = (x, s')" by simp
          then have "s' = s1" using loaded_account_simp(1) [of E "aa_id m" s1] by simp
          with l Inr u Some show thesis by (intro that(2)) simp_all
        qed (use eq that(1) in auto)
      qed (use eq that(1) in \<open>auto split: if_splits\<close>)
    next
      case none: None
      note eq = assms [unfolded prepare_agent_account_def None option.case none if_not_P [OF False] Let_def]
      show thesis
      proof (cases "insert_account (new_row E (''account_'' @ fresh)
          (if requires_credential (az_product z) then Some (credential_reference (''account_'' @ fresh)) else None) z) s")
        case (Inr s1)
        with eq have l: "loaded_account E (''account_'' @ fresh) s1 = (x, s')" by simp
        then have "s' = s1" using loaded_account_simp(1) [of E "''account_'' @ fresh" s1] by simp
        with l Inr none None show thesis by (intro that(3)) simp_all
      qed (use eq that(1) in auto)
    qed
  qed (use assms None that(1) in \<open>auto simp: prepare_agent_account_def\<close>)
qed (use assms that(1) in \<open>auto simp: prepare_agent_account_def\<close>)

lemma books_prepare:
  assumes b: "books S X B W" and new: "fresh_for fresh (gw_db W)"
    and p: "prepare_agent_account E fresh z (gw_db W) = (x, s)"
  shows "books S X B (W\<lparr>gw_db := s\<rparr>)"
  using p
proof (cases rule: prepare_cases)
  case (2 m n)
  show ?thesis by (rule books_pending [OF b 2(1)])
next
  case (3 ref)
  show ?thesis
    by (rule books_insert [OF b 3(1)]) (use new 3(3) in \<open>auto simp: new_row_def fresh_for_def\<close>)
qed (use b in simp)

lemma prepare_loaded:
  assumes "prepare_agent_account E fresh z s = (Inr a, s')"
  shows "a \<in> set (agent_accounts s')"
  using assms by (cases rule: prepare_cases) (auto dest: loaded_account_simp(2) [OF sym])

lemma books_upsert:
  assumes b: "books S X B W" and u: "upsert_runtime_managed_account E i z (gw_db W) = (x, s)"
  shows "books S X B (W\<lparr>gw_db := s\<rparr>)" and "x = Inr a \<Longrightarrow> a \<in> set (agent_accounts s) \<and> aa_id a = i"
    and "x = Inr a \<Longrightarrow> aa_credential_ref a = None"
proof -
  have ok: "rows_ok (gw_db W)" using b by (simp add: books_def)
  have *: "books S X B (W\<lparr>gw_db := s\<rparr>) \<and> (x = Inr a \<longrightarrow> a \<in> set (agent_accounts s) \<and> aa_id a = i \<and> aa_credential_ref a = None)"
  proof (cases "(\<exists>e. x = Inl e) \<and> s = gw_db W")
    case False
    note eq = u [unfolded upsert_runtime_managed_account_def]
    show ?thesis
    proof (cases "find (\<lambda>a. aa_id a = i) (agent_accounts (gw_db W))")
      case (Some m)
      with False eq obtain n s1 where s1: "update_account i (pending_row (ae_now E) z) (gw_db W) = Inr (n, s1)"
        "loaded_account E i s1 = (x, s)" "aa_credential_ref m = None"
        by (auto split: option.splits if_splits sum.splits)
      then have s: "s = s1" using loaded_account_simp(1) [of E i s1] by simp
      have m: "m \<in> set (agent_accounts (gw_db W))" "aa_id m = i" using Some by (auto simp: find_Some_iff)
      have "aa_credential_ref a' = None" if "a' \<in> set (agent_accounts s1)" "aa_id a' = i" for a'
      proof -
        have "a' \<in> pending_row (ae_now E) z ` {a \<in> set (agent_accounts (gw_db W)). aa_id a = i}"
          using that update_account_ok(3) [OF ok s1(1)] by (auto simp: pending_row_def)
        then obtain c where c: "c \<in> set (agent_accounts (gw_db W))" "aa_id c = i" "a' = pending_row (ae_now E) z c" by auto
        have "c = m" by (rule row_by_id [OF ok c(1) m(1)]) (simp add: c(2) m(2))
        with c(3) s1(3) show ?thesis by (simp add: pending_row_def)
      qed
      with s1(2) s books_pending [OF b s1(1)] loaded_account_simp(2) [of E i s1] show ?thesis by auto
    next
      case None
      with False eq obtain s1 where s1: "insert_account (new_row E i None z) (gw_db W) = Inr s1"
        "loaded_account E i s1 = (x, s)" by (auto split: option.splits if_splits sum.splits)
      then have s: "s = s1" using loaded_account_simp(1) [of E i s1] by simp
      have "books S X B (W\<lparr>gw_db := s1\<rparr>)" by (rule books_insert [OF b s1(1)]) (simp_all add: new_row_def)
      moreover have "aa_credential_ref a' = None" if "a' \<in> set (agent_accounts s1)" "aa_id a' = i" for a'
      proof -
        have "\<forall>c \<in> set (agent_accounts (gw_db W)). aa_id c \<noteq> i" using None by (auto simp: find_None_iff)
        then have "a' = new_row E i None z" using insert_account_ok [OF ok s1(1)] that by auto
        then show ?thesis by (simp add: new_row_def)
      qed
      ultimately show ?thesis using s1(2) s loaded_account_simp(2) [of E i s1] by auto
    qed
  qed (use b in auto)
  show "books S X B (W\<lparr>gw_db := s\<rparr>)" using * by blast
  show "x = Inr a \<Longrightarrow> a \<in> set (agent_accounts s) \<and> aa_id a = i" using * by blast
  show "x = Inr a \<Longrightarrow> aa_credential_ref a = None" using * by blast
qed

lemma books_persist:
  assumes b: "books S X B W"
  shows "books S X B (snd (persist_runtime_managed_account E i z W))"
proof (cases "upsert_runtime_managed_account E i z (gw_db W)")
  case (Pair x s)
  note u = books_upsert [OF b Pair]
  show ?thesis
  proof (cases x)
    case (Inr a)
    have a: "a \<in> set (agent_accounts s)" "aa_id a = i" "aa_credential_ref a = None" using u(2,3) Inr by blast+
    have ok: "rows_ok s" using u(1) by (simp add: books_def)
    have read: "readable S (W\<lparr>gw_db := s\<rparr>) (aa_credential_ref c)"
      if "c \<in> set (agent_accounts (gw_db (W\<lparr>gw_db := s\<rparr>)))" "aa_id c = i" for c
    proof -
      have "c = a" using row_by_id [OF ok _ a(1)] that a(2) by simp
      with a(3) show ?thesis by (simp add: readable_def)
    qed
    have "books S X B (snd (set_state E i AccConnected (aa_expires_at a) None (W\<lparr>gw_db := s\<rparr>)))"
      by (rule books_weaken [OF books_set_state(1) [OF u(1)]]) (use read in auto)
    then have set: "books S X B W1" if "set_state E i AccConnected (aa_expires_at a) None (W\<lparr>gw_db := s\<rparr>) = (y, W1)" for y W1
      using that by simp
    have "books S X B (snd (svc_bind (set_state E i AccConnected (aa_expires_at a) None (W\<lparr>gw_db := s\<rparr>))
        (\<lambda>_. reloaded E i)))"
      by (rule books_bind) (use set books_reloaded in blast)+
    then show ?thesis using b Pair Inr a(2) by (simp add: persist_runtime_managed_account_def)
  qed (use b Pair u(1) in \<open>simp add: persist_runtime_managed_account_def\<close>)
qed

text \<open>Storing a credential for a row: the row keeps its books, or is about to be marked.\<close>

lemma books_put:
  assumes f: "agent_store_faithful S" and b: "books S X B W" and r: "row_of i (Some r) W"
    and p: "put_secret S r c W = (x, W1)"
  shows "books S (insert i X) B W1" and "x = Inr () \<Longrightarrow> books S X B W1"
    and "gw_db W1 = gw_db W" and "x = Inr () \<Longrightarrow> cred_get S r (gw_keys W1) = Inr c"
    and "\<And>s. s \<noteq> r \<Longrightarrow> cred_get S s (gw_keys W1) = cred_get S s (gw_keys W)"
proof -
  obtain k where k: "W1 = W\<lparr>gw_keys := k\<rparr>" "\<And>s. s \<noteq> r \<Longrightarrow> cred_get S s k = cred_get S s (gw_keys W)"
    "x = Inr () \<Longrightarrow> cred_get S r k = Inr c"
    using put_secret_effect [OF f p] by blast
  show "books S (insert i X) B W1" unfolding k(1) by (rule books_keys(1) [OF b r k(2)])
  show "books S X B W1" if "x = Inr ()" unfolding k(1) by (rule books_keys(2) [OF b r k(2) k(3) [OF that]])
  show "gw_db W1 = gw_db W" by (simp add: k(1))
  show "x = Inr () \<Longrightarrow> cred_get S r (gw_keys W1) = Inr c" using k(3) by (simp add: k(1))
  show "\<And>s. s \<noteq> r \<Longrightarrow> cred_get S s (gw_keys W1) = cred_get S s (gw_keys W)" using k(2) by (simp add: k(1))
qed

lemma books_erase:
  assumes f: "agent_store_faithful S" and b: "books S X B W" and r: "row_of i (Some r) W"
    and p: "delete_secret S r W = (x, W1)"
  shows "books S (insert i X) B W1" and "gw_db W1 = gw_db W"
    and "x = Inr () \<Longrightarrow> cred_get S r (gw_keys W1) = Inl CrMissing"
    and "\<And>s. s \<noteq> r \<Longrightarrow> cred_get S s (gw_keys W1) = cred_get S s (gw_keys W)"
proof -
  obtain k where k: "W1 = W\<lparr>gw_keys := k\<rparr>" "\<And>s. s \<noteq> r \<Longrightarrow> cred_get S s k = cred_get S s (gw_keys W)"
    "x = Inr () \<Longrightarrow> cred_get S r k = Inl CrMissing"
    using delete_secret_effect [OF f p] by blast
  show "books S (insert i X) B W1" unfolding k(1) by (rule books_keys(1) [OF b r k(2)])
  show "gw_db W1 = gw_db W" by (simp add: k(1))
  show "x = Inr () \<Longrightarrow> cred_get S r (gw_keys W1) = Inl CrMissing" using k(3) by (simp add: k(1))
  show "\<And>s. s \<noteq> r \<Longrightarrow> cred_get S s (gw_keys W1) = cred_get S s (gw_keys W)" using k(2) by (simp add: k(1))
qed

text \<open>Marking a row as connected, when its credential is there.\<close>

lemma books_connect:
  assumes b: "books S X B W" and r: "row_of i ref W" and c: "readable S W ref"
    and nx: "\<And>W1. books S X B W1 \<Longrightarrow> books S X B (snd (g W1))"
  shows "books S X B (snd (svc_bind (set_state E i AccConnected expires None W) (\<lambda>_. g)))"
proof -
  have ok: "rows_ok (gw_db W)" using b by (simp add: books_def)
  have "readable S W (aa_credential_ref a)" if "a \<in> set (agent_accounts (gw_db W))" "aa_id a = i" for a
  proof -
    obtain d where d: "d \<in> set (agent_accounts (gw_db W))" "aa_id d = i" "aa_credential_ref d = ref"
      using r by (auto simp: row_of_def)
    have "a = d" by (rule row_by_id [OF ok that(1) d(1)]) (simp add: that d)
    with d(3) c show ?thesis by simp
  qed
  then have "books S X B (snd (set_state E i AccConnected expires None W))"
    by (intro books_weaken [OF books_set_state(1) [OF b]]) auto
  then have "books S X B W1" if "set_state E i AccConnected expires None W = (y, W1)" for y W1 using that by simp
  then show ?thesis by (intro books_bind) (use nx in blast)+
qed

text \<open>A grant may be stored later than it was accepted: all it needs is its row.\<close>

lemma books_store_grant:
  assumes f: "agent_store_faithful S" and b: "books S {} B W" and a: "row_of (aa_id a) (aa_credential_ref a) W"
    and keep: "credential = None \<Longrightarrow> aa_credential_ref a = None"
  shows "books S {} B (snd (store_grant E S (a, credential, expires) W))"
proof -
  let ?i = "aa_id a" and ?ref = "aa_credential_ref a"
  let ?step = "\<lambda>W1. case drain_credential_cleanup S ?i W1 of
           (Inl e, W2) \<Rightarrow> fail_quietly E ?i AccError (aa_expires_at a) (ce_code e) e W2
         | (Inr _, W2) \<Rightarrow> svc_bind (set_state E ?i AccConnected expires None W2)
             (\<lambda>_ W3. case get_agent_account E ?i (gw_db W3) of
                Inr (Some b) \<Rightarrow> (Inr (dto_of b), W3)
              | _ \<Rightarrow> (Inl metadata_error, W3))"
  have last: "books S {} B (snd (?step W1))"
    if w: "books S {} B W1" "gw_db W1 = gw_db W" "readable S W1 ?ref" for W1
  proof (cases "drain_credential_cleanup S ?i W1")
    case (Pair x W2)
    note d = books_drain [OF f w(1) Pair]
    show ?thesis
    proof (cases x)
      case (Inl e)
      have "books S {} B (snd (fail_quietly E ?i AccError (aa_expires_at a) (ce_code e) e W2))"
        by (rule books_fail(1) [OF books_weaken [OF d(1)]]) simp_all
      then show ?thesis using Pair Inl by simp
    next
      case (Inr u)
      have row: "row_of ?i ?ref W2" using a by (simp add: row_of_def d(2) w(2))
      have "readable S W2 ?ref"
      proof (cases ?ref)
        case (Some r)
        have "r \<notin> cl_credential_ref ` set (credential_cleanup (gw_db W))"
          using b a Some by (auto simp: books_def cleanup_apart_def row_of_def)
        then show ?thesis using w(3) drain_keys [OF f Pair, of r] Some w(2) by (auto simp: readable_def)
      qed (simp add: readable_def)
      then have "books S {} B (snd (svc_bind (set_state E ?i AccConnected expires None W2)
             (\<lambda>_ W3. case get_agent_account E ?i (gw_db W3) of
                Inr (Some b) \<Rightarrow> (Inr (dto_of b), W3)
              | _ \<Rightarrow> (Inl metadata_error, W3))))"
        by (rule books_connect [OF d(1) row]) (simp split: sum.split option.split)
      then show ?thesis using Pair Inr by simp
    qed
  qed
  show ?thesis
  proof (cases credential)
    case None
    then show ?thesis using last [OF b refl] keep by (simp add: store_grant_def svc_bind_def readable_def)
  next
    case (Some c)
    show ?thesis
    proof (cases ?ref)
      case None
      then show ?thesis using b Some by (simp add: store_grant_def required_credential_ref_def svc_bind_def)
    next
      case ref: (Some r)
      obtain x W1 where p: "put_secret S r c W = (x, W1)" by (cases "put_secret S r c W")
      note w = books_put [OF f b a [unfolded ref] p]
      show ?thesis
      proof (cases x)
        case (Inl e)
        have "books S {} B (snd (fail_quietly E ?i AccError (aa_expires_at a) (credential_error_code e)
            (credential_command_error e) W1))"
          by (rule books_fail(1) [OF w(1)]) simp
        then show ?thesis
          using Some ref p Inl by (simp add: store_grant_def required_credential_ref_def svc_bind_def fail_quietly_def)
      next
        case (Inr u)
        then have "books S {} B W1" "readable S W1 ?ref" using w(2,4) ref by (auto simp: readable_def)
        from last [OF this(1) w(3) this(2)] show ?thesis
          using Some ref p Inr by (simp add: store_grant_def required_credential_ref_def svc_bind_def)
      qed
    qed
  qed
qed

lemma find_account_key:
  "find (\<lambda>a. account_key a = k) rows = Some m \<Longrightarrow> m \<in> set rows \<and> account_key m = k"
  by (auto simp: find_Some_iff)

lemma prepare_requires:
  assumes "rows_ok s" and "prepare_agent_account E fresh z s = (Inr a, s')"
  shows "requires_credential (az_product z) = (aa_credential_ref a \<noteq> None)"
  using assms(2)
proof (cases rule: prepare_cases)
  case (2 m n)
  have m: "m \<in> set (agent_accounts s)" using find_account_key [OF 2(3)] by blast
  have a: "a \<in> set (agent_accounts s')" "aa_id a = aa_id m" using loaded_account_simp(2) [OF 2(2) [symmetric]] by blast+
  then have "a \<in> pending_row (ae_now E) z ` {a \<in> set (agent_accounts s). aa_id a = aa_id m}"
    using update_account_ok(3) [OF assms(1) 2(1)] by (auto simp: pending_row_def)
  then obtain c where c: "c \<in> set (agent_accounts s)" "aa_id c = aa_id m" "a = pending_row (ae_now E) z c" by auto
  have "c = m" by (rule row_by_id [OF assms(1) c(1) m c(2)])
  with c(3) have "aa_credential_ref a = aa_credential_ref m" by (simp add: pending_row_def)
  moreover have "requires_credential (az_product z) = (aa_credential_ref m \<noteq> None)"
    using assms(2) 2(3) by (auto simp: prepare_agent_account_def split: option.splits if_splits)
  ultimately show ?thesis by simp
next
  case (3 ref)
  have a: "a \<in> set (agent_accounts s')" "aa_id a = ''account_'' @ fresh"
    using loaded_account_simp(2) [OF 3(2) [symmetric]] by blast+
  have new: "new_row E (''account_'' @ fresh) ref z \<in> set (agent_accounts s')"
    using insert_account_ok [OF assms(1) 3(1)] by blast
  have "a = new_row E (''account_'' @ fresh) ref z"
    using row_by_id [OF _ a(1) new] insert_account_ok [OF assms(1) 3(1)] a(2) by (simp add: new_row_def)
  then show ?thesis by (simp add: new_row_def 3(3))
qed simp

lemma managed_has_no_ref:
  "validate_agent_account C a = None \<Longrightarrow> \<not> requires_credential (aa_product a) \<Longrightarrow> aa_credential_ref a = None"
  by (auto simp: validate_agent_account_def validate_account_contract_def requires_credential_def authorized_part_def
      Let_def split: if_splits option.splits)

lemma validate_access_requires:
  "validate_provider_access q mode x = None \<Longrightarrow> requires_credential q = (pa_credential x \<noteq> None)"
  by (auto simp: validate_provider_access_def Let_def split: if_splits)

lemma books_start: "books S X B W \<Longrightarrow> books S X B (snd (start_authorization E P fresh p q h W))"
  by (auto simp: start_authorization_def intro: books_row split: sum.split prod.split option.split)

lemma books_cancel: "books S X B W \<Longrightarrow> books S X B (snd (cancel_authorization i W))"
  by (auto simp: cancel_authorization_def intro: books_row split: prod.split)

lemma books_spend:
  assumes "books S X B W" and "spend_attempt E P i p q h state W = (x, W1)"
  shows "books S X B W1" and "gw_db W1 = gw_db W"
  using assms by (auto simp: spend_attempt_def intro: books_row split: sum.splits prod.splits option.splits)

lemma books_accept:
  assumes b: "books S X B W" and new: "fresh_for fresh (gw_db W)"
    and g: "accept_grant E fresh i h q r completion W = (x, W1)"
  shows "books S X B W1"
    and "x = Inr (a, credential, expires) \<Longrightarrow> row_of (aa_id a) (aa_credential_ref a) W1"
    and "x = Inr (a, credential, expires) \<Longrightarrow> credential = None \<Longrightarrow> aa_credential_ref a = None"
proof -
  let ?W = "W\<lparr>gw_auth := auth_finish i (gw_auth W)\<rparr>"
  have w: "books S X B ?W" by (rule books_row [OF b])
  have *: "books S X B W1 \<and> (x = Inr (a, credential, expires) \<longrightarrow>
      row_of (aa_id a) (aa_credential_ref a) W1 \<and> (credential = None \<longrightarrow> aa_credential_ref a = None))"
  proof (cases completion)
    case (Inr grant)
    let ?z = "pg_account grant" and ?x = "pg_access grant"
    let ?z1 = "?z\<lparr>az_runtime_profile_ref := pa_runtime_profile_ref ?x\<rparr>"
    note eq = g [unfolded accept_grant_def Inr sum.case Let_def]
    show ?thesis
    proof (cases "az_provider ?z \<noteq> product_provider q \<or> az_product ?z \<noteq> q \<or> az_harness ?z \<noteq> h
        \<or> az_auth_method ?z \<noteq> pr_auth_method r \<or> az_custody_mode ?z \<noteq> pr_custody_mode r")
      case False
      show ?thesis
      proof (cases "validate_provider_access q (pr_custody_mode r) ?x")
        case None
        obtain y s where p: "prepare_agent_account E fresh ?z1 (gw_db ?W) = (y, s)"
          by (cases "prepare_agent_account E fresh ?z1 (gw_db ?W)")
        have new': "fresh_for fresh (gw_db ?W)" using new by simp
        note after = books_prepare [OF w new' p]
        show ?thesis
        proof (cases y)
          case (Inr a')
          have x: "x = Inr (a', pa_credential ?x, case Option.bind (pa_credential ?x) ce_expires_at of
              Some t \<Rightarrow> Some t | None \<Rightarrow> az_expires_at ?z1)" "W1 = ?W\<lparr>gw_db := s\<rparr>"
            using eq False None p Inr by auto
          have "a' \<in> set (agent_accounts s)" using prepare_loaded p Inr by blast
          moreover have "requires_credential q = (aa_credential_ref a' \<noteq> None)"
            using prepare_requires [of "gw_db ?W" E fresh ?z1 a' s] p Inr w False by (simp add: books_def)
          ultimately show ?thesis
            using after validate_access_requires [OF None] by (auto simp: x row_of_def)
        qed (use eq False None p after in auto)
      qed (use eq False w in auto)
    qed (use eq w in auto)
  qed (use g w in \<open>auto simp: accept_grant_def\<close>)
  show "books S X B W1" using * by blast
  show "x = Inr (a, credential, expires) \<Longrightarrow> row_of (aa_id a) (aa_credential_ref a) W1" using * by blast
  show "x = Inr (a, credential, expires) \<Longrightarrow> credential = None \<Longrightarrow> aa_credential_ref a = None" using * by blast
qed

lemma books_complete:
  assumes f: "agent_store_faithful S" and b: "books S {} B W" and new: "fresh_for fresh (gw_db W)"
  shows "books S {} B (snd (complete_authorization E S P fresh i p q h state W))"
  unfolding complete_authorization_def
proof (rule books_bind)
  fix x W1 assume s: "spend_attempt E P i p q h state W = (Inr x, W1)"
  obtain q' r h' a' where x: "x = (q', r, h', a')" by (cases x)
  note b1 = books_spend [OF b s]
  have new1: "fresh_for fresh (gw_db W1)" using new b1(2) by simp
  have "books S {} B (snd (svc_bind (accept_grant E fresh i h q' r (ap_complete h' a') W1) (store_grant E S)))"
  proof (rule books_bind)
    show "books S {} B W2" if "accept_grant E fresh i h q' r (ap_complete h' a') W1 = (Inl e, W2)" for e W2
      by (rule books_accept(1) [OF b1(1) new1 that])
    fix g W2 assume g: "accept_grant E fresh i h q' r (ap_complete h' a') W1 = (Inr g, W2)"
    obtain a c t where gt: "g = (a, c, t)" by (cases g)
    show "books S {} B (snd (store_grant E S g W2))"
      unfolding gt
      by (rule books_store_grant [OF f books_accept(1) [OF b1(1) new1 g]])
        (use books_accept(2,3) [OF b1(1) new1 g] gt in auto)
  qed
  then show "books S {} B (snd ((case x of (q, r, ha, a) \<Rightarrow> \<lambda>W1.
      svc_bind (accept_grant E fresh i h q r (ap_complete ha a) W1) (store_grant E S)) W1))"
    by (simp add: x)
qed (rule books_spend(1) [OF b])

lemma books_store_refreshed:
  assumes f: "agent_store_faithful S" and b: "books S {} B W" and a: "row_of (aa_id a) (aa_credential_ref a) W"
    and keep: "\<not> requires_credential (aa_product a) \<Longrightarrow> aa_credential_ref a = None"
  shows "books S {} B (snd (store_refreshed E S a mode x W))"
proof (cases "validate_provider_access (aa_product a) mode x = None \<and> pa_runtime_profile_ref x = aa_runtime_profile_ref a")
  case True
  let ?i = "aa_id a" and ?ref = "aa_credential_ref a"
  have last: "books S {} B (snd (svc_bind (set_state E ?i AccConnected t None W1) (\<lambda>_. reloaded E ?i)))"
    if "books S {} B W1" "gw_db W1 = gw_db W" "readable S W1 ?ref" for W1 t
    by (rule books_connect [OF that(1) _ that(3)]) (use a that(2) in \<open>simp_all add: row_of_def books_reloaded\<close>)
  show ?thesis
  proof (cases "pa_credential x")
    case None
    with True keep validate_access_requires have "?ref = None" by blast
    then show ?thesis using True None last [OF b refl] by (simp add: store_refreshed_def svc_bind_def readable_def Let_def)
  next
    case (Some c)
    show ?thesis
    proof (cases ?ref)
      case None
      then show ?thesis using b True Some by (simp add: store_refreshed_def required_credential_ref_def svc_bind_def)
    next
      case ref: (Some r)
      obtain y W1 where p: "put_secret S r c W = (y, W1)" by (cases "put_secret S r c W")
      note w = books_put [OF f b a [unfolded ref] p]
      show ?thesis
      proof (cases y)
        case (Inl e)
        have "books S {} B (snd (fail_with E ?i AccError (aa_expires_at a) (credential_error_code e)
            (credential_command_error e) W1))"
          by (rule books_fail(2) [OF w(1)]) simp
        then have "books S {} B (snd (svc_bind (fail_with E ?i AccError (aa_expires_at a) (credential_error_code e)
            (credential_command_error e) W1) g))" for g :: "unit \<Rightarrow> 'a agent_world \<Rightarrow> (AgentAccountDto, 'a) svc"
          by (simp add: svc_bind_def fail_with_def split: prod.splits sum.splits)
        then show ?thesis
          using True Some ref p Inl by (simp add: store_refreshed_def required_credential_ref_def Let_def)
      next
        case (Inr u)
        then have "books S {} B W1" "readable S W1 ?ref" using w(2,4) ref by (auto simp: readable_def)
        from last [OF this(1) w(3) this(2)] show ?thesis
          using True Some ref p Inr by (simp add: store_refreshed_def required_credential_ref_def svc_bind_def Let_def)
      qed
    qed
  qed
qed (use b in \<open>auto simp: store_refreshed_def split: option.split\<close>)

text \<open>A failure that is recorded for an account whose books are in order.\<close>

lemma books_fail_clean:
  assumes "books S {} B W" and "st \<noteq> AccConnected"
  shows "books S {} B (snd (fail_quietly E i st expires code e W))"
    and "books S {} B (snd (fail_with E i st expires code e W))"
  by (rule books_fail [OF books_weaken [OF assms(1)] assms(2)], simp)+

lemma books_refresh:
  assumes f: "agent_store_faithful S" and b: "books S {} B W"
  shows "books S {} B (snd (refresh_account E S P i W))"
proof (rule live_account_cases [of E i W])
  fix a assume l: "live_account E i W = (Inr a, W)" "a \<in> set (agent_accounts (gw_db W))" "aa_id a = i"
    "validate_agent_account (ae_chrono E) a = None"
  have store: "books S {} B (snd (store_refreshed E S a mode y W))" for mode y
    by (rule books_store_refreshed [OF f b row_ofI [OF l(2)] managed_has_no_ref [OF l(4)]])
  have st: "provider_failure_status k \<noteq> AccConnected" for k by (cases k) simp_all
  have fail: "books S {} B (snd (fail_with E j s t c e W :: (AgentAccountDto, 'a) svc))" if "s \<noteq> AccConnected" for j s t c e
    by (rule books_fail_clean(2) [OF b that])
  show ?thesis
    using b by (simp add: refresh_account_def svc_bind_def l(1) store fail st split: sum.split option.split prod.split)
qed (use b in \<open>simp add: refresh_account_def svc_bind_def\<close>)

text \<open>The end of a disconnection: the credential is gone, then the row.\<close>

lemma books_delete_metadata:
  assumes "books S (insert i {}) B W" and "row_of i ref W"
    and "get_agent_account_credential_cleanup i (gw_db W) = None"
    and "\<And>r. ref = Some r \<Longrightarrow> cred_get S r (gw_keys W) = Inl CrMissing"
  shows "books S {} B (snd (delete_metadata e i W))" and "fst (delete_metadata e i W) = Inr ()"
    and "gw_keys (snd (delete_metadata e i W)) = gw_keys W"
    and "gw_db (snd (delete_metadata e i W)) =
      (gw_db W)\<lparr>agent_accounts := filter (\<lambda>a. aa_id a \<noteq> i) (agent_accounts (gw_db W))\<rparr>"
proof -
  obtain s where s: "delete_agent_account_metadata i (gw_db W) = (Inr (), s)" "books S {} B (W\<lparr>gw_db := s\<rparr>)"
    "s = (gw_db W)\<lparr>agent_accounts := filter (\<lambda>a. aa_id a \<noteq> i) (agent_accounts (gw_db W))\<rparr>"
    using books_delete [OF assms] by blast
  show "books S {} B (snd (delete_metadata e i W))" by (simp add: delete_metadata_def s(1,2))
  show "fst (delete_metadata e i W) = Inr ()" by (simp add: delete_metadata_def s(1))
  show "gw_keys (snd (delete_metadata e i W)) = gw_keys W" by (simp add: delete_metadata_def s(1))
  show "gw_db (snd (delete_metadata e i W)) =
      (gw_db W)\<lparr>agent_accounts := filter (\<lambda>a. aa_id a \<noteq> i) (agent_accounts (gw_db W))\<rparr>"
    by (simp add: delete_metadata_def s(1,3))
qed

text \<open>Deleting the credential of a row, if it has one; its failure is recorded by \<open>fail\<close>.\<close>

definition erase_for ::
  "'k agent_store \<Rightarrow> rstring option \<Rightarrow> (AgentCredentialStoreError \<Rightarrow> 'k agent_world \<Rightarrow> (unit, 'k) svc)
     \<Rightarrow> 'k agent_world \<Rightarrow> (unit, 'k) svc" where
  "erase_for S ref fail W = (case ref of
      None \<Rightarrow> (Inr (), W)
    | Some r \<Rightarrow> (case delete_secret S r W of (Inr _, W1) \<Rightarrow> (Inr (), W1) | (Inl e, W1) \<Rightarrow> fail e W1))"

definition gone_from :: "'k agent_store \<Rightarrow> rstring \<Rightarrow> rstring option \<Rightarrow> 'k agent_world \<Rightarrow> 'k agent_world \<Rightarrow> bool" where
  "gone_from S i ref W W1 \<longleftrightarrow>
     gw_db W1 = (gw_db W)\<lparr>agent_accounts := filter (\<lambda>a. aa_id a \<noteq> i) (agent_accounts (gw_db W))\<rparr>
     \<and> (\<forall>r. cred_get S r (gw_keys W1) = (if ref = Some r then Inl CrMissing else cred_get S r (gw_keys W)))"

lemma books_erase_then_delete:
  assumes f: "agent_store_faithful S" and b: "books S {} B W" and a: "row_of i ref W"
    and none: "get_agent_account_credential_cleanup i (gw_db W) = None"
    and fail: "\<And>e W1. books S (insert i {}) B W1 \<Longrightarrow> gw_db W1 = gw_db W \<Longrightarrow>
      books S {} B (snd (fail e W1)) \<and> (\<exists>e'. fst (fail e W1) = Inl e')"
  shows "books S {} B (snd (svc_bind (erase_for S ref fail W) (\<lambda>_. delete_metadata e i)))"
    and "fst (svc_bind (erase_for S ref fail W) (\<lambda>_. delete_metadata e i)) = Inr () \<Longrightarrow>
      gone_from S i ref W (snd (svc_bind (erase_for S ref fail W) (\<lambda>_. delete_metadata e i)))"
proof -
  let ?go = "svc_bind (erase_for S ref fail W) (\<lambda>_. delete_metadata e i)"
  have *: "books S {} B (snd ?go) \<and> (fst ?go = Inr () \<longrightarrow> gone_from S i ref W (snd ?go))"
  proof (cases ref)
    case None
    have "books S (insert i {}) B W" by (rule books_weaken [OF b]) simp
    note d = books_delete_metadata [OF this a none]
    show ?thesis using d None by (auto simp: erase_for_def svc_bind_def gone_from_def)
  next
    case (Some r)
    obtain y W1 where p: "delete_secret S r W = (y, W1)" by (cases "delete_secret S r W")
    note w = books_erase [OF f b a [unfolded Some] p]
    show ?thesis
    proof (cases y)
      case (Inl e')
      then have "?go = svc_bind (fail e' W1) (\<lambda>_. delete_metadata e i)" by (simp add: erase_for_def Some p)
      with fail [OF w(1,2), of e'] show ?thesis by (cases "fail e' W1") (auto simp: svc_bind_def)
    next
      case (Inr u)
      have row: "row_of i (Some r) W1" using a Some by (simp add: row_of_def w(2))
      have "get_agent_account_credential_cleanup i (gw_db W1) = None" using none w(2) by simp
      note d = books_delete_metadata [OF w(1) row this]
      have gone: "cred_get S r (gw_keys W1) = Inl CrMissing" using w(3) Inr by simp
      have go: "?go = delete_metadata e i W1" using Inr by (simp add: erase_for_def Some p svc_bind_def)
      show ?thesis using d gone w(2,4) unfolding go by (auto simp: gone_from_def Some)
    qed
  qed
  show "books S {} B (snd ?go)" using * by blast
  show "fst ?go = Inr () \<Longrightarrow> gone_from S i ref W (snd ?go)" using * by blast
qed

lemma forget_account_eq:
  "forget_account E S a W =
     (if is_managed_subscription (aa_product a) \<and> aa_runtime_profile_ref a \<noteq> None
      then fail_quietly E (aa_id a) DisconnectPending (aa_expires_at a) ''managed_runtime_logout_required'' logout_required W
      else svc_bind (erase_for S (aa_credential_ref a) (\<lambda>e. fail_quietly E (aa_id a) DisconnectPending (aa_expires_at a)
          (credential_error_code e) (credential_command_error e)) W) (\<lambda>_. delete_metadata metadata_error (aa_id a)))"
  by (auto simp: forget_account_def erase_for_def)

lemma remove_account_eq:
  "remove_account E S a W = svc_bind (set_state E (aa_id a) AccRevoked (aa_expires_at a) None W)
     (\<lambda>_ W1. svc_bind (erase_for S (aa_credential_ref a) (\<lambda>e. fail_with E (aa_id a) DisconnectPending (aa_expires_at a)
          (credential_error_code e) (credential_command_error e)) W1) (\<lambda>_. delete_metadata metadata_delete_failed (aa_id a)))"
  by (simp add: remove_account_def erase_for_def)

lemma fail_is_Inl:
  "\<exists>e'. fst (fail_quietly E i st t c e W) = Inl e'" "\<exists>e'. fst (fail_with E i st t c e W) = Inl e'"
  by (auto simp: fail_quietly_def fail_with_def split: prod.split sum.split)

text \<open>What a disconnection that succeeded did: \<open>removed\<close> relates the worlds around it.\<close>

definition removed :: "'k agent_store \<Rightarrow> rstring \<Rightarrow> 'k agent_world \<Rightarrow> 'k agent_world \<Rightarrow> bool" where
  "removed S i W W1 \<longleftrightarrow>
     agent_accounts (gw_db W1) = filter (\<lambda>a. aa_id a \<noteq> i) (agent_accounts (gw_db W))
     \<and> get_agent_account_credential_cleanup i (gw_db W1) = None
     \<and> (\<forall>a \<in> set (agent_accounts (gw_db W)). \<forall>r. aa_credential_ref a = Some r \<longrightarrow>
          cred_get S r (gw_keys W1) = (if aa_id a = i then Inl CrMissing else cred_get S r (gw_keys W)))"

lemma gone_from_removed:
  assumes ok: "rows_ok (gw_db W)" and a: "a \<in> set (agent_accounts (gw_db W))" "aa_id a = i"
    and none: "get_agent_account_credential_cleanup i (gw_db W) = None"
    and g: "gone_from S i (aa_credential_ref a) W W1"
  shows "removed S i W W1"
proof -
  have "cred_get S r (gw_keys W1) = (if aa_id b = i then Inl CrMissing else cred_get S r (gw_keys W))"
    if b: "b \<in> set (agent_accounts (gw_db W))" "aa_credential_ref b = Some r" for b r
  proof (cases "b = a")
    case True
    with a(2) b(2) g show ?thesis by (simp add: gone_from_def)
  next
    case False
    then have "aa_id b \<noteq> i" using row_by_id [OF ok b(1) a(1)] a(2) by auto
    moreover have "aa_credential_ref a \<noteq> Some r" using row_by_ref [OF ok b(1) a(1) b(2)] False by blast
    ultimately show ?thesis using g by (simp add: gone_from_def)
  qed
  with g none show ?thesis by (auto simp: removed_def gone_from_def get_agent_account_credential_cleanup_def)
qed

lemma books_forget:
  assumes f: "agent_store_faithful S" and b: "books S {} B W" and a: "a \<in> set (agent_accounts (gw_db W))"
    and none: "get_agent_account_credential_cleanup (aa_id a) (gw_db W) = None"
  shows "books S {} B (snd (forget_account E S a W))"
    and "fst (forget_account E S a W) = Inr () \<Longrightarrow> removed S (aa_id a) W (snd (forget_account E S a W))"
proof -
  have ok: "rows_ok (gw_db W)" using b by (simp add: books_def)
  have fail: "books S {} B (snd (fail_quietly E (aa_id a) DisconnectPending t c e W1 :: (unit, 'a) svc))
      \<and> (\<exists>e'. fst (fail_quietly E (aa_id a) DisconnectPending t c e W1 :: (unit, 'a) svc) = Inl e')"
    if "books S (insert (aa_id a) {}) B W1" for t c e W1
    by (intro conjI books_fail(1) [OF that] fail_is_Inl) simp
  note d = books_erase_then_delete [OF f b row_ofI [OF a] none, of "\<lambda>e. fail_quietly E (aa_id a) DisconnectPending
      (aa_expires_at a) (credential_error_code e) (credential_command_error e)" metadata_error, OF fail]
  have logout: "books S {} B (snd (fail_quietly E (aa_id a) DisconnectPending t c e W :: (unit, 'a) svc))" for t c e
    by (rule books_fail_clean(1) [OF b]) simp
  show "books S {} B (snd (forget_account E S a W))"
    using d(1) logout unfolding forget_account_eq by simp
  show "removed S (aa_id a) W (snd (forget_account E S a W))" if "fst (forget_account E S a W) = Inr ()"
  proof -
    have "\<not> (is_managed_subscription (aa_product a) \<and> aa_runtime_profile_ref a \<noteq> None)"
    proof
      assume "is_managed_subscription (aa_product a) \<and> aa_runtime_profile_ref a \<noteq> None"
      then have "fst (forget_account E S a W) = Inl logout_required" by (simp add: forget_account_eq fail_quietly_def)
      with that show False by simp
    qed
    note eq = forget_account_eq [of E S a W, unfolded if_not_P [OF this]]
    show ?thesis
      using that unfolding eq by (intro gone_from_removed [OF ok a refl none] d(2))
  qed
qed

lemma books_remove:
  assumes f: "agent_store_faithful S" and b: "books S {} B W" and a: "a \<in> set (agent_accounts (gw_db W))"
    and none: "get_agent_account_credential_cleanup (aa_id a) (gw_db W) = None"
  shows "books S {} B (snd (remove_account E S a W))"
    and "fst (remove_account E S a W) = Inr () \<Longrightarrow> removed S (aa_id a) W (snd (remove_account E S a W))"
proof -
  let ?i = "aa_id a"
  have ok: "rows_ok (gw_db W)" using b by (simp add: books_def)
  obtain W1 where s: "set_state E ?i AccRevoked (aa_expires_at a) None W = (Inr (), W1)" "books S {} B W1"
    "row_of ?i (aa_credential_ref a) W1" "gw_keys W1 = gw_keys W"
    "credential_cleanup (gw_db W1) = credential_cleanup (gw_db W)"
    "filter (\<lambda>c. aa_id c \<noteq> ?i) (agent_accounts (gw_db W1)) = filter (\<lambda>c. aa_id c \<noteq> ?i) (agent_accounts (gw_db W))"
  proof -
    note st = books_set_state [OF b, where i = ?i and st = AccRevoked and E = E and expires = "aa_expires_at a" and code = None]
    have "books S {} B (snd (set_state E ?i AccRevoked (aa_expires_at a) None W))"
      by (rule books_weaken [OF st(1)]) simp_all
    moreover have "filter (\<lambda>c. aa_id c \<noteq> ?i) (agent_accounts (gw_db (snd (set_state E ?i AccRevoked (aa_expires_at a) None W))))
        = filter (\<lambda>c. aa_id c \<noteq> ?i) (agent_accounts (gw_db W))"
      by (auto simp: set_state_def set_agent_account_state_def changed_one_def update_account_def filter_update_where
          split: sum.split prod.split option.split)
    ultimately show thesis
      using st(2) [OF _ row_ofI [OF a]] st(3-5) a that
      by (cases "set_state E ?i AccRevoked (aa_expires_at a) None W") auto
  qed
  have fail: "books S {} B (snd (fail_with E ?i DisconnectPending t c e W2 :: (unit, 'a) svc))
      \<and> (\<exists>e'. fst (fail_with E ?i DisconnectPending t c e W2 :: (unit, 'a) svc) = Inl e')"
    if "books S (insert ?i {}) B W2" for t c e W2
    by (intro conjI books_fail(2) [OF that] fail_is_Inl) simp
  have none1: "get_agent_account_credential_cleanup ?i (gw_db W1) = None"
    using none s(5) by (simp add: get_agent_account_credential_cleanup_def)
  note d = books_erase_then_delete [OF f s(2,3) none1, of "\<lambda>e. fail_with E ?i DisconnectPending
      (aa_expires_at a) (credential_error_code e) (credential_command_error e)" metadata_delete_failed, OF fail]
  show "books S {} B (snd (remove_account E S a W))"
    using d(1) by (simp add: remove_account_eq svc_bind_def s(1))
  show "removed S ?i W (snd (remove_account E S a W))" if "fst (remove_account E S a W) = Inr ()"
  proof -
    let ?W2 = "snd (remove_account E S a W)"
    have g: "gone_from S ?i (aa_credential_ref a) W1 ?W2"
      using d(2) that by (simp add: remove_account_eq svc_bind_def s(1))
    have "gone_from S ?i (aa_credential_ref a) (W\<lparr>gw_db := gw_db W\<rparr>) (?W2\<lparr>gw_db := (gw_db W)\<lparr>agent_accounts :=
        filter (\<lambda>c. aa_id c \<noteq> ?i) (agent_accounts (gw_db W))\<rparr>\<rparr>)"
      using g s(4) by (simp add: gone_from_def)
    then have "removed S ?i W (?W2\<lparr>gw_db := (gw_db W)\<lparr>agent_accounts :=
        filter (\<lambda>c. aa_id c \<noteq> ?i) (agent_accounts (gw_db W))\<rparr>\<rparr>)"
      using gone_from_removed [OF ok a refl none] by simp
    with g s(5,6) show ?thesis by (simp add: removed_def gone_from_def get_agent_account_credential_cleanup_def)
  qed
qed

lemma revoke_access_cases:
  assumes "books S {} B W"
  obtains "revoke_access E P a x W = (Inr (), W)"
    | e W1 where "revoke_access E P a x W = (Inl e, W1)" "books S {} B W1"
proof (cases "revoke_access E P a x W")
  case (Pair y W1)
  have fail: "books S {} B W2" if "fail_with E j DisconnectPending t c e W = (z :: AgentAccountCommandError + unit, W2)" for j t c e z W2
    using books_fail_clean(2) [OF assms, of DisconnectPending E j t c e] that by (metis AgentAccountStatus.distinct(7) snd_conv)
  have "\<exists>e. y = Inl e" if "fail_with E j DisconnectPending t c e W = (y, W1)" for j t c e
  proof -
    have "\<exists>e'. fst (fail_with E j DisconnectPending t c e W :: (unit, 'a) svc) = Inl e'" by (rule fail_is_Inl(2))
    with that show ?thesis by simp
  qed
  then show thesis
    using Pair that assms fail
    by (cases y) (fastforce simp: revoke_access_def split: option.splits sum.splits if_splits prod.splits)+
qed

lemma books_disconnect:
  assumes f: "agent_store_faithful S" and b: "books S {} B W"
  shows "books S {} B (snd (disconnect_account E S P i m W))"
    and "fst (disconnect_account E S P i m W) = Inr () \<Longrightarrow>
      i \<in> aa_id ` set (agent_accounts (gw_db W)) \<and> removed S i W (snd (disconnect_account E S P i m W))"
proof -
  have *: "books S {} B (snd (disconnect_account E S P i m W))
    \<and> (fst (disconnect_account E S P i m W) = Inr () \<longrightarrow>
       i \<in> aa_id ` set (agent_accounts (gw_db W)) \<and> removed S i W (snd (disconnect_account E S P i m W)))"
  proof (rule live_account_cases [of E i W])
    fix a assume l: "live_account E i W = (Inr a, W)" "a \<in> set (agent_accounts (gw_db W))" "aa_id a = i"
    obtain x W1 where d: "drain_credential_cleanup S i W = (x, W1)" by (cases "drain_credential_cleanup S i W")
    note w = books_drain [OF f b d]
    note eq = disconnect_account_def [of E S P i m W, unfolded l(1) svc_bind_def prod.case sum.case d]
    have fail: "books S {} B (snd (fail_quietly E i DisconnectPending t c e W1 :: (unit, 'a) svc))" for t c e
      by (rule books_fail_clean(1) [OF w(1)]) simp
    show ?thesis
    proof (cases x)
      case (Inl e)
      then show ?thesis using eq fail by (simp add: fail_quietly_def)
    next
      case (Inr u)
      have a1: "a \<in> set (agent_accounts (gw_db W1))" using l(2) w(2) by simp
      have none: "get_agent_account_credential_cleanup (aa_id a) (gw_db W1) = None" using w(3) Inr l(3) by simp
      have same: "cred_get S r (gw_keys W1) = cred_get S r (gw_keys W)"
        if "c \<in> set (agent_accounts (gw_db W))" "aa_credential_ref c = Some r" for c r
        by (rule drain_keys [OF f d]) (use b that in \<open>auto simp: books_def cleanup_apart_def\<close>)
      have carry: "removed S i W W2" if "removed S (aa_id a) W1 W2" for W2
        using that w(2) l(3) same by (simp add: removed_def)
      show ?thesis
      proof (cases m)
        case True
        then show ?thesis
          using books_forget [OF f w(1) a1 none] carry eq Inr l(2,3) by auto
      next
        case False
        have rem: "books S {} B (snd (remove_account E S a W1)) \<and> (fst (remove_account E S a W1) = Inr () \<longrightarrow>
            i \<in> aa_id ` set (agent_accounts (gw_db W)) \<and> removed S i W (snd (remove_account E S a W1)))"
          using books_remove [OF f w(1) a1 none] carry l(2,3) by auto
        have go: "books S {} B (snd (svc_bind (revoke_access E P a y W1) (\<lambda>_. remove_account E S a)))
          \<and> (fst (svc_bind (revoke_access E P a y W1) (\<lambda>_. remove_account E S a)) = Inr () \<longrightarrow>
            i \<in> aa_id ` set (agent_accounts (gw_db W))
            \<and> removed S i W (snd (svc_bind (revoke_access E P a y W1) (\<lambda>_. remove_account E S a))))" for y
          by (rule revoke_access_cases [OF w(1), of E P a y]) (simp_all add: svc_bind_def rem)
        show ?thesis
        proof (cases "case read_access S a W1 of Inr x \<Rightarrow> Inr (Some x)
              | Inl e \<Rightarrow> if ce_code e = ''credential_missing'' then Inr None else Inl e")
          case (Inl e)
          then show ?thesis using eq Inr False fail by (simp add: fail_quietly_def)
        next
          case acc: (Inr y)
          then have "disconnect_account E S P i m W = svc_bind (revoke_access E P a y W1) (\<lambda>_. remove_account E S a)"
            using eq Inr False by (simp add: svc_bind_def)
          with go show ?thesis by simp
        qed
      qed
    qed
  qed (use b in \<open>simp add: disconnect_account_def svc_bind_def\<close>)
  show "books S {} B (snd (disconnect_account E S P i m W))" using * by blast
  show "fst (disconnect_account E S P i m W) = Inr () \<Longrightarrow>
      i \<in> aa_id ` set (agent_accounts (gw_db W)) \<and> removed S i W (snd (disconnect_account E S P i m W))" using * by blast
qed

end
