(* ===== verification/Account_Keys.thy ===== *)
theory Account_Keys
  imports Account_Steps
begin

text \<open>
  Connecting an account by an API key, and the sequences of all account operations: what the operations
  promise, one by one and together.
\<close>

section \<open>Undoing a key\<close>

lemma rollback_effect:
  assumes f: "agent_store_faithful S" and b: "books S X B W" and r: "row_of i (Some r) W"
    and p: "rollback_api_key_credential S r previous W = (x, W1)"
  shows "books S (insert i X) B W1" and "gw_db W1 = gw_db W"
    and "x = Inr () \<Longrightarrow> cred_get S r (gw_keys W1) = (case previous of Some c \<Rightarrow> Inr c | None \<Rightarrow> Inl CrMissing)"
    and "\<And>s. s \<noteq> r \<Longrightarrow> cred_get S s (gw_keys W1) = cred_get S s (gw_keys W)"
    and "x = Inr () \<or> x = Inl rollback_failed"
proof -
  obtain y where y: "(case previous of Some c \<Rightarrow> put_secret S r c W | None \<Rightarrow> delete_secret S r W) = (y, W1)"
    "x = map_sum (\<lambda>_. rollback_failed) id y"
    using p by (auto simp: rollback_api_key_credential_def split: prod.splits)
  show "x = Inr () \<or> x = Inl rollback_failed" using y(2) by (cases y) auto
  have x: "x = Inr () \<longleftrightarrow> y = Inr ()" using y(2) by (cases y) auto
  have *: "books S (insert i X) B W1 \<and> gw_db W1 = gw_db W
    \<and> (y = Inr () \<longrightarrow> cred_get S r (gw_keys W1) = (case previous of Some c \<Rightarrow> Inr c | None \<Rightarrow> Inl CrMissing))
    \<and> (\<forall>s. s \<noteq> r \<longrightarrow> cred_get S s (gw_keys W1) = cred_get S s (gw_keys W))"
  proof (cases previous)
    case None
    with y(1) have "delete_secret S r W = (y, W1)" by simp
    from books_erase [OF f b r this] None show ?thesis by simp
  next
    case (Some c)
    with y(1) have "put_secret S r c W = (y, W1)" by simp
    from books_put [OF f b r this] Some show ?thesis by simp
  qed
  show "books S (insert i X) B W1" using * by blast
  show "gw_db W1 = gw_db W" using * by blast
  show "x = Inr () \<Longrightarrow> cred_get S r (gw_keys W1) = (case previous of Some c \<Rightarrow> Inr c | None \<Rightarrow> Inl CrMissing)"
    using * x by blast
  show "\<And>s. s \<noteq> r \<Longrightarrow> cred_get S s (gw_keys W1) = cred_get S s (gw_keys W)" using * by blast
qed

text \<open>A credential that can be gone back to: the row is not connected unless there is one.\<close>

definition undoable :: "AgentAccount \<Rightarrow> bool \<Rightarrow> AgentCredentialEnvelope option \<Rightarrow> bool" where
  "undoable a is_new previous \<longleftrightarrow> (previous = None \<longrightarrow> aa_status a \<noteq> AccConnected) \<and> (is_new \<longrightarrow> previous = None)"

lemma undo_effect:
  assumes f: "agent_store_faithful S" and b: "books S {i} B W"
    and a: "a \<in> set (agent_accounts (gw_db W))" "aa_id a = i" "aa_credential_ref a = Some r"
    and u: "undoable a is_new previous"
    and go: "undo_api_key E S i r previous is_new original W = (x, W1)"
  shows "books S {} B W1" and "\<exists>e. x = Inl e"
    and "x = Inl rollback_failed \<or> (get_agent_account_credential_cleanup i (gw_db W) = None \<longrightarrow> x = Inl original \<and>
      gw_db W1 = (if is_new
        then (gw_db W)\<lparr>agent_accounts := filter (\<lambda>a. aa_id a \<noteq> i) (agent_accounts (gw_db W))\<rparr> else gw_db W)
      \<and> cred_get S r (gw_keys W1) = (case previous of Some c \<Rightarrow> Inr c | None \<Rightarrow> Inl CrMissing)
      \<and> (\<forall>s. s \<noteq> r \<longrightarrow> cred_get S s (gw_keys W1) = cred_get S s (gw_keys W)))"
proof -
  have ok: "rows_ok (gw_db W)" using b by (simp add: books_def)
  have row: "row_of i (Some r) W" using a by (auto simp: row_of_def)
  obtain y W2 where p: "rollback_api_key_credential S r previous W = (y, W2)"
    by (cases "rollback_api_key_credential S r previous W")
  note w = rollback_effect [OF f b row p]
  have b2: "books S {i} B W2" using w(1) by simp
  have *: "books S {} B W1 \<and> (\<exists>e. x = Inl e)
    \<and> (x = Inl rollback_failed \<or> (get_agent_account_credential_cleanup i (gw_db W) = None \<longrightarrow> x = Inl original \<and>
      gw_db W1 = (if is_new
        then (gw_db W)\<lparr>agent_accounts := filter (\<lambda>a. aa_id a \<noteq> i) (agent_accounts (gw_db W))\<rparr> else gw_db W)
      \<and> cred_get S r (gw_keys W1) = (case previous of Some c \<Rightarrow> Inr c | None \<Rightarrow> Inl CrMissing)
      \<and> (\<forall>s. s \<noteq> r \<longrightarrow> cred_get S s (gw_keys W1) = cred_get S s (gw_keys W))))"
  proof (cases y)
    case (Inl e)
    with w(5) have e: "e = rollback_failed" by simp
    have x: "(x, W1) = fail_quietly E i AccError None ''credential_rollback_failed'' rollback_failed W2"
      using go p Inl e by (simp add: undo_api_key_def)
    have "books S {} B (snd (x, W1))" unfolding x by (rule books_fail(1) [OF b2]) simp
    then show ?thesis using x by (simp add: fail_quietly_def)
  next
    case (Inr v)
    have restored: "cred_get S r (gw_keys W2) = (case previous of Some c \<Rightarrow> Inr c | None \<Rightarrow> Inl CrMissing)"
      using w(3) Inr by simp
    have b3: "books S {} B W2"
    proof (rule books_settle [OF b2])
      fix c assume "c \<in> set (agent_accounts (gw_db W2))" "aa_id c = i" "aa_status c = AccConnected"
      moreover from this have "c = a" using row_by_id [OF ok _ a(1)] a(2) w(2) by simp
      ultimately show "readable S W2 (aa_credential_ref c)"
        using u restored a(3) by (cases previous) (auto simp: undoable_def readable_def)
    qed
    show ?thesis
    proof (cases is_new)
      case False
      then have "x = Inl original" "W1 = W2" using go p Inr by (auto simp: undo_api_key_def)
      with False w(2,4) restored b3 show ?thesis by simp
    next
      case True
      show ?thesis
      proof (cases "get_agent_account_credential_cleanup i (gw_db W)")
        case None
        have row2: "row_of i (Some r) W2" using row w(2) by (simp add: row_of_def)
        have gone: "cred_get S r (gw_keys W2) = Inl CrMissing" using restored u True by (simp add: undoable_def)
        obtain s where s: "delete_agent_account_metadata i (gw_db W2) = (Inr (), s)" "books S {} B (W2\<lparr>gw_db := s\<rparr>)"
          "s = (gw_db W2)\<lparr>agent_accounts := filter (\<lambda>a. aa_id a \<noteq> i) (agent_accounts (gw_db W2))\<rparr>"
          by (rule books_delete [OF b2 row2]) (use None w(2) gone in auto)
        have "x = Inl original" "W1 = W2\<lparr>gw_db := s\<rparr>" using go p Inr True s(1) by (auto simp: undo_api_key_def)
        then show ?thesis using s(2,3) w(2,4) restored True by simp
      next
        case (Some c)
        then have "list_ex (\<lambda>c. cl_account c = i) (credential_cleanup (gw_db W2))"
          by (auto simp: w(2) get_agent_account_credential_cleanup_def find_Some_iff list_ex_iff)
        then have "delete_agent_account_metadata i (gw_db W2) = (Inl account_missing, gw_db W2)"
          by (simp add: delete_agent_account_metadata_def)
        then have "x = Inl metadata_error" "W1 = W2" using go p Inr True by (auto simp: undo_api_key_def)
        then show ?thesis using b3 Some by simp
      qed
    qed
  qed
  show "books S {} B W1" using * by blast
  show "\<exists>e. x = Inl e" using * by blast
  show "x = Inl rollback_failed \<or> (get_agent_account_credential_cleanup i (gw_db W) = None \<longrightarrow> x = Inl original \<and>
      gw_db W1 = (if is_new
        then (gw_db W)\<lparr>agent_accounts := filter (\<lambda>a. aa_id a \<noteq> i) (agent_accounts (gw_db W))\<rparr> else gw_db W)
      \<and> cred_get S r (gw_keys W1) = (case previous of Some c \<Rightarrow> Inr c | None \<Rightarrow> Inl CrMissing)
      \<and> (\<forall>s. s \<noteq> r \<longrightarrow> cred_get S s (gw_keys W1) = cred_get S s (gw_keys W)))" using * by blast
qed

lemma previous_undoable:
  assumes "previous_credential S is_new r W = Inr previous" and "books S {} B W"
    and "a \<in> set (agent_accounts (gw_db W))" "aa_credential_ref a = Some r" and "is_new \<Longrightarrow> aa_status a \<noteq> AccConnected"
  shows "undoable a is_new previous"
    and "\<not> is_new \<Longrightarrow> previous = None \<Longrightarrow> cred_get S r (gw_keys W) \<in> {Inl CrMissing, Inl CrInvalid}"
    and "\<not> is_new \<Longrightarrow> previous = Some c \<Longrightarrow> cred_get S r (gw_keys W) = Inr c"
  using assms by (auto simp: previous_credential_def undoable_def books_def readable_def split: if_splits sum.splits)

section \<open>Storing a key\<close>

lemma finalize_cases:
  assumes "finalize_api_key_agent_account E i z s = (x, s')"
  obtains e where "x = Inl e" "s' = s"
    | n where "x = Inr ()" "update_account i (api_key_row E z) s = Inr (n, s')"
proof (cases "update_account i (api_key_row E z) s")
  case (Inr u)
  obtain n s1 where u: "u = (n, s1)" by (cases u)
  have "n = 0 \<Longrightarrow> s1 = s"
    using Inr u by (auto simp: update_account_def split: option.splits if_splits)
  with assms Inr u that show thesis
    by (cases "n = 0") (auto simp: finalize_api_key_agent_account_def changed_one_def split: option.splits if_splits)
qed (use assms that in \<open>auto simp: finalize_api_key_agent_account_def changed_one_def split: option.splits if_splits\<close>)

lemma valid_not_observed: "validate_domain_identifier ''not_observed''"
  by code_simp

lemma api_key_row_readable:
  assumes "validate_agent_account C a = None" and "aa_product a = q"
    and "product_auth_method q = ApiKey" and "custody_mode q = AlfredManaged"
  shows "validate_agent_account C (api_key_row E (api_key_metadata E q key) a) = None"
proof -
  have "ApiKey \<in> set (auth_methods q)" using assms(3) by (auto simp: auth_methods_def)
  then show ?thesis
    using assms valid_not_observed
    unfolding validate_agent_account_def validate_account_contract_def Let_def if_Some_None case_Some_None
    by (simp add: authorized_part_def api_key_row_def api_key_metadata_def Let_def)
qed

lemma api_key_metadata_valid:
  assumes "product_auth_method q = ApiKey" and "custody_mode q = AlfredManaged"
    and "runtime_contract CtxWrite q (managed_runtime q) (managed_runtime_version q)
       (az_runtime_profile_ref (api_key_metadata E q key)) = None"
  shows "validate_authorized_agent_account C (api_key_metadata E q key) = None"
proof -
  have "ApiKey \<in> set (auth_methods q)" using assms(1) by (auto simp: auth_methods_def)
  then show ?thesis
    using assms valid_not_observed
    unfolding validate_authorized_agent_account_def validate_account_contract_def Let_def if_Some_None case_Some_None
    by (simp add: api_key_metadata_def Let_def)
qed

lemma reads_ref:
  assumes "validate_agent_account C a = None" and "requires_credential (aa_product a)"
  obtains r where "aa_credential_ref a = Some r"
  using assms
  by (cases "aa_credential_ref a")
    (auto simp: validate_agent_account_def validate_account_contract_def Let_def if_Some_None case_Some_None
      authorized_part_def blank_or_long_def split: if_splits option.splits)

text \<open>The last steps, once the key is stored: the row is connected, the cleanup drained, the account read.\<close>

definition settle_api_key :: "account_env \<Rightarrow> 'k agent_store \<Rightarrow> rstring \<Rightarrow> 'k agent_world \<Rightarrow> (AgentAccountDto, 'k) svc" where
  "settle_api_key E S i W = (case drain_credential_cleanup S i W of
      (Inl e, W2) \<Rightarrow> fail_quietly E i AccError None (ce_code e) e W2
    | (Inr _, W2) \<Rightarrow> reloaded E i W2)"

lemma books_settle_api_key:
  assumes "agent_store_faithful S" and "books S {} B W"
  shows "books S {} B (snd (settle_api_key E S i W))"
proof (cases "drain_credential_cleanup S i W")
  case (Pair x W2)
  note d = books_drain(1) [OF assms Pair]
  have "books S {} B (snd (fail_quietly E i AccError None c e W2 :: (AgentAccountDto, 'a) svc))" for c e
    by (rule books_fail_clean(1) [OF d]) simp
  then show ?thesis using Pair books_reloaded [OF d] by (cases x) (simp_all add: settle_api_key_def)
qed

text \<open>The three ways the part under the lock goes, for a row that is there.\<close>

lemma store_api_key_cases:
  assumes f: "agent_store_faithful S" and b: "books S {} B W"
    and l: "live_account E (aa_id (fst g)) W = (Inr a, W)" "a \<in> set (agent_accounts (gw_db W))"
    and r: "aa_credential_ref a = Some r"
  obtains e where "store_api_key E S key z g W = (Inl e, W)" "\<not> (snd g \<and> aa_status a \<noteq> AccConnected)"
    | n s k where "store_api_key E S key z g W = settle_api_key E S (aa_id a) (W\<lparr>gw_keys := k, gw_db := s\<rparr>)"
        "update_account (aa_id a) (api_key_row E z) (gw_db W) = Inr (n, s)"
        "cred_get S r k = Inr (alfred_managed key)" "books S {} B (W\<lparr>gw_keys := k, gw_db := s\<rparr>)"
    | original k previous is_new where
        "store_api_key E S key z g W = undo_api_key E S (aa_id a) r previous is_new original (W\<lparr>gw_keys := k\<rparr>)"
        "previous_credential S is_new r W = Inr previous" "is_new \<longleftrightarrow> snd g \<and> aa_status a \<noteq> AccConnected"
        "books S {aa_id a} B (W\<lparr>gw_keys := k\<rparr>)" "\<And>s. s \<noteq> r \<Longrightarrow> cred_get S s k = cred_get S s (gw_keys W)"
proof -
  let ?new = "snd g \<and> aa_status a \<noteq> AccConnected"
  note eq = store_api_key_def [of E S key z g W, unfolded l(1) svc_bind_def prod.case sum.case Let_def
      required_credential_ref_def r option.case]
  have row: "row_of (aa_id a) (Some r) W" using row_ofI [OF l(2)] r by simp
  show thesis
  proof (cases "previous_credential S ?new r W")
    case (Inl e)
    then have "\<not> ?new" unfolding previous_credential_def by (cases ?new) simp_all
    with eq Inl show thesis by (intro that(1)) simp_all
  next
    case (Inr previous)
    obtain x W1 where p: "put_secret S r (alfred_managed key) W = (x, W1)" by (cases "put_secret S r (alfred_managed key) W")
    obtain k where k: "W1 = W\<lparr>gw_keys := k\<rparr>" using p by (auto simp: put_secret_def split: prod.splits)
    note w = books_put [OF f b row p]
    have other: "cred_get S s k = cred_get S s (gw_keys W)" if "s \<noteq> r" for s using w(5) [OF that] k by simp
    have b1: "books S {aa_id a} B (W\<lparr>gw_keys := k\<rparr>)" using w(1) k by simp
    show thesis
    proof (cases x)
      case xl: (Inl e)
      have "store_api_key E S key z g W = undo_api_key E S (aa_id a) r previous ?new (credential_command_error e) (W\<lparr>gw_keys := k\<rparr>)"
        using eq Inr p xl k by simp
      then show thesis by (rule that(3) [OF _ Inr refl b1 other])
    next
      case xr: (Inr u)
      obtain y s where fin: "finalize_api_key_agent_account E (aa_id a) z (gw_db W1) = (y, s)"
        by (cases "finalize_api_key_agent_account E (aa_id a) z (gw_db W1)")
      from fin show thesis
      proof (cases rule: finalize_cases)
        case (1 e)
        then have "store_api_key E S key z g W = undo_api_key E S (aa_id a) r previous ?new metadata_error (W\<lparr>gw_keys := k\<rparr>)"
          using eq Inr p xr k fin by simp
        then show thesis by (rule that(3) [OF _ Inr refl b1 other])
      next
        case (2 n)
        have go: "store_api_key E S key z g W = settle_api_key E S (aa_id a) (W\<lparr>gw_keys := k, gw_db := s\<rparr>)"
          using eq Inr p xr k fin 2(1) by (simp add: settle_api_key_def)
        have read: "cred_get S r k = Inr (alfred_managed key)" using w(4) xr k by simp
        have bb: "books S {} B (W\<lparr>gw_keys := k\<rparr>)" using w(2) xr k by simp
        have u: "update_account (aa_id a) (api_key_row E z) (gw_db (W\<lparr>gw_keys := k\<rparr>)) = Inr (n, s)"
          using 2(2) k by simp
        have ok: "rows_ok (gw_db W)" using b by (simp add: books_def)
        have "books S ({} - {aa_id a}) B (W\<lparr>gw_keys := k, gw_db := s\<rparr>)"
        proof (rule books_update(1) [OF bb u])
          fix c assume "c \<in> set (agent_accounts (gw_db (W\<lparr>gw_keys := k\<rparr>)))" "aa_id c = aa_id a"
          then have "c = a" using row_by_id [OF ok _ l(2)] by simp
          then show "readable S (W\<lparr>gw_keys := k\<rparr>) (aa_credential_ref c)" using r read by (simp add: readable_def)
        qed (simp_all add: api_key_row_def)
        then have "books S {} B (W\<lparr>gw_keys := k, gw_db := s\<rparr>)" by simp
        with go u read show thesis by (intro that(2)) simp_all
      qed
    qed
  qed
qed

lemma books_store_api_key:
  assumes f: "agent_store_faithful S" and b: "books S {} B W"
  shows "books S {} B (snd (store_api_key E S key z g W))"
proof (rule live_account_cases [of E "aa_id (fst g)" W])
  fix a assume l: "live_account E (aa_id (fst g)) W = (Inr a, W)" "a \<in> set (agent_accounts (gw_db W))"
  show ?thesis
  proof (cases "aa_credential_ref a")
    case None
    then show ?thesis using b by (simp add: store_api_key_def svc_bind_def l(1) Let_def required_credential_ref_def)
  next
    case (Some r)
    show ?thesis
    proof (rule store_api_key_cases [OF f b l Some, of key z])
      fix original k previous is_new
      assume go: "store_api_key E S key z g W = undo_api_key E S (aa_id a) r previous is_new original (W\<lparr>gw_keys := k\<rparr>)"
        and prev: "previous_credential S is_new r W = Inr previous" "is_new \<longleftrightarrow> snd g \<and> aa_status a \<noteq> AccConnected"
        and b1: "books S {aa_id a} B (W\<lparr>gw_keys := k\<rparr>)"
      have u: "undoable a is_new previous" by (rule previous_undoable(1) [OF prev(1) b l(2) Some]) (simp add: prev(2))
      obtain x W2 where un: "undo_api_key E S (aa_id a) r previous is_new original (W\<lparr>gw_keys := k\<rparr>)
          = (x :: AgentAccountCommandError + AgentAccountDto, W2)" by fastforce
      show ?thesis using undo_effect(1) [OF f b1 _ refl Some u un] l(2) go un by simp
    next
      fix n s k
      assume "store_api_key E S key z g W = settle_api_key E S (aa_id a) (W\<lparr>gw_keys := k, gw_db := s\<rparr>)"
        and "books S {} B (W\<lparr>gw_keys := k, gw_db := s\<rparr>)"
      then show ?thesis using books_settle_api_key [OF f] by simp
    qed (use b in simp)
  qed
qed (use b in \<open>simp add: store_api_key_def svc_bind_def\<close>)

lemma books_api_key_account:
  assumes "books S {} B W" and "fresh_for fresh (gw_db W)" and "api_key_account E fresh q account_id z W = (x, W1)"
  shows "books S {} B W1"
proof -
  have "books S {} B (W\<lparr>gw_db := s\<rparr>)"
    if "prepare_agent_account E fresh (copy_api_key_metadata z) (gw_db W) = (y, s)" for y s
    by (rule books_prepare [OF assms(1,2) that])
  then show ?thesis
    using assms(1,3) by (auto simp: api_key_account_def split: option.splits sum.splits if_splits prod.splits)
qed

lemma books_connect_key:
  assumes f: "agent_store_faithful S" and b: "books S {} B W" and new: "fresh_for fresh (gw_db W)"
  shows "books S {} B (snd (connect_api_key_account E S fresh p q account_id key W))"
proof -
  have "books S {} B (snd (svc_bind (api_key_account E fresh q account_id z W) (store_api_key E S key z)))" for z
    by (rule books_bind) (use books_api_key_account [OF b new] books_store_api_key [OF f] in blast)+
  then show ?thesis using b by (simp add: connect_api_key_account_def Let_def)
qed

section \<open>Sequences of operations\<close>

text \<open>An operation with what it draws from its surroundings: the time, the registered providers, the
  random part of a new identifier.\<close>

datatype account_op =
    StartAuthorization rstring rstring rstring AgentHarness
  | CompleteAuthorization rstring rstring rstring rstring AgentHarness "rstring option"
  | CancelAuthorization rstring
  | RefreshAccount rstring
  | ConnectApiKey rstring AgentProvider AgentProductId "rstring option" rstring
  | PersistRuntimeManaged rstring AuthorizedAgentAccount
  | DisconnectAccount rstring bool
  | ListAccounts
  | GetAccount rstring

fun account_apply :: "'k agent_store \<Rightarrow> account_env \<times> providers \<times> account_op \<Rightarrow> 'k agent_world \<Rightarrow> 'k agent_world" where
  "account_apply S (E, P, StartAuthorization fresh p q h) W = snd (start_authorization E P fresh p q h W)"
| "account_apply S (E, P, CompleteAuthorization fresh i p q h state) W = snd (complete_authorization E S P fresh i p q h state W)"
| "account_apply S (E, P, CancelAuthorization i) W = snd (cancel_authorization i W)"
| "account_apply S (E, P, RefreshAccount i) W = snd (refresh_account E S P i W)"
| "account_apply S (E, P, ConnectApiKey fresh p q account_id key) W = snd (connect_api_key_account E S fresh p q account_id key W)"
| "account_apply S (E, P, PersistRuntimeManaged i z) W = snd (persist_runtime_managed_account E i z W)"
| "account_apply S (E, P, DisconnectAccount i metadata_only) W = snd (disconnect_account E S P i metadata_only W)"
| "account_apply S (E, P, ListAccounts) W = snd (list_accounts E W)"
| "account_apply S (E, P, GetAccount i) W = snd (get_account E i W)"

text \<open>The reference of a new row is not one that still waits for its cleanup.\<close>

fun op_fresh :: "accounts \<Rightarrow> account_op \<Rightarrow> bool" where
  "op_fresh s (CompleteAuthorization fresh i p q h state) = fresh_for fresh s"
| "op_fresh s (ConnectApiKey fresh p q account_id key) = fresh_for fresh s"
| "op_fresh s op = True"

fun fresh_run :: "'k agent_store \<Rightarrow> (account_env \<times> providers \<times> account_op) list \<Rightarrow> 'k agent_world \<Rightarrow> bool" where
  "fresh_run S [] W = True"
| "fresh_run S ((E, P, op) # ops) W = (op_fresh (gw_db W) op \<and> fresh_run S ops (account_apply S (E, P, op) W))"

lemma books_apply:
  assumes "agent_store_faithful S" and "books S {} B W" and "op_fresh (gw_db W) op"
  shows "books S {} B (account_apply S (E, P, op) W)"
  using assms by (cases op) (simp_all add: books_start books_complete books_cancel books_refresh books_connect_key
      books_persist books_disconnect books_list books_get)

section \<open>The row a key is for\<close>

lemma trim_not_blank:
  assumes "\<not> is_cont d" and "\<not> is_ws [a]"
  shows "trim (a # d # s) \<noteq> []"
proof
  let ?us = "uchars (a # d # s)"
  assume "trim (a # d # s) = []"
  moreover have us: "?us = [a] # uchars (d # s)" using assms(1) by simp
  then have "trim_start (a # d # s) = a # d # s" using assms(2) by (simp add: trim_start_def del: uchars.simps)
  ultimately have "concat (rev (dropWhile is_ws (rev ?us))) = []" by (simp add: trim_def trim_end_def del: uchars.simps)
  moreover have "u \<noteq> []" if "u \<in> set (dropWhile is_ws (rev ?us))" for u
    using uchars_nonempty [of u "a # d # s"] set_dropWhileD [OF that] by simp
  ultimately have "dropWhile is_ws (rev ?us) = []"
    by (cases "dropWhile is_ws (rev ?us)") (auto simp del: uchars.simps)
  then have "\<forall>u \<in> set ?us. is_ws u" by (simp add: dropWhile_eq_Nil_conv del: uchars.simps)
  with us assms(2) show False by simp
qed

text \<open>Identifiers are short: a simple UUID has 32 bytes.\<close>

definition short_id :: "rstring \<Rightarrow> bool" where
  "short_id fresh = (length fresh \<le> 64)"

lemma new_ref_readable:
  assumes "short_id fresh"
  shows "\<not> blank_or_long 512 (Some (credential_reference (''account_'' @ fresh)))"
proof -
  have "trim (credential_reference (''account_'' @ fresh)) \<noteq> []"
    using trim_not_blank [of "CHR ''g''" "CHR ''a''" "''ent-account:account_'' @ fresh"]
    by (simp add: credential_reference_def is_cont_def is_ws_def)
  then show ?thesis using assms by (simp add: blank_or_long_def short_id_def credential_reference_def)
qed

lemma new_row_readable:
  assumes "validate_authorized_agent_account C z = None" and "short_id fresh"
  shows "validate_agent_account C (new_row E (''account_'' @ fresh)
    (if requires_credential (az_product z) then Some (credential_reference (''account_'' @ fresh)) else None) z) = None"
proof -
  let ?ref = "if requires_credential (az_product z) then Some (credential_reference (''account_'' @ fresh)) else None"
  have "validate_account_contract C CtxRead z ?ref = None"
    by (rule written_account_is_readable)
      (use assms(1) new_ref_readable [OF assms(2)] in \<open>simp_all add: validate_authorized_agent_account_def\<close>)
  then show ?thesis
    unfolding validate_agent_account_def validate_account_contract_def Let_def if_Some_None case_Some_None
    by (simp add: authorized_part_def new_row_def)
qed

lemma get_account_found:
  assumes "rows_ok s" and "a \<in> set (agent_accounts s)" and "validate_agent_account (ae_chrono E) a = None"
  shows "get_agent_account E (aa_id a) s = Inr (Some a)"
  using find_row [OF assms(1), of "aa_id a" a] assms(2,3) by (simp add: get_agent_account_def read_opt_def read_account_def)

lemma read_opt_Inr: "read_opt E x = Inr (Some a) \<Longrightarrow> x = Some a \<and> validate_agent_account (ae_chrono E) a = None"
  by (cases x) (auto simp: read_opt_def read_account_def split: option.splits)

lemma read_opt_None: "read_opt E x = Inr None \<Longrightarrow> x = None"
  by (cases x) (auto simp: read_opt_def read_account_def split: option.splits)

text \<open>The row a key is for: none, one that was there, or a new one that nothing refers to yet.\<close>

lemma api_key_account_cases:
  assumes ok: "rows_ok (gw_db W)" and short: "short_id fresh" and z: "z = api_key_metadata E q key"
  obtains e where "api_key_account E fresh q account_id z W = (Inl e, W)"
    | a where "api_key_account E fresh q account_id z W = (Inr (a, False), W)"
        "a \<in> set (agent_accounts (gw_db W))" "validate_agent_account (ae_chrono E) a = None" "aa_product a = q"
        "aa_provider a = product_provider q"
    | a where "api_key_account E fresh q account_id z W =
          (Inr (a, True), W\<lparr>gw_db := (gw_db W)\<lparr>agent_accounts := agent_accounts (gw_db W) @ [a]\<rparr>\<rparr>)"
        "validate_agent_account (ae_chrono E) a = None" "aa_product a = q" "aa_provider a = product_provider q"
        "insert_account a (gw_db W) = Inr ((gw_db W)\<lparr>agent_accounts := agent_accounts (gw_db W) @ [a]\<rparr>)"
        "aa_status a = AccError" "aa_id a = ''account_'' @ fresh"
        "requires_credential q \<longrightarrow> aa_credential_ref a = Some (credential_reference (''account_'' @ fresh))"
proof -
  let ?look = "case account_id of
      Some i \<Rightarrow> get_agent_account E i (gw_db W)
    | None \<Rightarrow> get_agent_account_by_identity E (az_provider z) q Alfred (identity_key (ae_digest E) z) (gw_db W)"
  note eq = api_key_account_def [of E fresh q account_id z W]
  have zs: "az_product z = q" "az_provider z = product_provider q" "az_harness z = Alfred"
    "copy_api_key_metadata z = z" by (simp_all add: z api_key_metadata_def copy_api_key_metadata_def Let_def)
  show thesis
  proof (cases ?look)
    case (Inl e)
    with eq show thesis by (intro that(1)) simp
  next
    case (Inr found)
    show thesis
    proof (cases found)
      case (Some a)
      with Inr have look: "?look = Inr (Some a)" by simp
      then have "a \<in> set (agent_accounts (gw_db W)) \<and> validate_agent_account (ae_chrono E) a = None"
        by (cases account_id)
          (auto simp: get_agent_account_def get_agent_account_by_identity_def find_Some_iff dest!: read_opt_Inr)
      then show thesis
        using eq look that(1,2) zs
        by (cases "aa_provider a \<noteq> az_provider z \<or> aa_product a \<noteq> q \<or> aa_harness a \<noteq> Alfred
          \<or> aa_auth_method a \<noteq> ApiKey \<or> aa_custody_mode a \<noteq> AlfredManaged") auto
    next
      case None
      with Inr have look: "?look = Inr None" by simp
      show thesis
      proof (cases account_id)
        case (Some i)
        with eq look show thesis by (intro that(1)) simp
      next
        case none: None
        have free: "find (\<lambda>a. account_key a = (az_provider z, az_product z, az_harness z, identity_key (ae_digest E) z))
            (agent_accounts (gw_db W)) = None"
          using look none zs by (simp add: get_agent_account_by_identity_def read_opt_None)
        obtain x s where p: "prepare_agent_account E fresh z (gw_db W) = (x, s)"
          by (cases "prepare_agent_account E fresh z (gw_db W)")
        have go: "api_key_account E fresh q account_id z W = (case (x, s) of
            (Inl _, s) \<Rightarrow> (Inl metadata_error, W\<lparr>gw_db := s\<rparr>) | (Inr a, s) \<Rightarrow> (Inr (a, True), W\<lparr>gw_db := s\<rparr>))"
          using eq look none zs(4) p by simp
        from p show thesis
        proof (cases rule: prepare_cases)
          case (1 e)
          with go show thesis by (intro that(1)) simp
        next
          case (2 m n)
          with free show thesis by simp
        next
          case (3 ref)
          let ?row = "new_row E (''account_'' @ fresh) ref z"
          have s: "s = (gw_db W)\<lparr>agent_accounts := agent_accounts (gw_db W) @ [?row]\<rparr>"
            using 3(1) by (simp add: insert_account_def split: if_splits)
          have read: "validate_agent_account (ae_chrono E) ?row = None"
            using new_row_readable [OF 3(5) short] 3(3) by simp
          have "?row \<in> set (agent_accounts s)" by (simp add: s)
          from get_account_found [OF _ this read] insert_account_ok [OF ok 3(1)]
          have "get_agent_account E (''account_'' @ fresh) s = Inr (Some ?row)" by (simp add: new_row_def)
          then have "x = Inr ?row" using 3(2) by (simp add: loaded_account_def)
          then have "api_key_account E fresh q account_id z W = (Inr (?row, True), W\<lparr>gw_db := s\<rparr>)" using go by simp
          then show thesis
            using s read 3(1,3) zs by (intro that(3) [of ?row]) (simp_all add: new_row_def)
        qed
      qed
    qed
  qed
qed

section \<open>What the operations promise\<close>

lemma validated_harness: "validate_agent_account C a = None \<Longrightarrow> aa_harness a = Alfred"
  by (auto simp: validate_agent_account_def validate_account_contract_def Let_def if_Some_None authorized_part_def)

lemma resolve_found:
  assumes "rows_ok (gw_db W)" and "a \<in> set (agent_accounts (gw_db W))"
    and "validate_agent_account (ae_chrono E) a = None" and "aa_status a = AccConnected"
    and "\<not> is_past_expiry E (aa_expires_at a)" and "readable S W (aa_credential_ref a)"
  obtains x where "resolve E S (aa_id a) (aa_provider a) (aa_product a) W = Inr x"
    and "nc_envelope (ra_credential x) = (case aa_credential_ref a of None \<Rightarrow> None
       | Some r \<Rightarrow> (case cred_get S r (gw_keys W) of Inl _ \<Rightarrow> None | Inr c \<Rightarrow> Some c))"
  using get_account_found [OF assms(1-3)] validated_harness [OF assms(3)] assms(4-6) that
  by (cases "aa_credential_ref a") (auto simp: resolve_def readable_def)

lemma settle_ok:
  assumes f: "agent_store_faithful S" and b: "books S {} B W" and a: "a \<in> set (agent_accounts (gw_db W))"
    and v: "validate_agent_account (ae_chrono E) a = None" and e: "aa_expires_at a = None"
    and go: "settle_api_key E S (aa_id a) W = (x, W1)"
  shows "get_agent_account_credential_cleanup (aa_id a) (gw_db W) = None \<Longrightarrow> x = Inr (dto_of a) \<and> W1 = W"
    and "x = Inr d \<Longrightarrow> d = dto_of a \<and> a \<in> set (agent_accounts (gw_db W1)) \<and> books S {} B W1
      \<and> (\<forall>r. aa_credential_ref a = Some r \<longrightarrow> cred_get S r (gw_keys W1) = cred_get S r (gw_keys W))"
proof -
  have load: "reloaded E (aa_id a) W2 = (Inr (dto_of a), W2)"
    if "rows_ok (gw_db W2)" "a \<in> set (agent_accounts (gw_db W2))" for W2 :: "'a agent_world"
    using get_account_found [OF that v] e by (simp add: reloaded_def get_account_def project_expiry_def is_past_expiry_def)
  have ok: "rows_ok (gw_db W)" using b by (simp add: books_def)
  show "x = Inr (dto_of a) \<and> W1 = W" if "get_agent_account_credential_cleanup (aa_id a) (gw_db W) = None"
    using go that load [OF ok a] by (simp add: settle_api_key_def drain_credential_cleanup_def)
  assume x: "x = Inr d"
  obtain y W2 where d: "drain_credential_cleanup S (aa_id a) W = (y, W2)"
    by (cases "drain_credential_cleanup S (aa_id a) W")
  note w = books_drain [OF f b d]
  have a2: "rows_ok (gw_db W2)" "a \<in> set (agent_accounts (gw_db W2))" using w(1,2) a by (simp_all add: books_def)
  have "y \<noteq> Inl e'" for e' using go d x by (auto simp: settle_api_key_def fail_quietly_def)
  then have "d = dto_of a" "W1 = W2" using go d x load [OF a2] by (cases y; auto simp: settle_api_key_def)+
  moreover have "cred_get S r (gw_keys W2) = cred_get S r (gw_keys W)" if "aa_credential_ref a = Some r" for r
    by (rule drain_keys [OF f d]) (use b a that in \<open>auto simp: books_def cleanup_apart_def\<close>)
  ultimately show "d = dto_of a \<and> a \<in> set (agent_accounts (gw_db W1)) \<and> books S {} B W1
      \<and> (\<forall>r. aa_credential_ref a = Some r \<longrightarrow> cred_get S r (gw_keys W1) = cred_get S r (gw_keys W))"
    using a2(2) w(1) by simp
qed

text \<open>The row of a key, and what the part under the lock makes of it.\<close>

lemma alfred_key_product:
  assumes "product_auth_method q = ApiKey" and "custody_mode q = AlfredManaged"
  shows "requires_credential q"
  using assms by (auto simp: custody_mode_def requires_credential_def split: if_splits)

text \<open>A failed key leaves the rows as they were, without the new one, and every credential that could be read.\<close>

definition undone :: "'k agent_store \<Rightarrow> rstring \<Rightarrow> bool \<Rightarrow> rstring \<Rightarrow> 'k agent_world \<Rightarrow> 'k agent_world \<Rightarrow> bool" where
  "undone S r n i W W1 \<longleftrightarrow>
     gw_db W1 = (if n then (gw_db W)\<lparr>agent_accounts := filter (\<lambda>c. aa_id c \<noteq> i) (agent_accounts (gw_db W))\<rparr> else gw_db W)
     \<and> (\<forall>s. s \<noteq> r \<longrightarrow> cred_get S s (gw_keys W1) = cred_get S s (gw_keys W))
     \<and> (cred_get S r (gw_keys W1) = cred_get S r (gw_keys W)
        \<or> (n \<or> cred_get S r (gw_keys W) = Inl CrInvalid) \<and> cred_get S r (gw_keys W1) = Inl CrMissing)"

lemma store_api_key_outcome:
  assumes f: "agent_store_faithful S" and b: "books S {} B W"
    and a: "a \<in> set (agent_accounts (gw_db W))" "validate_agent_account (ae_chrono E) a = None" "aa_product a = q"
      "aa_provider a = product_provider q"
    and q: "product_auth_method q = ApiKey" "custody_mode q = AlfredManaged"
    and new: "n \<Longrightarrow> aa_status a \<noteq> AccConnected"
    and go: "store_api_key E S key (api_key_metadata E q key) (a, n) W = (x, W1)"
  shows "x = Inr d \<Longrightarrow> dt_id d = aa_id a
      \<and> (\<exists>y. resolve E S (aa_id a) (product_provider q) q W1 = Inr y \<and> nc_access_token (ra_credential y) = Some key)"
    and "x = Inl e \<Longrightarrow> get_agent_account_credential_cleanup (aa_id a) (gw_db W) = None \<Longrightarrow> e = rollback_failed \<or>
      (\<exists>r. aa_credential_ref a = Some r \<and> undone S r n (aa_id a) W W1)"
proof -
  let ?z = "api_key_metadata E q key" and ?row = "api_key_row E (api_key_metadata E q key) a"
  have ok: "rows_ok (gw_db W)" using b by (simp add: books_def)
  have req: "requires_credential (aa_product a)" using alfred_key_product [OF q] a(3) by simp
  obtain r where r: "aa_credential_ref a = Some r" using reads_ref [OF a(2) req] by blast
  have l: "live_account E (aa_id (fst (a, n))) W = (Inr a, W)"
    using get_account_found [OF ok a(1,2)] by (simp add: live_account_def)
  have *: "(x = Inr d \<longrightarrow> dt_id d = aa_id a
      \<and> (\<exists>y. resolve E S (aa_id a) (product_provider q) q W1 = Inr y \<and> nc_access_token (ra_credential y) = Some key))
    \<and> (x = Inl e \<longrightarrow> get_agent_account_credential_cleanup (aa_id a) (gw_db W) = None \<longrightarrow> e = rollback_failed \<or>
      undone S r n (aa_id a) W W1)"
  proof (rule store_api_key_cases [OF f b l a(1) r, of key ?z])
    fix e' assume "store_api_key E S key ?z (a, n) W = (Inl e', W)" "\<not> (snd (a, n) \<and> aa_status a \<noteq> AccConnected)"
    with go new show ?thesis by (auto simp: undone_def)
  next
    fix m s k
    assume s: "store_api_key E S key ?z (a, n) W = settle_api_key E S (aa_id a) (W\<lparr>gw_keys := k, gw_db := s\<rparr>)"
      and u: "update_account (aa_id a) (api_key_row E ?z) (gw_db W) = Inr (m, s)"
      and c: "cred_get S r k = Inr (alfred_managed key)" and bb: "books S {} B (W\<lparr>gw_keys := k, gw_db := s\<rparr>)"
    let ?W = "W\<lparr>gw_keys := k, gw_db := s\<rparr>"
    have us: "credential_cleanup s = credential_cleanup (gw_db W)" "?row \<in> set (agent_accounts s)"
      using update_account_ok(2,3) [OF ok u] a(1) by (auto simp: api_key_row_def)
    have row: "aa_id ?row = aa_id a" "aa_credential_ref ?row = Some r" "aa_expires_at ?row = None"
      "aa_status ?row = AccConnected" "aa_provider ?row = product_provider q" "aa_product ?row = q"
      by (simp_all add: api_key_row_def r a(3,4))
    have v: "validate_agent_account (ae_chrono E) ?row = None" by (rule api_key_row_readable [OF a(2,3) q])
    have set: "settle_api_key E S (aa_id ?row) ?W = (x, W1)" using s go row(1) by simp
    have mem: "?row \<in> set (agent_accounts (gw_db ?W))" using us(2) by simp
    note settled = settle_ok [OF f bb mem v row(3) set]
    have "dt_id d = aa_id a \<and> (\<exists>y. resolve E S (aa_id a) (product_provider q) q W1 = Inr y
        \<and> nc_access_token (ra_credential y) = Some key)" if x: "x = Inr d"
    proof -
      have d: "d = dto_of ?row" "?row \<in> set (agent_accounts (gw_db W1))" "books S {} B W1"
        "cred_get S r (gw_keys W1) = Inr (alfred_managed key)"
        using settled(2) [OF x] row(2) c by simp_all
      have ok1: "rows_ok (gw_db W1)" using d(3) by (simp add: books_def)
      have live: "\<not> is_past_expiry E (aa_expires_at ?row)" "readable S W1 (aa_credential_ref ?row)"
        using row(2,3) d(4) by (simp_all add: is_past_expiry_def readable_def)
      obtain y where "resolve E S (aa_id ?row) (aa_provider ?row) (aa_product ?row) W1 = Inr y"
        "nc_envelope (ra_credential y) = (case aa_credential_ref ?row of None \<Rightarrow> None
           | Some r \<Rightarrow> (case cred_get S r (gw_keys W1) of Inl _ \<Rightarrow> None | Inr c \<Rightarrow> Some c))"
        using resolve_found [OF ok1 d(2) v row(4) live] by blast
      then have "resolve E S (aa_id a) (product_provider q) q W1 = Inr y" "nc_access_token (ra_credential y) = Some key"
        using d(4) by (simp_all add: row(1,2,5,6) nc_access_token_def alfred_managed_def)
      moreover have "dt_id d = aa_id a" using d(1) row(1) by (simp add: dto_of_def Let_def)
      ultimately show ?thesis by blast
    qed
    moreover have False if "x = Inl e" "get_agent_account_credential_cleanup (aa_id a) (gw_db W) = None"
      using settled(1) us(1) row(1) that by (simp add: get_agent_account_credential_cleanup_def)
    ultimately show ?thesis by blast
  next
    fix original k previous is_new
    assume s: "store_api_key E S key ?z (a, n) W = undo_api_key E S (aa_id a) r previous is_new original (W\<lparr>gw_keys := k\<rparr>)"
      and prev: "previous_credential S is_new r W = Inr previous" "is_new \<longleftrightarrow> snd (a, n) \<and> aa_status a \<noteq> AccConnected"
      and b1: "books S {aa_id a} B (W\<lparr>gw_keys := k\<rparr>)" and other: "\<And>s. s \<noteq> r \<Longrightarrow> cred_get S s k = cred_get S s (gw_keys W)"
    have n: "is_new = n" using prev(2) new by auto
    have und: "undoable a n previous" "\<not> n \<Longrightarrow> previous = None \<Longrightarrow> cred_get S r (gw_keys W) \<in> {Inl CrMissing, Inl CrInvalid}"
      "\<And>c. \<not> n \<Longrightarrow> previous = Some c \<Longrightarrow> cred_get S r (gw_keys W) = Inr c"
      using previous_undoable [OF prev(1) b a(1) r] new unfolding n by blast+
    have mem: "a \<in> set (agent_accounts (gw_db (W\<lparr>gw_keys := k\<rparr>)))" using a(1) by simp
    have un: "undo_api_key E S (aa_id a) r previous n original (W\<lparr>gw_keys := k\<rparr>) = (x, W1)" using s go n by simp
    note effect = undo_effect(2,3) [OF f b1 mem refl r und(1) un]
    show ?thesis
    proof (intro conjI impI)
      assume "x = Inr d" with effect(1) show "dt_id d = aa_id a" by simp
    next
      assume "x = Inr d" with effect(1)
      show "\<exists>y. resolve E S (aa_id a) (product_provider q) q W1 = Inr y \<and> nc_access_token (ra_credential y) = Some key" by simp
    next
      assume x: "x = Inl e" "get_agent_account_credential_cleanup (aa_id a) (gw_db W) = None"
      have "n \<Longrightarrow> previous = None" using und(1) by (simp add: undoable_def)
      with effect(2) x other und(2,3) show "e = rollback_failed \<or> undone S r n (aa_id a) W W1"
        by (cases previous; cases n) (auto simp: undone_def)
    qed
  qed
  show "x = Inr d \<Longrightarrow> dt_id d = aa_id a
      \<and> (\<exists>y. resolve E S (aa_id a) (product_provider q) q W1 = Inr y \<and> nc_access_token (ra_credential y) = Some key)"
    using * by blast
  show "x = Inl e \<Longrightarrow> get_agent_account_credential_cleanup (aa_id a) (gw_db W) = None \<Longrightarrow> e = rollback_failed \<or>
      (\<exists>r. aa_credential_ref a = Some r \<and> undone S r n (aa_id a) W W1)"
    using * r by blast
qed

lemma fold_books:
  assumes f: "agent_store_faithful S" and "books S {} B W" and "fresh_run S ops W"
  shows "books S {} B (fold (account_apply S) ops W)"
  using assms(2,3)
proof (induction ops arbitrary: W)
  case (Cons x ops)
  obtain E P op where x: "x = (E, P, op)" by (cases x)
  have "books S {} B (account_apply S x W)"
    using books_apply [OF f Cons.prems(1)] Cons.prems(2) by (simp add: x)
  with Cons show ?case by (simp add: x)
qed simp

text \<open>
  Property C12 (a connected account resolves): whatever accounts were connected, refreshed and
  disconnected before, an account that is connected, is not past its expiry and meets the contract of
  its product is handed to a runtime, with a credential when its product needs one - the resolver never
  finds it without.
\<close>

theorem connected_account_resolves:
  assumes "agent_store_faithful S" and "books S {} B W" and "fresh_run S ops W"
    and "W' = fold (account_apply S) ops W"
    and "a \<in> set (agent_accounts (gw_db W'))" and "aa_status a = AccConnected"
    and "validate_agent_account (ae_chrono E) a = None" and "\<not> is_past_expiry E (aa_expires_at a)"
  shows "\<exists>x. resolve E S (aa_id a) (aa_provider a) (aa_product a) W' = Inr x
    \<and> (nc_envelope (ra_credential x) \<noteq> None \<longleftrightarrow> requires_credential (aa_product a))"
proof -
  have b: "books S {} B W'" unfolding assms(4) by (rule fold_books [OF assms(1-3)])
  then have live: "rows_ok (gw_db W')" "readable S W' (aa_credential_ref a)"
    using assms(5,6) by (auto simp: books_def)
  obtain x where x: "resolve E S (aa_id a) (aa_provider a) (aa_product a) W' = Inr x"
    "nc_envelope (ra_credential x) = (case aa_credential_ref a of None \<Rightarrow> None
       | Some r \<Rightarrow> (case cred_get S r (gw_keys W') of Inl _ \<Rightarrow> None | Inr c \<Rightarrow> Some c))"
    using resolve_found [OF live(1) assms(5,7,6,8) live(2)] by blast
  show ?thesis
  proof (cases "requires_credential (aa_product a)")
    case True
    obtain r where "aa_credential_ref a = Some r" using reads_ref [OF assms(7) True] .
    with True x live(2) show ?thesis by (auto simp: readable_def)
  next
    case False
    then show ?thesis using x managed_has_no_ref [OF assms(7)] by auto
  qed
qed

text \<open>
  Property C13 (no secret is stranded): no sequence of account operations, whichever of them fail and
  wherever they fail, leaves a secret in the keyring that neither a row nor a pending cleanup leads to -
  unless it was there before.
\<close>

theorem no_secret_is_stranded:
  assumes "agent_store_faithful S" and "books S {} B W" and "fresh_run S ops W"
    and "cred_get S r (gw_keys (fold (account_apply S) ops W)) \<noteq> Inl CrMissing" and "r \<notin> B"
  shows "r \<in> accounted (gw_db (fold (account_apply S) ops W))"
  using fold_books [OF assms(1-3)] assms(4,5) by (auto simp: books_def stranded_def)

text \<open>
  Property C39 (a disconnected account is gone): when a disconnection succeeds, its row, its secret and its
  pending cleanup are gone, and no other row or secret of an account changed.
\<close>

theorem disconnected_account_is_gone:
  assumes "agent_store_faithful S" and "books S {} B W" and "disconnect_account E S P i metadata_only W = (Inr (), W')"
  shows "agent_accounts (gw_db W') = filter (\<lambda>a. aa_id a \<noteq> i) (agent_accounts (gw_db W))
    \<and> i \<in> aa_id ` set (agent_accounts (gw_db W)) \<and> get_agent_account_credential_cleanup i (gw_db W') = None
    \<and> (\<forall>a r. a \<in> set (agent_accounts (gw_db W)) \<and> aa_credential_ref a = Some r \<longrightarrow>
         cred_get S r (gw_keys W') = (if aa_id a = i then Inl CrMissing else cred_get S r (gw_keys W)))"
  using books_disconnect(2) [OF assms(1,2), of E P i metadata_only] assms(3) by (simp add: removed_def)

text \<open>
  Property C24 (an accepted key is the one that is used): when a key is accepted, for a new account or an
  old one, the resolver hands exactly this key to the runtime of its product.
\<close>

theorem accepted_key_resolves:
  assumes "agent_store_faithful S" and "books S {} B W" and "fresh_for fresh (gw_db W)" and "short_id fresh"
    and "connect_api_key_account E S fresh p q account_id key W = (Inr d, W')"
  shows "\<exists>x. resolve E S (dt_id d) p q W' = Inr x \<and> nc_access_token (ra_credential x) = Some key"
proof -
  let ?z = "api_key_metadata E q key"
  have q: "product_provider q = p" "product_auth_method q = ApiKey" "custody_mode q = AlfredManaged"
    and go: "svc_bind (api_key_account E fresh q account_id ?z W) (store_api_key E S key ?z) = (Inr d, W')"
    using assms(5) by (auto simp: connect_api_key_account_def Let_def split: if_splits)
  have ok: "rows_ok (gw_db W)" using assms(2) by (simp add: books_def)
  show ?thesis
  proof (rule api_key_account_cases [OF ok assms(4) refl, where E = E and q = q and key = key and account_id = account_id])
    fix a assume a: "api_key_account E fresh q account_id ?z W = (Inr (a, False), W)" "a \<in> set (agent_accounts (gw_db W))"
      "validate_agent_account (ae_chrono E) a = None" "aa_product a = q" "aa_provider a = product_provider q"
    have "store_api_key E S key ?z (a, False) W = (Inr d, W')" using go a(1) by (simp add: svc_bind_def)
    from store_api_key_outcome(1) [OF assms(1,2) a(2-5) q(2,3) _ this] q(1) show ?thesis by auto
  next
    let ?W = "\<lambda>a. W\<lparr>gw_db := (gw_db W)\<lparr>agent_accounts := agent_accounts (gw_db W) @ [a]\<rparr>\<rparr>"
    fix a assume a: "api_key_account E fresh q account_id ?z W = (Inr (a, True), ?W a)"
      "validate_agent_account (ae_chrono E) a = None" "aa_product a = q" "aa_provider a = product_provider q"
      "aa_status a = AccError"
    have b1: "books S {} B (?W a)" by (rule books_api_key_account [OF assms(2,3) a(1)])
    have "store_api_key E S key ?z (a, True) (?W a) = (Inr d, W')" using go a(1) by (simp add: svc_bind_def)
    from store_api_key_outcome(1) [OF assms(1) b1 _ a(2-4) q(2,3) _ this] a(5) q(1) show ?thesis by auto
  qed (use go in \<open>simp add: svc_bind_def\<close>)
qed


text \<open>
  The second half of \<^verbatim>\<open>complete_authorization\<close> takes no lock of the account: when the row is
  disconnected while the grant waits, the credential is written all the same, the operation fails, and
  the secret is stranded.
\<close>

lemma late_grant_strands_secret:
  assumes f: "agent_store_faithful S" and "find (\<lambda>b. aa_id b = aa_id a) (agent_accounts (gw_db W)) = None"
    and "aa_credential_ref a = Some r" and "r \<notin> accounted (gw_db W)"
    and "get_agent_account_credential_cleanup (aa_id a) (gw_db W) = None"
    and "cred_put S r c (gw_keys W) = (Inr (), k)"
  shows "fst (store_grant E S (a, Some c, expires) W) = Inl metadata_error"
    and "r \<in> stranded S (snd (store_grant E S (a, Some c, expires) W))"
  using assms cred_get_put [OF f assms(6)]
  by (simp_all add: store_grant_def required_credential_ref_def put_secret_def svc_bind_def drain_credential_cleanup_def
      set_state_def set_agent_account_state_def update_account_def changed_one_def stranded_def)

section \<open>Witnesses\<close>

definition ex_env :: account_env where
  "ex_env = \<lparr>ae_chrono = unary_clock, ae_instant = 1, ae_digest = (\<lambda>s. s)\<rparr>"

definition ex_world :: "(rstring \<rightharpoonup> rstring) agent_world" where
  "ex_world = \<lparr>gw_db = \<lparr>agent_accounts = [], credential_cleanup = []\<rparr>, gw_keys = (\<lambda>_. None), gw_auth = registry_default\<rparr>"

abbreviation ex_key :: rstring where "ex_key \<equiv> ''AIzaSy-test-key-0001''"

definition ex_connect :: "rstring \<Rightarrow> rstring \<Rightarrow> account_env \<times> providers \<times> account_op" where
  "ex_connect fresh key = (ex_env, register_gated_defaults, ConnectApiKey fresh Gemini GeminiApi None key)"

lemma ex_books: "books map_agent_store {} {} ex_world"
proof -
  have "cred_get map_agent_store r (\<lambda>_. None) = Inl CrMissing" for r
    by (simp add: cred_get_def map_agent_store_def map_keyring_def)
  then show ?thesis by (simp add: books_def ex_world_def rows_ok_def cleanup_apart_def stranded_def)
qed

lemma ex_one: "fold (account_apply map_agent_store) [ex_connect ''1'' ex_key] ex_world
  = snd (connect_api_key_account ex_env map_agent_store ''1'' Gemini GeminiApi None ex_key ex_world)"
  by (simp add: ex_connect_def)

text \<open>The first key of a store: accepted when it has the shape its provider gives keys and the keyring works.\<close>

lemma first_key_row:
  assumes q: "product_provider q = p" "product_auth_method q = ApiKey" "custody_mode q = AlfredManaged"
    and short: "short_id fresh"
    and z: "z = api_key_metadata E q key" "validate_authorized_agent_account (ae_chrono E) z = None"
      "trim (az_external_account_id z) \<noteq> []"
    and W: "gw_db W = \<lparr>agent_accounts = [], credential_cleanup = []\<rparr>"
    and row: "row = new_row E (''account_'' @ fresh) (Some (credential_reference (''account_'' @ fresh))) z"
      "account_check row"
  shows "api_key_account E fresh q None z W
      = (Inr (row, True), W\<lparr>gw_db := \<lparr>agent_accounts = [row], credential_cleanup = []\<rparr>\<rparr>)"
    and "get_agent_account E (aa_id row) \<lparr>agent_accounts = [row], credential_cleanup = []\<rparr> = Inr (Some row)"
    and "validate_agent_account (ae_chrono E) row = None" and "aa_id row = ''account_'' @ fresh"
    and "aa_credential_ref row = Some (credential_reference (''account_'' @ fresh))" and "aa_status row = AccError"
    and "aa_provider row = p" and "aa_product row = q" and "aa_harness row = Alfred"
proof -
  have req: "requires_credential q" by (rule alfred_key_product [OF q(2,3)])
  have zs: "az_product z = q" "az_provider z = p" "az_harness z = Alfred" "copy_api_key_metadata z = z"
    "az_auth_method z = ApiKey" "az_custody_mode z = AlfredManaged"
    using q(1) by (simp_all add: z(1) api_key_metadata_def copy_api_key_metadata_def Let_def)
  have rs: "aa_id row = ''account_'' @ fresh" "aa_credential_ref row = Some (credential_reference (''account_'' @ fresh))"
    "aa_status row = AccError" "aa_provider row = p" "aa_product row = q" "aa_harness row = Alfred"
    using zs by (simp_all add: row(1) new_row_def)
  have v: "validate_agent_account (ae_chrono E) row = None"
    using new_row_readable [OF z(2) short, of E] zs(1) req by (simp add: row(1))
  have ins: "insert_account row (gw_db W) = Inr \<lparr>agent_accounts = [row], credential_cleanup = []\<rparr>"
    by (simp add: insert_account_def row(2) W)
  have get: "get_agent_account E (aa_id row) \<lparr>agent_accounts = [row], credential_cleanup = []\<rparr> = Inr (Some row)"
    by (simp add: get_agent_account_def read_opt_def read_account_def v)
  have "prepare_agent_account E fresh z (gw_db W) = loaded_account E (''account_'' @ fresh)
      \<lparr>agent_accounts = [row], credential_cleanup = []\<rparr>"
    unfolding prepare_agent_account_def z(2)
    using ins [unfolded row(1) W] z(3) req by (simp add: W zs(1) Let_def row(1))
  also have "\<dots> = (Inr row, \<lparr>agent_accounts = [row], credential_cleanup = []\<rparr>)"
    using get [unfolded rs(1)] by (simp add: loaded_account_def)
  finally have "prepare_agent_account E fresh z (gw_db W) = (Inr row, \<lparr>agent_accounts = [row], credential_cleanup = []\<rparr>)" .
  then show "api_key_account E fresh q None z W
      = (Inr (row, True), W\<lparr>gw_db := \<lparr>agent_accounts = [row], credential_cleanup = []\<rparr>\<rparr>)"
    by (simp add: api_key_account_def get_agent_account_by_identity_def read_opt_def W zs(4))
  show "get_agent_account E (aa_id row) \<lparr>agent_accounts = [row], credential_cleanup = []\<rparr> = Inr (Some row)" by (rule get)
  show "validate_agent_account (ae_chrono E) row = None" by (rule v)
qed (use q(1) in \<open>simp_all add: row(1) new_row_def z(1) api_key_metadata_def Let_def\<close>)

lemma first_key_accepted:
  assumes q: "product_provider q = p" "product_auth_method q = ApiKey" "custody_mode q = AlfredManaged"
    and key: "valid_native_api_key q key" and short: "short_id fresh"
    and z: "z = api_key_metadata E q key" "validate_authorized_agent_account (ae_chrono E) z = None"
      "trim (az_external_account_id z) \<noteq> []"
    and W: "gw_db W = \<lparr>agent_accounts = [], credential_cleanup = []\<rparr>"
    and row: "row = new_row E (''account_'' @ fresh) (Some (credential_reference (''account_'' @ fresh))) z"
      "account_check row"
    and put: "cred_put S (credential_reference (''account_'' @ fresh)) (alfred_managed key) (gw_keys W) = (Inr (), k)"
  shows "connect_api_key_account E S fresh p q None key W = (Inr (dto_of (api_key_row E z row)),
    W\<lparr>gw_keys := k, gw_db := \<lparr>agent_accounts = [api_key_row E z row], credential_cleanup = []\<rparr>\<rparr>)"
proof -
  have req: "requires_credential q" by (rule alfred_key_product [OF q(2,3)])
  have zs: "az_product z = q" "az_provider z = p" "az_harness z = Alfred" "copy_api_key_metadata z = z"
    "az_auth_method z = ApiKey" "az_custody_mode z = AlfredManaged"
    using q(1) by (simp_all add: z(1) api_key_metadata_def copy_api_key_metadata_def Let_def)
  note first = first_key_row [OF q short z W row]
  note prep = first(1) and get = first(2) and v = first(3) and rs = first(4-9)
  have check: "account_check (api_key_row E z row)" using row(2) by (auto simp: account_check_def api_key_row_def)
  have fin: "finalize_api_key_agent_account E (aa_id row) z \<lparr>agent_accounts = [row], credential_cleanup = []\<rparr>
      = (Inr (), \<lparr>agent_accounts = [api_key_row E z row], credential_cleanup = []\<rparr>)"
    using z(2,3) zs req rs check
    by (simp add: finalize_api_key_agent_account_def api_key_target_def changed_one_def update_account_def update_where_def)
  have v2: "validate_agent_account (ae_chrono E) (api_key_row E z row) = None"
    unfolding z(1) by (rule api_key_row_readable [OF v rs(5) q(2,3)])
  have load: "reloaded E (aa_id row) (W\<lparr>gw_keys := k, gw_db := \<lparr>agent_accounts = [api_key_row E z row], credential_cleanup = []\<rparr>\<rparr>)
      = (Inr (dto_of (api_key_row E z row)),
         W\<lparr>gw_keys := k, gw_db := \<lparr>agent_accounts = [api_key_row E z row], credential_cleanup = []\<rparr>\<rparr>)"
    using v2 by (simp add: reloaded_def get_account_def get_agent_account_def read_opt_def read_account_def
        project_expiry_def is_past_expiry_def api_key_row_def)
  have "store_api_key E S key z (row, True) (W\<lparr>gw_db := \<lparr>agent_accounts = [row], credential_cleanup = []\<rparr>\<rparr>)
      = (Inr (dto_of (api_key_row E z row)),
         W\<lparr>gw_keys := k, gw_db := \<lparr>agent_accounts = [api_key_row E z row], credential_cleanup = []\<rparr>\<rparr>)"
    using get fin put load rs
    by (simp add: store_api_key_def live_account_def svc_bind_def Let_def required_credential_ref_def
        previous_credential_def put_secret_def drain_credential_cleanup_def get_agent_account_credential_cleanup_def)
  then show ?thesis
    using q key prep by (simp add: connect_api_key_account_def svc_bind_def z(1) Let_def)
qed

abbreviation ex_metadata :: AuthorizedAgentAccount where "ex_metadata \<equiv> api_key_metadata ex_env GeminiApi ex_key"

lemma ex_metadata_ok: "valid_native_api_key GeminiApi ex_key"
  "validate_authorized_agent_account (ae_chrono ex_env) ex_metadata = None" "trim (az_external_account_id ex_metadata) \<noteq> []"
  by code_simp+

definition ex_row :: AgentAccount where
  "ex_row = new_row ex_env ''account_1'' (Some (credential_reference ''account_1'')) ex_metadata"

lemma ex_row_check: "account_check ex_row"
  by (simp add: ex_row_def account_check_def new_row_def api_key_metadata_def Let_def managed_runtime_version_def)

lemma ex_gemini: "product_provider GeminiApi = Gemini" "product_auth_method GeminiApi = ApiKey"
  "custody_mode GeminiApi = AlfredManaged"
  by (simp_all add: custody_mode_def is_managed_subscription_def)

lemma ex_empty: "gw_db ex_world = \<lparr>agent_accounts = [], credential_cleanup = []\<rparr>"
  by (simp add: ex_world_def)

abbreviation ex_ref :: rstring where "ex_ref \<equiv> credential_reference ''account_1''"

definition ex_connected :: "(rstring \<rightharpoonup> rstring) agent_world" where
  "ex_connected = ex_world\<lparr>gw_keys := [ex_ref \<mapsto> ex_key],
     gw_db := \<lparr>agent_accounts = [api_key_row ex_env ex_metadata ex_row], credential_cleanup = []\<rparr>\<rparr>"

lemma ex_accepted: "connect_api_key_account ex_env map_agent_store ''1'' Gemini GeminiApi None ex_key ex_world
  = (Inr (dto_of (api_key_row ex_env ex_metadata ex_row)), ex_connected)"
  unfolding ex_connected_def
proof (rule first_key_accepted [OF ex_gemini ex_metadata_ok(1)])
  show "cred_put map_agent_store (credential_reference (''account_'' @ ''1'')) (alfred_managed ex_key) (gw_keys ex_world)
      = (Inr (), [ex_ref \<mapsto> ex_key])"
    by (simp add: cred_put_def map_agent_store_def alfred_managed_def map_keyring_def ex_world_def
        credential_is_valid_def filled_def)
qed (simp_all add: short_id_def ex_row_def ex_metadata_ok ex_empty ex_row_check [unfolded ex_row_def])

lemma fst_pair: "fst x = a \<Longrightarrow> x = (a, snd x)"
  by (cases x) simp

lemma ex_fresh: "fresh_for ''1'' (gw_db ex_world)" "short_id ''1''"
  by (simp_all add: fresh_for_def ex_empty short_id_def)

lemma ex_run: "fold (account_apply map_agent_store) [ex_connect ''1'' ex_key] ex_world = ex_connected"
  "fresh_run map_agent_store [ex_connect ''1'' ex_key] ex_world"
  using ex_accepted ex_fresh by (simp_all add: ex_connect_def)

lemma ex_connected_books: "books map_agent_store {} {} ex_connected"
  by (rule fold_books [OF map_agent_store_faithful ex_books ex_run(2), unfolded ex_run(1)])

definition ex_account :: AgentAccount where
  "ex_account = api_key_row ex_env ex_metadata ex_row"

lemma ex_account_fields: "aa_id ex_account = ''account_1''" "aa_credential_ref ex_account = Some ex_ref"
  "aa_status ex_account = AccConnected" "aa_provider ex_account = Gemini" "aa_product ex_account = GeminiApi"
  "aa_expires_at ex_account = None" "aa_custody_mode ex_account = AlfredManaged" "aa_runtime_profile_ref ex_account = None"
  "agent_accounts (gw_db ex_connected) = [ex_account]" "credential_cleanup (gw_db ex_connected) = []"
  "cred_get map_agent_store ex_ref (gw_keys ex_connected) = Inr (alfred_managed ex_key)"
  by (simp_all add: ex_account_def api_key_row_def ex_row_def new_row_def api_key_metadata_def Let_def ex_connected_def
      cred_get_def map_agent_store_def map_keyring_def decode_envelope_def credential_is_valid_def alfred_managed_def filled_def)

lemma ex_account_valid: "validate_agent_account (ae_chrono ex_env) ex_account = None"
  unfolding ex_account_def
  by (rule api_key_row_readable)
    (use new_row_readable [OF ex_metadata_ok(2) ex_fresh(2), of ex_env] ex_gemini ex_account_fields(5)
      in \<open>simp_all add: ex_row_def new_row_def api_key_metadata_def Let_def requires_credential_def is_managed_subscription_def\<close>)

theorem connected_account_resolves_witness:
  "\<exists>x. resolve ex_env map_agent_store ''account_1'' Gemini GeminiApi ex_connected = Inr x
     \<and> (nc_envelope (ra_credential x) \<noteq> None \<longleftrightarrow> requires_credential GeminiApi)"
  using connected_account_resolves [OF map_agent_store_faithful ex_books ex_run(2) refl, unfolded ex_run(1),
      where a = ex_account and E = ex_env] ex_account_valid
  by (simp add: ex_account_fields is_past_expiry_def)

theorem no_secret_is_stranded_witness: "ex_ref \<in> accounted (gw_db ex_connected)"
  using no_secret_is_stranded [OF map_agent_store_faithful ex_books ex_run(2), unfolded ex_run(1), of ex_ref]
  by (simp add: ex_account_fields)

lemma ex_disconnect: "fst (disconnect_account ex_env map_agent_store register_gated_defaults ''account_1'' False ex_connected) = Inr ()"
proof -
  have get: "get_agent_account ex_env ''account_1'' (gw_db ex_connected) = Inr (Some ex_account)"
    using get_account_found [of "gw_db ex_connected" ex_account ex_env] ex_connected_books ex_account_valid
    by (simp add: books_def ex_account_fields)
  have rows: "gw_db ex_connected = \<lparr>agent_accounts = [ex_account], credential_cleanup = []\<rparr>"
    by (simp add: ex_connected_def ex_account_def)
  have keys: "gw_keys ex_connected = [ex_ref \<mapsto> ex_key]" by (simp add: ex_connected_def)
  have check: "account_check ex_account" using ex_connected_books by (simp add: books_def rows_ok_def ex_account_fields)
  have access: "read_access map_agent_store ex_account ex_connected
      = Inr \<lparr>pa_credential = Some (alfred_managed ex_key), pa_runtime_profile_ref = None\<rparr>"
    using ex_account_fields
    by (simp add: read_access_def validate_provider_access_def requires_credential_def is_managed_subscription_def
        alfred_managed_def)
  have set: "set_state ex_env ''account_1'' AccRevoked None None ex_connected
      = (Inr (), ex_connected\<lparr>gw_db := \<lparr>agent_accounts = [ex_account\<lparr>aa_status := AccRevoked, aa_expires_at := None,
          aa_last_checked_at := Some (ae_now ex_env), aa_last_error_code := None, aa_updated_at := ae_now ex_env\<rparr>],
          credential_cleanup = []\<rparr>\<rparr>)"
    using check ex_account_fields(1)
    by (auto simp add: set_state_def set_agent_account_state_def changed_one_def update_account_def update_where_def rows
        account_check_def)
  have del: "delete_secret map_agent_store ex_ref (ex_connected\<lparr>gw_db := s\<rparr>)
      = (Inr (), ex_connected\<lparr>gw_keys := (\<lambda>_. None), gw_db := s\<rparr>)" for s
    by (simp add: delete_secret_def cred_delete_def map_agent_store_def map_keyring_def keys)
  show ?thesis
    using get access set del ex_account_fields(1-6) ex_gemini
    by (simp add: disconnect_account_def live_account_def svc_bind_def drain_credential_cleanup_def
        get_agent_account_credential_cleanup_def rows revoke_access_def uses_alfred_managed_api_key_def remove_account_def
        delete_metadata_def delete_agent_account_metadata_def)
qed

theorem disconnected_account_is_gone_witness:
  "agent_accounts (gw_db (snd (disconnect_account ex_env map_agent_store register_gated_defaults ''account_1'' False ex_connected))) = []"
  using disconnected_account_is_gone [OF map_agent_store_faithful ex_connected_books fst_pair [OF ex_disconnect]]
  by (simp add: ex_account_fields)

theorem accepted_key_resolves_witness:
  "\<exists>x. resolve ex_env map_agent_store ''account_1'' Gemini GeminiApi ex_connected = Inr x
     \<and> nc_access_token (ra_credential x) = Some ex_key"
  using accepted_key_resolves [OF map_agent_store_faithful ex_books ex_fresh ex_accepted]
  by (simp add: dto_of_def Let_def ex_account_fields(1) [unfolded ex_account_def])

text \<open>A keyring that takes nothing: the new row goes again.\<close>

definition ex_full :: "(rstring \<rightharpoonup> rstring) agent_store" where
  "ex_full = map_agent_store\<lparr>cred_write := (\<lambda>_. None)\<rparr>"

lemma ex_full_faithful: "agent_store_faithful ex_full"
  using map_agent_store_faithful by (simp add: ex_full_def agent_store_faithful_def)

lemma ex_full_books: "books ex_full {} {} ex_world"
proof -
  have "cred_get ex_full r (\<lambda>_. None) = Inl CrMissing" for r
    by (simp add: cred_get_def ex_full_def map_agent_store_def map_keyring_def)
  then show ?thesis by (simp add: books_def ex_world_def rows_ok_def cleanup_apart_def stranded_def)
qed

lemma ex_refused: "fst (connect_api_key_account ex_env ex_full ''1'' Gemini GeminiApi None ex_key ex_world)
  = Inl (credential_command_error CrInvalid)"
proof -
  have "credential_is_valid (alfred_managed ex_key)" by (simp add: credential_is_valid_def alfred_managed_def filled_def)
  then have put: "put_secret ex_full ex_ref (alfred_managed ex_key) W = (Inl CrInvalid, W)" for W
    by (simp add: put_secret_def cred_put_def ex_full_def)
  have del: "delete_secret ex_full ex_ref (ex_world\<lparr>gw_db := s\<rparr>) = (Inr (), ex_world\<lparr>gw_db := s\<rparr>)" for s
    by (simp add: delete_secret_def cred_delete_def ex_full_def map_agent_store_def map_keyring_def ex_world_def)
  note row = first_key_row [OF ex_gemini ex_fresh(2) refl ex_metadata_ok(2,3) ex_empty, of ex_row]
  show ?thesis
    using row [OF _ ex_row_check] ex_gemini ex_metadata_ok(1) put del
    by (simp add: ex_row_def connect_api_key_account_def Let_def svc_bind_def store_api_key_def live_account_def
        required_credential_ref_def previous_credential_def undo_api_key_def rollback_api_key_credential_def
        delete_agent_account_metadata_def)
qed


end
