(* ===== verification/Spec2Isabelle.thy ===== *)
theory Spec2Isabelle
  imports Alfred_System Licensing Runner_Exec Review_Jobs Account_Keys
begin

text \<open>
  Alfred runs workflows - graphs of agent calls, scripts, requests and app actions - on a desktop. The
  code under \<^verbatim>\<open>src/src-tauri/src\<close> (Rust) keeps workflows, schedules, triggers, runs, memories and a
  license in SQLite, starts runs from the window, from a scheduler and from events of connected apps,
  executes them, and lets an agent review finished runs for things worth remembering. This development
  models that core and proves what makes it correct.

  \<^bold>\<open>Parts and theories\<close> (paths under \<^verbatim>\<open>src/src-tauri/src\<close>)

  \<^item> Prelude, Json, Rust_Text: lists, keyed tables, sums as results, transition systems with their
    invariant locale; JSON values; Rust strings as UTF-8 byte strings.
  \<^item> Db_Tables, Workflow_Store (\<^verbatim>\<open>db/workflows.rs\<close>, \<^verbatim>\<open>db/schedules.rs\<close>, \<^verbatim>\<open>db/triggers.rs\<close>): the
    record \<open>db\<close> of all tables, its invariant, and every operation on workflows, schedules and triggers.
  \<^item> History, Run_History (\<^verbatim>\<open>db/history.rs\<close>): the text index of run steps, run details and search.
  \<^item> App_Connections (\<^verbatim>\<open>db/app_connections.rs\<close>, \<^verbatim>\<open>integrations/models.rs\<close>): connections to providers.
  \<^item> App_Events (\<^verbatim>\<open>db/app_events.rs\<close>): receipts, the queue of events and their promotion to runs.
  \<^item> Event_Sync (\<^verbatim>\<open>integrations/events.rs\<close>): one synchronisation of a trigger with its provider.
  \<^item> Active_Runs, Run_Lifecycle (\<^verbatim>\<open>agents/active.rs\<close>, \<^verbatim>\<open>runner/mod.rs\<close>): starting, cancelling, ending runs.
  \<^item> App_Runtime (\<^verbatim>\<open>triggers/app.rs\<close>), Scheduler (\<^verbatim>\<open>scheduler/mod.rs\<close>): what starts runs over time.
  \<^item> Store_Steps, Store_Growth, Alfred_System: the steps of the event pipeline in any order; the tables
    stay valid, and the pipeline refines an inbox in which an event is waiting, started or discarded.
  \<^item> Runner_Graph, Runner_Text, Runner_Os, Runner_Exec (\<^verbatim>\<open>runner/mod.rs\<close>): the order of a graph, the
    texts built for prompts and commands, the commands themselves, and \<^verbatim>\<open>execute_run\<close>.
  \<^item> Agents (\<^verbatim>\<open>agents/mod.rs\<close>, \<^verbatim>\<open>agents/activity.rs\<close>, \<^verbatim>\<open>agents/auth.rs\<close>, \<^verbatim>\<open>agents/models.rs\<close>): what
    crosses the border between the runner and an adapter.
  \<^item> License_Client, Licensing (\<^verbatim>\<open>licensing\<close>, \<^verbatim>\<open>db/license.rs\<close>): the remote license service, the local
    record and credential, the offline policy.
  \<^item> Account_Models, Account_Auth, Account_Store, Accounts, Account_Service (\<^verbatim>\<open>agent_accounts\<close>,
    \<^verbatim>\<open>db/agent_accounts.rs\<close>): products and the contract of an account, authorization attempts, rows,
    secrets in the keyring, the service and the resolver; Account_Steps and Account_Keys hold the
    invariant of the rows and secrets together, operation by operation, and the properties.
  \<^item> Memory_Tables, Memories (\<^verbatim>\<open>db/memories.rs\<close>): memories in their scopes, links and artifacts.
  \<^item> Memory_Retrieval (\<^verbatim>\<open>db/memory_retrieval.rs\<close>): what a prompt recalls, and the log of it.
  \<^item> Memory_Curation, Memory_Review, Review_Jobs (\<^verbatim>\<open>db/memory_curation.rs\<close>, the end of
    \<^verbatim>\<open>runner/mod.rs\<close>): candidates, their screening and approval, review jobs and their interleaving.

  \<^bold>\<open>How state is modelled.\<close> A table is a list of records in the order of insertion; a statement that
  violates a key, a \<^verbatim>\<open>CHECK\<close> or a reference is an error value; a transaction either returns its new
  state or leaves the old one. \<open>db\<close> has the tables of the pipeline, \<open>mem\<close> those of the memories and the
  files they spill to. Errors are sums with the constructors of the source. Concurrency is
  interleaving: a step of a transition system is what the code does while it holds the database or
  between two awaits.

  \<^bold>\<open>Parameters.\<close> Code that is not in the repository is an argument of the definitions that use it:
  serde_json (\<open>serde\<close>), the time library (\<open>chrono\<close>, read by \<open>mem_env\<close>), the cron library, SQLite's
  full-text ranking (\<open>fts_match\<close>, \<open>fts_engine\<close>), SHA-256, lower-casing, the keyring, HTTP, the
  operating system, provider adapters and agents. Fresh identifiers are arguments; where a property
  needs them new, it says so. Bytes that a ranking returns as \<^verbatim>\<open>f64\<close> are rationals here, so rounding
  errors of a score are outside the model. Each hypothesis on a parameter is instantiated by a witness.

  \<^bold>\<open>Loops.\<close> There is no fuel: a loop is a recursion that ends by structure or by a measure - Kahn's
  loop by the nodes that are not visited, the backwards search by the states it has not queued - and
  its termination is proved with the definition. The search for secret-like assignments is a partial
  function, and its property shows it returns on every text.

  \<^bold>\<open>What the properties show.\<close> Safety of the pipeline: every reachable state has valid tables; an event
  has a receipt before the provider cursor moves; redelivery starts nothing twice; queues are bounded;
  events are promoted in order. Runs: the recorded steps are an initial segment of the order, a run that
  ends is recorded with the status it ended with, what is recalled is recorded. Order: Kahn's order is a
  permutation of the nodes and respects the edges of an acyclic graph. Licensing: activation is all or
  nothing, an outage never ends entitlement. Memories: duplicates, scopes, budgets of every text that
  reaches an agent. Reviews: a review only proposes, at most one is at work for a run, decisions are
  final, approval is one step. Accounts: an attempt is verified and used once; a connected account has
  its credential, no secret is left without a row, and a key that fails changes nothing. Some theorems
  without a property number record behaviour that surprises, such as a schedule of a busy workflow
  that blocks all later ones; they are listed as findings beside the code.

  \<^bold>\<open>Not modelled.\<close> Provider adapters, CLI and native agent runtimes, OAuth and package installation
  speak protocols of external programs and services; what the modelled code relies on of them is a
  parameter. The window, the tray, notifications and command registration are glue to the
  operating system. Schema migrations and workflow folders are outside: the model starts from the
  current schema. An account operation under its lock is one step; the table of these locks, panics on
  allocation failure and poisoned locks are not modelled.
\<close>

end
